theory Spec2Isabelle
  imports Complex_Main "HOL-Library.Sublist"
begin

section \<open>Voice-integrity pipeline: data model\<close>

text \<open>
  Python floats are modelled as \<^typ>\<open>real\<close> and Python's unbounded integers as
  \<^typ>\<open>int\<close>. Rounding, infinities and NaN are outside the model, except in the
  speech rate of the behavioural analysis, which is computed in binary64 arithmetic
  (\<open>pyfloat\<close>); where the source would produce NaN or divide by zero the model has an
  explicit branch.
  Timestamps (\<^verbatim>\<open>datetime.now\<close>) are passed in as arguments.
  Human-readable factor strings built with f-strings are modelled by a datatype whose
  constructors carry the interpolated values.
\<close>

datatype py_error =
    ZeroDivisionError
  | ValueError
  | ImportError
  | KeyError
  | IndexError
  | AttributeError
  | LoadError

subsection \<open>cheating_classifier.py: CheatingSample, CheatingPrediction\<close>

record CheatingSample =
  speech_ratio :: real
  silence_periods :: int
  voice_confidence :: real
  help_seeking_phrases :: int
  answer_receiving_phrases :: int
  question_reading :: bool
  external_discussion :: bool
  speech_rate :: real
  pause_frequency :: real
  total_speakers :: int
  speaker_switches :: int
  primary_speaker_ratio :: real
  overlapping_speech :: real
  stress_level :: real
  anxiety_level :: real
  deception_indicators_count :: int
  emotion_confidence :: real
  audio_quality_score :: real
  background_noise :: real
  potential_recording :: bool
  is_cheating :: bool
  session_id :: string
  timestamp :: string

text \<open>The dataclass defaults of \<^verbatim>\<open>CheatingSample\<close>.\<close>

definition CheatingSample_default :: CheatingSample where
  "CheatingSample_default =
     \<lparr> speech_ratio = 0, silence_periods = 0, voice_confidence = 0,
       help_seeking_phrases = 0, answer_receiving_phrases = 0,
       question_reading = False, external_discussion = False,
       speech_rate = 0, pause_frequency = 0,
       total_speakers = 1, speaker_switches = 0, primary_speaker_ratio = 1,
       overlapping_speech = 0,
       stress_level = 0, anxiety_level = 0, deception_indicators_count = 0,
       emotion_confidence = 0,
       audio_quality_score = 1, background_noise = 0, potential_recording = False,
       is_cheating = False, session_id = [], timestamp = [] \<rparr>"

datatype factor =
    HelpSeekingPhrases int
  | AnswerReceivingPhrases int
  | ExternalDiscussionDetected
  | MultipleSpeakers int
  | HighStressLevels
  | HighStressLevel real
  | MultipleDeceptionIndicators
  | PotentialPreRecordedAudio
  | PotentialRecordingDetected
  | FeatureFactor string real

record risk_breakdown_t =
  content_risk :: real
  speaker_risk :: real
  emotion_risk :: real
  quality_risk :: real
  behavioral_risk :: real

datatype model_used_t = RuleBasedFallback | Ensemble | RandomForest

record CheatingPrediction =
  p_is_cheating :: bool
  p_confidence :: real
  p_probability :: real
  p_risk_score :: real
  p_contributing_factors :: "factor list"
  p_risk_breakdown :: risk_breakdown_t
  p_evidence_summary :: CheatingSample
  p_model_used :: model_used_t
  p_prediction_timestamp :: string

text \<open>
  The fitted scikit-learn objects are external. A model is represented by its
  \<^verbatim>\<open>predict_proba(...)[0, 1]\<close> on a feature row and the scaler by its
  \<^verbatim>\<open>transform\<close>; \<open>None\<close> as a result stands for a raised exception.
\<close>

type_synonym sk_model = "real list \<Rightarrow> real option"
type_synonym sk_scaler = "real list \<Rightarrow> real list option"

record CheatingClassifier =
  rf_model :: "sk_model option"
  gb_model :: "sk_model option"
  lr_model :: "sk_model option"
  feature_scaler :: "sk_scaler option"
  training_samples :: "CheatingSample list"
  is_trained :: bool
  model_metrics :: "(string \<times> real) list"
  feature_importance :: "(string \<times> real) list"
  prediction_history :: "CheatingPrediction list"
  feature_names :: "string list"

definition get_feature_names :: "string list" where
  "get_feature_names =
     [''speech_ratio'', ''silence_periods'', ''voice_confidence'',
      ''help_seeking_phrases'', ''answer_receiving_phrases'',
      ''question_reading'', ''external_discussion'',
      ''speech_rate'', ''pause_frequency'',
      ''total_speakers'', ''speaker_switches'', ''primary_speaker_ratio'',
      ''overlapping_speech'', ''stress_level'', ''anxiety_level'',
      ''deception_indicators_count'', ''emotion_confidence'',
      ''audio_quality_score'', ''background_noise'', ''potential_recording'']"

definition float_of_bool :: "bool \<Rightarrow> real" where
  "float_of_bool b = (if b then 1 else 0)"

definition sample_to_features :: "CheatingSample \<Rightarrow> real list" where
  "sample_to_features s =
     [speech_ratio s, of_int (silence_periods s), voice_confidence s,
      of_int (help_seeking_phrases s), of_int (answer_receiving_phrases s),
      float_of_bool (question_reading s), float_of_bool (external_discussion s),
      speech_rate s, pause_frequency s,
      of_int (total_speakers s), of_int (speaker_switches s), primary_speaker_ratio s,
      overlapping_speech s, stress_level s, anxiety_level s,
      of_int (deception_indicators_count s), emotion_confidence s,
      audio_quality_score s, background_noise s,
      float_of_bool (potential_recording s)]"

definition get_risk_breakdown :: "CheatingSample \<Rightarrow> risk_breakdown_t" where
  "get_risk_breakdown s =
     \<lparr> content_risk =
         min 1 (of_int (help_seeking_phrases s + answer_receiving_phrases s) * (2 / 10)),
       speaker_risk = min 1 (of_int (max 0 (total_speakers s - 1)) * (5 / 10)),
       emotion_risk = min 1 ((stress_level s + anxiety_level s) / 2),
       quality_risk =
         min 1 ((1 - audio_quality_score s) + float_of_bool (potential_recording s)),
       behavioral_risk = min 1 (pause_frequency s * (5 / 10)) \<rparr>"

text \<open>
  \<^verbatim>\<open>_get_evidence_summary\<close> copies sample fields into a nested dictionary; the
  model keeps the sample itself.
\<close>

definition get_evidence_summary :: "CheatingSample \<Rightarrow> CheatingSample" where
  "get_evidence_summary s = s"

text \<open>
  \<^verbatim>\<open>_get_rule_based_prediction\<close>: each rule that fires adds its weight to the
  running score and appends its factor.
\<close>

definition rule :: "bool \<Rightarrow> real \<Rightarrow> 'f \<Rightarrow> real \<times> 'f list \<Rightarrow> real \<times> 'f list" where
  "rule c w f acc = (if c then (fst acc + w, snd acc @ [f]) else acc)"

definition rule_based_score :: "CheatingSample \<Rightarrow> real \<times> factor list" where
  "rule_based_score s =
     (rule (potential_recording s) (3 / 10) PotentialPreRecordedAudio
     (rule (deception_indicators_count s > 2) (2 / 10) MultipleDeceptionIndicators
     (rule (stress_level s > 7 / 10) (2 / 10) HighStressLevels
     (rule (total_speakers s > 1) (3 / 10) (MultipleSpeakers (total_speakers s))
     (rule (external_discussion s) (3 / 10) ExternalDiscussionDetected
     (rule (answer_receiving_phrases s > 0) (5 / 10)
        (AnswerReceivingPhrases (answer_receiving_phrases s))
     (rule (help_seeking_phrases s > 0) (4 / 10)
        (HelpSeekingPhrases (help_seeking_phrases s))
     (0, []))))))))"

definition get_rule_based_prediction :: "string \<Rightarrow> CheatingSample \<Rightarrow> CheatingPrediction" where
  "get_rule_based_prediction now s =
     (let (raw, contributing_factors) = rule_based_score s;
          risk_score = min 1 raw;
          probability = risk_score;
          is_cheating = (probability > 5 / 10);
          confidence = max probability (1 - probability)
      in \<lparr> p_is_cheating = is_cheating,
           p_confidence = confidence * (8 / 10),
           p_probability = probability,
           p_risk_score = risk_score,
           p_contributing_factors = contributing_factors,
           p_risk_breakdown = get_risk_breakdown s,
           p_evidence_summary = get_evidence_summary s,
           p_model_used = RuleBasedFallback,
           p_prediction_timestamp = now \<rparr>)"

definition calculate_risk_score :: "CheatingSample \<Rightarrow> real \<Rightarrow> real" where
  "calculate_risk_score s probability =
     (let base_risk = probability;
          base_risk = (if help_seeking_phrases s > 0 \<or> answer_receiving_phrases s > 0
                       then min 1 (base_risk + 1 / 10) else base_risk);
          base_risk = (if total_speakers s > 2 then min 1 (base_risk + 1 / 10) else base_risk);
          base_risk = (if potential_recording s then min 1 (base_risk + 1 / 10) else base_risk)
      in base_risk)"

definition get_rule_based_factors :: "CheatingSample \<Rightarrow> factor list" where
  "get_rule_based_factors s =
     (if help_seeking_phrases s > 0 then [HelpSeekingPhrases (help_seeking_phrases s)] else []) @
     (if answer_receiving_phrases s > 0
      then [AnswerReceivingPhrases (answer_receiving_phrases s)] else []) @
     (if total_speakers s > 1 then [MultipleSpeakers (total_speakers s)] else []) @
     (if stress_level s > 6 / 10 then [HighStressLevel (stress_level s)] else []) @
     (if potential_recording s then [PotentialRecordingDetected] else [])"

definition suspicious_thresholds :: "(string \<times> real) list" where
  "suspicious_thresholds =
     [(''help_seeking_phrases'', 0), (''answer_receiving_phrases'', 0),
      (''total_speakers'', 1), (''stress_level'', 6 / 10), (''anxiety_level'', 6 / 10),
      (''deception_indicators_count'', 1), (''speaker_switches'', 5),
      (''overlapping_speech'', 2)]"

definition is_feature_suspicious :: "string \<Rightarrow> real \<Rightarrow> bool" where
  "is_feature_suspicious feature_name v =
     (case map_of suspicious_thresholds feature_name of
        Some threshold \<Rightarrow> v > threshold
      | None \<Rightarrow> False)"

text \<open>\<^verbatim>\<open>list.index\<close>: the first position of the element, \<^verbatim>\<open>ValueError\<close> when absent.\<close>

fun index_of :: "'a list \<Rightarrow> 'a \<Rightarrow> nat option" where
  "index_of [] x = None"
| "index_of (y # ys) x = (if y = x then Some 0 else map_option Suc (index_of ys x))"

fun important_factors ::
  "string list \<Rightarrow> real list \<Rightarrow> (string \<times> real) list \<Rightarrow> py_error + factor list" where
  "important_factors names features [] = Inr []"
| "important_factors names features ((feature_name, importance) # rest) =
     (if importance > 5 / 100 then
        (case index_of names feature_name of
           None \<Rightarrow> Inl ValueError
         | Some feature_idx \<Rightarrow>
             if feature_idx < length features then
               (case important_factors names features rest of
                  Inl e \<Rightarrow> Inl e
                | Inr fs \<Rightarrow>
                    Inr ((if is_feature_suspicious feature_name (features ! feature_idx)
                          then [FeatureFactor feature_name (features ! feature_idx)]
                          else []) @ fs))
             else Inl IndexError)
      else important_factors names features rest)"

definition get_contributing_factors ::
  "CheatingClassifier \<Rightarrow> CheatingSample \<Rightarrow> real list \<Rightarrow> py_error + factor list" where
  "get_contributing_factors c s features =
     (if feature_importance c = [] then Inr (get_rule_based_factors s)
      else
        (let important_features =
               take 10 (sort_key (\<lambda>x. - snd x) (feature_importance c))
         in case important_factors (feature_names c) features important_features of
              Inl e \<Rightarrow> Inl e
            | Inr factors \<Rightarrow> Inr (take 5 factors)))"

text \<open>
  The trained path of \<^verbatim>\<open>predict_cheating\<close>; any exception inside its
  \<^verbatim>\<open>try\<close> block is an \<open>Inl\<close> here.
\<close>

definition call_model :: "sk_model option \<Rightarrow> real list \<Rightarrow> py_error + real" where
  "call_model m row =
     (case m of
        None \<Rightarrow> Inl AttributeError
      | Some f \<Rightarrow> (case f row of None \<Rightarrow> Inl ValueError | Some p \<Rightarrow> Inr p))"

definition trained_prediction ::
  "CheatingClassifier \<Rightarrow> string \<Rightarrow> CheatingSample \<Rightarrow> bool \<Rightarrow> py_error + CheatingPrediction" where
  "trained_prediction c now s use_ensemble =
     (case feature_scaler c of
        None \<Rightarrow> Inl AttributeError
      | Some transform \<Rightarrow>
     (case transform (sample_to_features s) of
        None \<Rightarrow> Inl ValueError
      | Some features_scaled \<Rightarrow>
     (case call_model (rf_model c) features_scaled of Inl e \<Rightarrow> Inl e | Inr rf_prob \<Rightarrow>
     (case call_model (gb_model c) features_scaled of Inl e \<Rightarrow> Inl e | Inr gb_prob \<Rightarrow>
     (case call_model (lr_model c) features_scaled of Inl e \<Rightarrow> Inl e | Inr lr_prob \<Rightarrow>
     (let probability =
            (if use_ensemble
             then rf_prob * (4 / 10) + gb_prob * (4 / 10) + lr_prob * (2 / 10)
             else rf_prob);
          model_used = (if use_ensemble then Ensemble else RandomForest);
          is_cheating = (probability > 5 / 10);
          confidence = max probability (1 - probability);
          risk_score = calculate_risk_score s probability
      in case get_contributing_factors c s features_scaled of
           Inl e \<Rightarrow> Inl e
         | Inr contributing_factors \<Rightarrow>
             Inr \<lparr> p_is_cheating = is_cheating,
                   p_confidence = confidence,
                   p_probability = probability,
                   p_risk_score = risk_score,
                   p_contributing_factors = contributing_factors,
                   p_risk_breakdown = get_risk_breakdown s,
                   p_evidence_summary = get_evidence_summary s,
                   p_model_used = model_used,
                   p_prediction_timestamp = now \<rparr>))))))"

text \<open>
  \<^verbatim>\<open>predict_cheating\<close>. \<open>sklearn_available\<close> is the module flag
  \<^verbatim>\<open>SKLEARN_AVAILABLE\<close>. The trained path appends the prediction to the history;
  the rule-based path leaves the classifier as it is.
\<close>

definition predict_cheating ::
  "bool \<Rightarrow> CheatingClassifier \<Rightarrow> string \<Rightarrow> CheatingSample \<Rightarrow> bool
     \<Rightarrow> CheatingPrediction \<times> CheatingClassifier" where
  "predict_cheating sklearn_available c now s use_ensemble =
     (if \<not> is_trained c \<or> \<not> sklearn_available then (get_rule_based_prediction now s, c)
      else
        (case trained_prediction c now s use_ensemble of
           Inr prediction \<Rightarrow>
             (prediction, c\<lparr>prediction_history := prediction_history c @ [prediction]\<rparr>)
         | Inl e \<Rightarrow> (get_rule_based_prediction now s, c)))"



text \<open>
  \<^verbatim>\<open>save_model\<close> and \<^verbatim>\<open>load_model\<close>. The persisted blob is the dictionary
  written by \<^verbatim>\<open>save_model\<close>; \<^verbatim>\<open>joblib.load\<close> is external and is given by its
  result (\<open>Inl\<close> when it raises). \<^verbatim>\<open>load_model\<close> re-raises whatever the
  \<^verbatim>\<open>try\<close> block raised.
\<close>

record model_data =
  md_rf_model :: "sk_model option"
  md_gb_model :: "sk_model option"
  md_lr_model :: "sk_model option"
  md_feature_scaler :: "sk_scaler option"
  md_feature_names :: "string list"
  md_model_metrics :: "(string \<times> real) list"
  md_feature_importance :: "(string \<times> real) list"
  md_training_samples_count :: nat

definition save_model :: "CheatingClassifier \<Rightarrow> py_error + model_data" where
  "save_model c =
     (if \<not> is_trained c then Inl ValueError
      else Inr \<lparr> md_rf_model = rf_model c,
                 md_gb_model = gb_model c,
                 md_lr_model = lr_model c,
                 md_feature_scaler = feature_scaler c,
                 md_feature_names = feature_names c,
                 md_model_metrics = model_metrics c,
                 md_feature_importance = feature_importance c,
                 md_training_samples_count = length (training_samples c) \<rparr>)"

definition load_model ::
  "bool \<Rightarrow> CheatingClassifier \<Rightarrow> py_error + model_data \<Rightarrow> py_error + CheatingClassifier" where
  "load_model sklearn_available c loaded =
     (if \<not> sklearn_available then Inl ImportError
      else
        (case loaded of
           Inl e \<Rightarrow> Inl e
         | Inr md \<Rightarrow>
             Inr (c\<lparr> rf_model := md_rf_model md,
                     gb_model := md_gb_model md,
                     lr_model := md_lr_model md,
                     feature_scaler := md_feature_scaler md,
                     feature_names := md_feature_names md,
                     model_metrics := md_model_metrics md,
                     feature_importance := md_feature_importance md,
                     is_trained := True \<rparr>)))"

subsection \<open>numpy helpers\<close>

text \<open>
  \<^verbatim>\<open>np.mean\<close> and \<^verbatim>\<open>np.std\<close> (population standard deviation). On an empty
  array numpy returns NaN; callers in the model branch on emptiness before using them.
\<close>

definition np_mean :: "real list \<Rightarrow> real" where
  "np_mean xs = sum_list xs / real (length xs)"

definition np_std :: "real list \<Rightarrow> real" where
  "np_std xs = sqrt (np_mean (map (\<lambda>x. (x - np_mean xs)\<^sup>2) xs))"

definition np_sign :: "real \<Rightarrow> int" where
  "np_sign x = (if x < 0 then - 1 else if x = 0 then 0 else 1)"

text \<open>\<^verbatim>\<open>np.diff\<close>: differences of neighbours.\<close>

fun np_diff :: "int list \<Rightarrow> int list" where
  "np_diff (x # y # ys) = (y - x) # np_diff (y # ys)"
| "np_diff xs = []"

text \<open>The number of sign changes \<^verbatim>\<open>np.sum(np.diff(np.sign(a)) != 0)\<close>.\<close>

definition sign_changes :: "real list \<Rightarrow> nat" where
  "sign_changes a = length (filter (\<lambda>d. d \<noteq> 0) (np_diff (map np_sign a)))"

text \<open>\<^verbatim>\<open>np.sqrt(np.mean(a**2))\<close>; \<open>None\<close> is the NaN of an empty array.\<close>

definition rms_of :: "real list \<Rightarrow> real option" where
  "rms_of a = (if a = [] then None else Some (sqrt (np_mean (map (\<lambda>x. x\<^sup>2) a))))"

subsection \<open>real_time_processor.py: VoiceProcessor\<close>

type_synonym bytes = "nat list"

text \<open>
  \<^verbatim>\<open>np.frombuffer(data, dtype=np.int16)\<close>: little-endian signed 16-bit samples;
  \<^verbatim>\<open>ValueError\<close> when the buffer length is odd.
\<close>

definition int16_of :: "nat \<Rightarrow> nat \<Rightarrow> int" where
  "int16_of lo hi =
     (let v = int (lo mod 256) + 256 * int (hi mod 256)
      in if v \<ge> 32768 then v - 65536 else v)"

fun frombuffer_int16 :: "bytes \<Rightarrow> py_error + int list" where
  "frombuffer_int16 [] = Inr []"
| "frombuffer_int16 [b] = Inl ValueError"
| "frombuffer_int16 (lo # hi # rest) =
     (case frombuffer_int16 rest of
        Inl e \<Rightarrow> Inl e
      | Inr xs \<Rightarrow> Inr (int16_of lo hi # xs))"

definition normalize_int16 :: "int list \<Rightarrow> real list" where
  "normalize_int16 xs = map (\<lambda>x. real_of_int x / 32768) xs"

datatype indicator = low_energy_speech | high_distortion | vad_inconsistency

text \<open>
  The per-chunk analysis dictionary. \<open>None\<close> in \<open>rms_energy\<close> and
  \<open>zero_crossing_rate\<close> is the NaN numpy produces for an empty chunk; every
  comparison with it is false.
\<close>

record chunk_analysis =
  a_is_speech :: bool
  a_silero_probability :: real
  a_webrtc_detected :: bool
  a_rms_energy :: "real option"
  a_zero_crossing_rate :: "real option"
  a_audio_length_seconds :: real
  a_timestamp :: string

record suspicious_event =
  se_timestamp :: string
  se_indicators :: "indicator list"
  se_analysis :: chunk_analysis

text \<open>
  The VAD back ends are external: a loaded model is a function whose \<open>None\<close> result
  stands for a raised exception. Callbacks are not modelled (they only schedule tasks).
\<close>

record VoiceProcessor =
  vp_sample_rate :: nat
  vp_chunk_size :: nat
  vp_vad_threshold :: real
  vp_is_active :: bool
  vp_audio_buffer :: "bytes list"
  vp_silero_model :: "(real list \<Rightarrow> real option) option"
  vp_webrtc_vad :: "(bytes \<Rightarrow> bool option) option"
  vp_session_start_time :: "real option"
  vp_total_speech_time :: real
  vp_total_silence_time :: real
  vp_speech_events :: "chunk_analysis list"
  vp_suspicious_events :: "suspicious_event list"

text \<open>\<^verbatim>\<open>VoiceProcessor.__init__\<close> with its default arguments.\<close>

definition VoiceProcessor_init ::
  "(real list \<Rightarrow> real option) option \<Rightarrow> (bytes \<Rightarrow> bool option) option \<Rightarrow> VoiceProcessor" where
  "VoiceProcessor_init silero webrtc =
     \<lparr> vp_sample_rate = 16000, vp_chunk_size = 512, vp_vad_threshold = 5 / 10,
       vp_is_active = False, vp_audio_buffer = [],
       vp_silero_model = silero, vp_webrtc_vad = webrtc,
       vp_session_start_time = None,
       vp_total_speech_time = 0, vp_total_silence_time = 0,
       vp_speech_events = [], vp_suspicious_events = [] \<rparr>"

definition detect_voice_activity_silero :: "VoiceProcessor \<Rightarrow> real list \<Rightarrow> real" where
  "detect_voice_activity_silero vp audio_chunk =
     (case vp_silero_model vp of
        None \<Rightarrow> 0
      | Some m \<Rightarrow> (case m audio_chunk of None \<Rightarrow> 0 | Some voice_prob \<Rightarrow> voice_prob))"

definition detect_voice_activity_webrtc :: "VoiceProcessor \<Rightarrow> bytes \<Rightarrow> bool" where
  "detect_voice_activity_webrtc vp audio_chunk =
     (case vp_webrtc_vad vp of
        None \<Rightarrow> False
      | Some v \<Rightarrow> (case v audio_chunk of None \<Rightarrow> False | Some b \<Rightarrow> b))"

definition nan_less :: "real option \<Rightarrow> real \<Rightarrow> bool" where
  "nan_less x y = (case x of None \<Rightarrow> False | Some v \<Rightarrow> v < y)"

definition nan_greater :: "real option \<Rightarrow> real \<Rightarrow> bool" where
  "nan_greater x y = (case x of None \<Rightarrow> False | Some v \<Rightarrow> v > y)"

definition suspicious_indicators_of :: "chunk_analysis \<Rightarrow> indicator list" where
  "suspicious_indicators_of analysis =
     (if a_is_speech analysis \<and> nan_less (a_rms_energy analysis) (1 / 100)
      then [low_energy_speech] else []) @
     (if nan_greater (a_zero_crossing_rate analysis) (3 / 10) then [high_distortion] else []) @
     (if a_is_speech analysis \<noteq> a_webrtc_detected analysis then [vad_inconsistency] else [])"

definition detect_suspicious_patterns :: "VoiceProcessor \<Rightarrow> chunk_analysis \<Rightarrow> VoiceProcessor" where
  "detect_suspicious_patterns vp analysis =
     (let suspicious_indicators = suspicious_indicators_of analysis
      in if suspicious_indicators \<noteq> []
         then vp\<lparr> vp_suspicious_events := vp_suspicious_events vp @
                   [\<lparr> se_timestamp = a_timestamp analysis,
                      se_indicators = suspicious_indicators,
                      se_analysis = analysis \<rparr>] \<rparr>
         else vp)"

text \<open>
  \<^verbatim>\<open>analyze_audio_chunk\<close>. The zero-crossing rate divides a numpy integer by the
  chunk length, which gives NaN (not an exception) for an empty chunk; the chunk
  duration divides two Python integers.
\<close>

definition analyze_audio_chunk ::
  "VoiceProcessor \<Rightarrow> string \<Rightarrow> bytes \<Rightarrow> py_error + chunk_analysis \<times> VoiceProcessor" where
  "analyze_audio_chunk vp now audio_data =
     (case frombuffer_int16 audio_data of
        Inl e \<Rightarrow> Inl e
      | Inr samples \<Rightarrow>
          (let audio_np = normalize_int16 samples;
               silero_prob = detect_voice_activity_silero vp audio_np;
               webrtc_detected = detect_voice_activity_webrtc vp audio_data;
               rms = rms_of audio_np;
               zero_crossing_rate =
                 (if audio_np = [] then None
                  else Some (real (sign_changes audio_np) / real (length audio_np)));
               is_speech = (silero_prob > vp_vad_threshold vp)
           in if vp_sample_rate vp = 0 then Inl ZeroDivisionError
              else
                (let analysis =
                       \<lparr> a_is_speech = is_speech,
                         a_silero_probability = silero_prob,
                         a_webrtc_detected = webrtc_detected,
                         a_rms_energy = rms,
                         a_zero_crossing_rate = zero_crossing_rate,
                         a_audio_length_seconds =
                           real (length audio_np) / real (vp_sample_rate vp),
                         a_timestamp = now \<rparr>;
                     vp1 = (if is_speech
                            then vp\<lparr> vp_total_speech_time :=
                                       vp_total_speech_time vp + a_audio_length_seconds analysis \<rparr>
                            else vp\<lparr> vp_total_silence_time :=
                                       vp_total_silence_time vp + a_audio_length_seconds analysis \<rparr>)
                 in Inr (analysis, detect_suspicious_patterns vp1 analysis))))"







definition reset_session :: "VoiceProcessor \<Rightarrow> VoiceProcessor" where
  "reset_session vp =
     vp\<lparr> vp_audio_buffer := [], vp_speech_events := [], vp_suspicious_events := [],
         vp_total_speech_time := 0, vp_total_silence_time := 0,
         vp_session_start_time := None, vp_is_active := False \<rparr>"


subsection \<open>Binary64 floating-point arithmetic\<close>

text \<open>
  A Python float is an IEEE 754 binary64 number: a finite value (a real number; the
  two zeros are not distinguished), an infinity or NaN.
\<close>

datatype pyfloat = Fin real | PInf | NInf | NaN

text \<open>
  Rounding to nearest, ties to even. A positive real is brought to the form
  \<open>y * 2 ^ e\<close> with \<open>2 ^ 52 \<le> y < 2 ^ 53\<close>, or with \<open>e = - 1074\<close> and
  \<open>y < 2 ^ 52\<close> in the subnormal range; \<open>y\<close> is rounded to the nearest integer,
  to the even one when it lies half-way; a result of \<open>2 ^ 1024\<close> or more is an
  overflow and gives the infinity.
\<close>

definition pow2 :: "int \<Rightarrow> real" where
  "pow2 e = (if 0 \<le> e then 2 ^ nat e else 1 / 2 ^ nat (- e))"

definition round_half_even :: "real \<Rightarrow> int" where
  "round_half_even y =
     (let f = \<lfloor>y\<rfloor>; d = y - of_int f
      in if d < 1 / 2 then f else if 1 / 2 < d then f + 1 else if even f then f else f + 1)"

function scale_down :: "real \<Rightarrow> int \<Rightarrow> real \<times> int" where
  "scale_down x e = (if 2 ^ 53 \<le> x then scale_down (x / 2) (e + 1) else (x, e))"
  by pat_completeness auto
termination
proof (relation "measure (\<lambda>(x, e). nat \<lfloor>x\<rfloor>)")
  show "wf (measure (\<lambda>(x, e). nat \<lfloor>x\<rfloor>))" by simp
next
  fix x :: real and e :: int
  assume a: "2 ^ 53 \<le> x"
  have "\<lfloor>x / 2\<rfloor> < \<lfloor>x\<rfloor>"
  proof -
    have "x / 2 \<le> x - 1" using a by simp
    then have "\<lfloor>x / 2\<rfloor> \<le> \<lfloor>x - 1\<rfloor>" by (rule floor_mono)
    then show ?thesis by simp
  qed
  moreover have "0 < \<lfloor>x\<rfloor>" using a by simp
  ultimately show "((x / 2, e + 1), (x, e)) \<in> measure (\<lambda>(x, e). nat \<lfloor>x\<rfloor>)" by simp
qed

function scale_up :: "real \<Rightarrow> int \<Rightarrow> real \<times> int" where
  "scale_up x e = (if x < 2 ^ 52 \<and> - 1074 < e then scale_up (x * 2) (e - 1) else (x, e))"
  by pat_completeness auto
termination
  by (relation "measure (\<lambda>(x, e). nat (e + 1074))") auto

declare scale_down.simps [simp del] scale_up.simps [simp del]

definition round_pos :: "real \<Rightarrow> pyfloat" where
  "round_pos x =
     (let (y1, e1) = scale_down x 0;
          (y, e) = scale_up y1 e1;
          r = of_int (round_half_even y) * pow2 e
      in if 2 ^ 1024 \<le> r then PInf else Fin r)"

definition fneg :: "pyfloat \<Rightarrow> pyfloat" where
  "fneg a = (case a of Fin x \<Rightarrow> Fin (- x) | PInf \<Rightarrow> NInf | NInf \<Rightarrow> PInf | NaN \<Rightarrow> NaN)"

definition fl :: "real \<Rightarrow> pyfloat" where
  "fl x = (if x = 0 then Fin 0 else if 0 < x then round_pos x else fneg (round_pos (- x)))"

text \<open>
  Addition, multiplication, division and the comparison \<^verbatim>\<open>>\<close> of floats. Python
  raises \<^verbatim>\<open>ZeroDivisionError\<close> for a zero divisor; the only division modelled in
  binary64 is by a total that has compared greater than zero, and \<open>fdiv\<close> gives
  NaN for a zero divisor.
\<close>

fun fadd :: "pyfloat \<Rightarrow> pyfloat \<Rightarrow> pyfloat" where
  "fadd (Fin x) (Fin y) = fl (x + y)"
| "fadd NaN b = NaN"
| "fadd a NaN = NaN"
| "fadd PInf NInf = NaN"
| "fadd NInf PInf = NaN"
| "fadd PInf b = PInf"
| "fadd NInf b = NInf"
| "fadd a PInf = PInf"
| "fadd a NInf = NInf"

definition inf_signed :: "bool \<Rightarrow> pyfloat" where
  "inf_signed positive = (if positive then PInf else NInf)"

fun fmul :: "pyfloat \<Rightarrow> pyfloat \<Rightarrow> pyfloat" where
  "fmul (Fin x) (Fin y) = fl (x * y)"
| "fmul NaN b = NaN"
| "fmul a NaN = NaN"
| "fmul PInf (Fin y) = (if y = 0 then NaN else inf_signed (0 < y))"
| "fmul NInf (Fin y) = (if y = 0 then NaN else inf_signed (y < 0))"
| "fmul (Fin x) PInf = (if x = 0 then NaN else inf_signed (0 < x))"
| "fmul (Fin x) NInf = (if x = 0 then NaN else inf_signed (x < 0))"
| "fmul PInf PInf = PInf"
| "fmul PInf NInf = NInf"
| "fmul NInf PInf = NInf"
| "fmul NInf NInf = PInf"

fun fdiv :: "pyfloat \<Rightarrow> pyfloat \<Rightarrow> pyfloat" where
  "fdiv (Fin x) (Fin y) = (if y = 0 then NaN else fl (x / y))"
| "fdiv NaN b = NaN"
| "fdiv a NaN = NaN"
| "fdiv PInf (Fin y) = (if y = 0 then NaN else inf_signed (0 < y))"
| "fdiv NInf (Fin y) = (if y = 0 then NaN else inf_signed (y < 0))"
| "fdiv (Fin x) b = Fin 0"
| "fdiv a b = NaN"

fun fgt :: "pyfloat \<Rightarrow> pyfloat \<Rightarrow> bool" where
  "fgt (Fin x) (Fin y) = (y < x)"
| "fgt NaN b = False"
| "fgt a NaN = False"
| "fgt PInf PInf = False"
| "fgt PInf b = True"
| "fgt a NInf = (a \<noteq> NInf)"
| "fgt a b = False"

definition flt :: "pyfloat \<Rightarrow> pyfloat \<Rightarrow> bool" where
  "flt a b = fgt b a"

text \<open>
  The built-in \<^verbatim>\<open>sum\<close> of a list of floats, started from the integer 0, is a
  parameter of the model where it is used: its rounding depends on the Python version
  (since version 3.12 the additions carry a compensation term). \<open>sum_left\<close> adds from
  left to right and rounds every addition, as the versions before 3.12 do; every
  version agrees with it on a list of one float.
\<close>

definition sum_left :: "real list \<Rightarrow> pyfloat" where
  "sum_left xs = foldl (\<lambda>acc x. fadd acc (Fin x)) (Fin 0) xs"

subsection \<open>Speech segments\<close>

text \<open>
  Speech segments are dictionaries read with \<^verbatim>\<open>.get(key, 0)\<close>; a field is
  \<open>None\<close> when the key is absent. The values are finite floats.
\<close>

record speech_segment =
  start_time :: "real option"
  end_time :: "real option"
  duration :: "real option"

definition get0 :: "real option \<Rightarrow> real" where
  "get0 v = (case v of None \<Rightarrow> 0 | Some x \<Rightarrow> x)"

text \<open>The positive gaps between consecutive segments.\<close>

fun pause_durations_of :: "speech_segment list \<Rightarrow> real list" where
  "pause_durations_of (seg_prev # seg_curr # rest) =
     (let pause_duration = get0 (start_time seg_curr) - get0 (end_time seg_prev)
      in (if pause_duration > 0 then [pause_duration] else [])
         @ pause_durations_of (seg_curr # rest))"
| "pause_durations_of segs = []"

text \<open>
  \<open>1 - std / mean\<close> of the segment durations when the mean is positive, else 1,
  clamped to \<open>[0, 1]\<close>.
\<close>

definition duration_consistency :: "speech_segment list \<Rightarrow> real" where
  "duration_consistency segs =
     (let segment_durations = map (\<lambda>seg. get0 (duration seg)) segs;
          consistency =
            1 - (if segment_durations \<noteq> [] \<and> np_mean segment_durations > 0
                 then np_std segment_durations / np_mean segment_durations else 0)
      in max 0 (min 1 consistency))"

subsection \<open>Text and the regular expressions of the content analysis\<close>

text \<open>
  A Python \<^verbatim>\<open>str\<close> is a list of Unicode code points. The Unicode tables that
  Python consults are parameters of the model: \<open>u_lower\<close> is the full lower-case
  mapping of one code point, \<open>u_cased\<close> and \<open>u_case_ignorable\<close> are the
  properties Cased and Case_Ignorable, and \<open>u_alnum\<close> tells whether a code point is
  alphanumeric (\<^verbatim>\<open>\w\<close> is an alphanumeric code point or the underscore).
\<close>

type_synonym pystr = "nat list"

record unicode_db =
  u_lower :: "nat \<Rightarrow> nat list"
  u_cased :: "nat \<Rightarrow> bool"
  u_case_ignorable :: "nat \<Rightarrow> bool"
  u_alnum :: "nat \<Rightarrow> bool"

definition cps :: "string \<Rightarrow> pystr" where
  "cps s = map of_char s"

text \<open>
  \<^verbatim>\<open>str.lower\<close> maps code point by code point, except for the capital sigma
  (931): it becomes the final sigma (962) when the nearest code point before it that
  is not case-ignorable exists and is cased, and the nearest one after it that is not
  case-ignorable does not exist or is not cased; otherwise it becomes the small sigma
  (963). \<open>rev_before\<close> is the text before the position, nearest code point first.
\<close>

definition final_sigma :: "unicode_db \<Rightarrow> pystr \<Rightarrow> pystr \<Rightarrow> bool" where
  "final_sigma U rev_before after =
     ((case dropWhile (u_case_ignorable U) rev_before of [] \<Rightarrow> False | c # rest \<Rightarrow> u_cased U c)
      \<and> (case dropWhile (u_case_ignorable U) after of [] \<Rightarrow> True | c # rest \<Rightarrow> \<not> u_cased U c))"

fun lower_from :: "unicode_db \<Rightarrow> pystr \<Rightarrow> pystr \<Rightarrow> pystr" where
  "lower_from U rev_before [] = []"
| "lower_from U rev_before (c # u) =
     (if c = 931 then [if final_sigma U rev_before u then 962 else 963] else u_lower U c)
       @ lower_from U (c # rev_before) u"

definition py_lower :: "unicode_db \<Rightarrow> pystr \<Rightarrow> pystr" where
  "py_lower U t = lower_from U [] t"

text \<open>The code points that \<^verbatim>\<open>\s\<close> matches in a \<^verbatim>\<open>str\<close> pattern.\<close>

definition is_space :: "nat \<Rightarrow> bool" where
  "is_space c =
     ((9 \<le> c \<and> c \<le> 13) \<or> (28 \<le> c \<and> c \<le> 32) \<or> c = 133 \<or> c = 160 \<or> c = 5760
      \<or> (8192 \<le> c \<and> c \<le> 8202) \<or> c = 8232 \<or> c = 8233 \<or> c = 8239 \<or> c = 8287
      \<or> c = 12288)"

definition is_word :: "unicode_db \<Rightarrow> nat option \<Rightarrow> bool" where
  "is_word U c = (case c of None \<Rightarrow> False | Some x \<Rightarrow> u_alnum U x \<or> x = 95)"

text \<open>
  \<^verbatim>\<open>\b\<close> between the code point before the position (\<open>None\<close> at the start of
  the text) and the code point at the position (\<open>None\<close> at its end).
\<close>

definition word_boundary :: "unicode_db \<Rightarrow> nat option \<Rightarrow> nat option \<Rightarrow> bool" where
  "word_boundary U before here = (is_word U before \<noteq> is_word U here)"

text \<open>
  Every pattern of the analyzer has the form \<^verbatim>\<open>\b(...)\<close> where the group is an
  alternation of sequences of literal words, \<^verbatim>\<open>\s+\<close> and character classes. A
  sequence is a list of tokens and a pattern is the list of its alternatives in the
  order in which the regex engine tries them. \<^verbatim>\<open>\s+\<close> takes the whole run of
  white space: in every pattern it is followed by a token that starts with a
  non-space code point, so giving back white space never leads to a match.
\<close>

datatype tok = Lit pystr | Spaces | OneOf pystr

fun match_toks :: "tok list \<Rightarrow> pystr \<Rightarrow> nat option" where
  "match_toks [] u = Some 0"
| "match_toks (Lit w # ts) u =
     (if prefix w u
      then map_option (\<lambda>n. length w + n) (match_toks ts (drop (length w) u))
      else None)"
| "match_toks (Spaces # ts) u =
     (let k = length (takeWhile is_space u)
      in if k = 0 then None
         else map_option (\<lambda>n. k + n) (match_toks ts (drop k u)))"
| "match_toks (OneOf cs # ts) u =
     (case u of
        [] \<Rightarrow> None
      | c # u' \<Rightarrow> if c \<in> set cs then map_option Suc (match_toks ts u') else None)"

text \<open>The length of the match of the first alternative that matches at the start of \<open>u\<close>.\<close>

fun first_match :: "tok list list \<Rightarrow> pystr \<Rightarrow> nat option" where
  "first_match [] u = None"
| "first_match (a # alts) u =
     (case match_toks a u of Some n \<Rightarrow> Some n | None \<Rightarrow> first_match alts u)"

text \<open>
  \<^verbatim>\<open>re.finditer\<close>: the non-overlapping matches from left to right, each with its
  start position and its text. \<open>pos\<close> is the position of the head of the remaining
  text and \<open>before\<close> the code point in front of it. No pattern of the analyzer
  matches the empty string.
\<close>

function finditer ::
  "unicode_db \<Rightarrow> tok list list \<Rightarrow> nat \<Rightarrow> nat option \<Rightarrow> pystr \<Rightarrow> (nat \<times> pystr) list" where
  "finditer U alts pos before [] = []"
| "finditer U alts pos before (c # u) =
     (case (if word_boundary U before (Some c) then first_match alts (c # u) else None) of
        Some (Suc n) \<Rightarrow>
          (pos, take (Suc n) (c # u))
            # finditer U alts (pos + Suc n) (Some ((c # u) ! n)) (drop n u)
      | _ \<Rightarrow> finditer U alts (Suc pos) (Some c) u)"
  by pat_completeness auto
termination
  by (relation "measure (\<lambda>(U, alts, pos, before, u). length u)") auto

text \<open>\<^verbatim>\<open>re.search\<close> with a pattern \<^verbatim>\<open>\?.*\b(...)\<close>; the dot does not match a line feed.\<close>

fun search_after :: "unicode_db \<Rightarrow> tok list list \<Rightarrow> nat option \<Rightarrow> pystr \<Rightarrow> bool" where
  "search_after U alts before [] = False"
| "search_after U alts before (c # u) =
     ((word_boundary U before (Some c) \<and> first_match alts (c # u) \<noteq> None)
      \<or> (c \<noteq> 10 \<and> search_after U alts (Some c) u))"

fun search_question :: "unicode_db \<Rightarrow> tok list list \<Rightarrow> pystr \<Rightarrow> bool" where
  "search_question U alts [] = False"
| "search_question U alts (c # u) =
     ((c = 63 \<and> search_after U alts (Some c) u) \<or> search_question U alts u)"

text \<open>\<^verbatim>\<open>p in t\<close> for strings.\<close>

fun contains :: "pystr \<Rightarrow> pystr \<Rightarrow> bool" where
  "contains [] p = (p = [])"
| "contains (c # u) p = (prefix p (c # u) \<or> contains u p)"

text \<open>
  The start positions of the non-overlapping occurrences of a non-empty literal
  (\<^verbatim>\<open>re.finditer(re.escape(p), t)\<close>).
\<close>

function find_literal :: "pystr \<Rightarrow> nat \<Rightarrow> pystr \<Rightarrow> nat list" where
  "find_literal p pos [] = []"
| "find_literal p pos (c # u) =
     (if p \<noteq> [] \<and> prefix p (c # u)
      then pos # find_literal p (pos + length p) (drop (length p - 1) u)
      else find_literal p (Suc pos) u)"
  by pat_completeness auto
termination
  by (relation "measure (\<lambda>(p, pos, u). length u)") auto

text \<open>An alternation of words, \<^verbatim>\<open>\s+\<close>, and a second alternation of words.\<close>

definition two_groups :: "string list \<Rightarrow> string list \<Rightarrow> tok list list" where
  "two_groups g1 g2 =
     concat (map (\<lambda>a. map (\<lambda>b. [Lit (cps a), Spaces, Lit (cps b)]) g2) g1)"

definition words :: "pystr list \<Rightarrow> tok list" where
  "words ws = (case ws of [] \<Rightarrow> [] | w # rest \<Rightarrow> Lit w # concat (map (\<lambda>x. [Spaces, Lit x]) rest))"

subsection \<open>A static check on patterns\<close>

text \<open>
  The conditions under which the matches of a pattern in a text are kept when text is
  appended. A sequence is well formed when it alternates non-empty words or character
  classes, free of white space, with \<^verbatim>\<open>\s+\<close>. The residuals of a sequence are what
  remains to be matched from each position inside a match that is not white space;
  \<open>may_nest b r\<close> holds when a match of \<open>b\<close> can lie inside a match of \<open>r\<close>
  that starts at the same position.
\<close>

definition wf_word :: "pystr \<Rightarrow> bool" where
  "wf_word w = (w \<noteq> [] \<and> list_all (\<lambda>c. \<not> is_space c) w)"

fun wf_toks :: "tok list \<Rightarrow> bool" where
  "wf_toks [Lit w] = wf_word w"
| "wf_toks [OneOf cs] = list_all (\<lambda>c. \<not> is_space c) cs"
| "wf_toks (Lit w # Spaces # ts) = (wf_word w \<and> wf_toks ts)"
| "wf_toks (OneOf cs # Spaces # ts) = (list_all (\<lambda>c. \<not> is_space c) cs \<and> wf_toks ts)"
| "wf_toks ts = False"

fun starts_with_lit :: "tok list \<Rightarrow> bool" where
  "starts_with_lit (Lit w # ts) = True"
| "starts_with_lit ts = False"

fun residuals :: "tok list \<Rightarrow> tok list list" where
  "residuals [] = []"
| "residuals (Lit w # ts) = map (\<lambda>k. Lit (drop k w) # ts) [0 ..< length w] @ residuals ts"
| "residuals (Spaces # ts) = residuals ts"
| "residuals (OneOf cs # ts) = (OneOf cs # ts) # residuals ts"

definition inner_residuals :: "tok list \<Rightarrow> tok list list" where
  "inner_residuals a = tl (residuals a)"

fun may_nest :: "tok list \<Rightarrow> tok list \<Rightarrow> bool" where
  "may_nest [] r = True"
| "may_nest (OneOf ds # b) r = True"
| "may_nest (Spaces # b) r = True"
| "may_nest (Lit x # b) [] = False"
| "may_nest (Lit x # b) (Spaces # r) = False"
| "may_nest (Lit x # b) (OneOf cs # r) = (length x = 1)"
| "may_nest [Lit x] (Lit w # r) = prefix x w"
| "may_nest (Lit x # Spaces # b) (Lit w # Spaces # r) = (x = w \<and> may_nest b r)"
| "may_nest (Lit x # Spaces # b) (Lit w # r) = False"
| "may_nest (Lit x # b) (Lit w # r) = True"

fun ordered_ok :: "tok list list \<Rightarrow> bool" where
  "ordered_ok [] = True"
| "ordered_ok (a # alts) = (list_all (\<lambda>b. \<not> may_nest b a) alts \<and> ordered_ok alts)"

definition good_pattern :: "tok list list \<Rightarrow> bool" where
  "good_pattern alts =
     (list_all (\<lambda>a. wf_toks a \<and> starts_with_lit a) alts
      \<and> list_all (\<lambda>a. list_all (\<lambda>b. list_all (\<lambda>r. \<not> may_nest b r) (inner_residuals a)) alts)
           alts
      \<and> ordered_ok alts)"


text \<open>
  Text in which some final sigmas have become small sigmas, and the patterns that
  mention neither.
\<close>

definition sig_le :: "nat \<Rightarrow> nat \<Rightarrow> bool" where
  "sig_le c c' = (c = c' \<or> (c = 962 \<and> c' = 963))"

definition sigma_free :: "pystr \<Rightarrow> bool" where
  "sigma_free w = list_all (\<lambda>c. c \<noteq> 962 \<and> c \<noteq> 963) w"

fun sigma_free_tok :: "tok \<Rightarrow> bool" where
  "sigma_free_tok (Lit w) = sigma_free w"
| "sigma_free_tok Spaces = True"
| "sigma_free_tok (OneOf cs) = sigma_free cs"

definition sigma_free_pattern :: "tok list list \<Rightarrow> bool" where
  "sigma_free_pattern alts = list_all (list_all sigma_free_tok) alts"

subsection \<open>behavioral_analyzer.py: BehavioralAnalyzer\<close>

record BehavioralMetrics =
  bm_speech_rate :: pyfloat
  bm_pause_frequency :: real
  bm_average_pause_duration :: real
  bm_speech_consistency :: real
  bm_question_reading_detected :: bool
  bm_help_seeking_phrases :: int
  bm_answer_receiving_phrases :: int
  bm_external_discussion :: bool
  bm_background_noise_level :: "real option"
  bm_audio_quality_score :: real
  bm_potential_recording :: bool
  bm_unusual_silence_periods :: int
  bm_rapid_speech_bursts :: int
  bm_inconsistent_volume :: bool
  bm_overall_confidence :: real
  bm_analysis_timestamp :: string

definition apostrophe :: pystr where
  "apostrophe = [39]"

text \<open>\<^verbatim>\<open>_load_suspicious_phrases\<close>: English, Hindi, Bengali, Telugu and Tamil phrases.\<close>

definition suspicious_phrases :: "pystr list" where
  "suspicious_phrases =
     [cps ''what is the answer'',
      cps ''help me with'',
      cps ''tell me'',
      cps ''can you help'',
      cps ''what should i write'',
      cps ''give me the answer'',
      cps ''how do i solve'',
      cps ''what'' @ apostrophe @ cps ''s the solution'',
      cps ''i don'' @ apostrophe @ cps ''t know this'',
      cps ''can you do this'',
      cps ''google it'',
      cps ''search for'',
      cps ''look it up'',
      cps ''check online'',
      cps ''ask someone'',
      cps ''call someone'',
      cps ''text someone'',
      [2332, 2357, 2366, 2348, 32, 2325, 2381, 2351, 2366, 32, 2361, 2376],
      [2350, 2342, 2342, 32, 2325, 2352, 2379],
      [2348, 2340, 2366, 2323],
      [2361, 2354, 32, 2325, 2381, 2351, 2366, 32, 2361, 2376],
      [2313, 2340, 2381, 2340, 2352, 32, 2342, 2379],
      [2351, 2361, 32, 2325, 2376, 2360, 2375, 32, 2325, 2352, 2340, 2375, 32, 2361, 2376, 2306],
      [2327, 2370, 2327, 2354, 32, 2325, 2352, 2379],
      [2441, 2468, 2509, 2468, 2480, 32, 2453, 2495],
      [2488, 2494, 2489, 2494, 2479, 2509, 2479, 32, 2453, 2480, 2507],
      [2476, 2482, 2507],
      [2488, 2478, 2494, 2471, 2494, 2472, 32, 2453, 2495],
      [3100, 3125, 3134, 3116, 3137, 32, 3087, 3118, 3135, 3103, 3135],
      [3128, 3129, 3134, 3119, 3074, 32, 3098, 3143, 3119, 3135],
      [3098, 3142, 3114, 3149, 3114, 3137],
      [3114, 3120, 3135, 3127, 3149, 3093, 3134, 3120, 3074, 32, 3087, 3118, 3135, 3103, 3135],
      [2986, 2980, 3007, 2994, 3021, 32, 2958, 2985, 3021, 2985],
      [2953, 2980, 2997, 3007, 32, 2970, 3014, 2991, 3021],
      [2970, 3018, 2994, 3021, 2994, 3009],
      [2980, 3008, 2992, 3021, 2997, 3009, 32, 2958, 2985, 3021, 2985]]"

text \<open>
  \<^verbatim>\<open>_load_help_seeking_patterns\<close>, in source order:
  \<^verbatim>\<open>\b(what|how|where|when|why)\s+(is|are|do|does|should|would|can|could)\<close>,
  \<^verbatim>\<open>\b(help|assist|guide|show)\s+(me|us)\<close>,
  \<^verbatim>\<open>\b(i\s+don't\s+know|i\s+need\s+help|i'm\s+stuck)\<close>,
  \<^verbatim>\<open>\b(can\s+you|could\s+you|will\s+you|would\s+you)\<close>,
  \<^verbatim>\<open>\b(tell\s+me|show\s+me|give\s+me)\<close>.
\<close>

definition help_seeking_patterns :: "tok list list list" where
  "help_seeking_patterns =
     [two_groups [''what'', ''how'', ''where'', ''when'', ''why'']
        [''is'', ''are'', ''do'', ''does'', ''should'', ''would'', ''can'', ''could''],
      two_groups [''help'', ''assist'', ''guide'', ''show''] [''me'', ''us''],
      [words [cps ''i'', cps ''don'' @ apostrophe @ cps ''t'', cps ''know''],
       words [cps ''i'', cps ''need'', cps ''help''],
       words [cps ''i'' @ apostrophe @ cps ''m'', cps ''stuck'']],
      [words [cps ''can'', cps ''you''], words [cps ''could'', cps ''you''],
       words [cps ''will'', cps ''you''], words [cps ''would'', cps ''you'']],
      [words [cps ''tell'', cps ''me''], words [cps ''show'', cps ''me''],
       words [cps ''give'', cps ''me'']]]"

text \<open>
  \<^verbatim>\<open>_load_answer_patterns\<close>, in source order:
  \<^verbatim>\<open>\b(the\s+answer\s+is|it\s+is|it's)\<close>,
  \<^verbatim>\<open>\b(you\s+should|try\s+this|write\s+this)\<close>,
  \<^verbatim>\<open>\b(option\s+[abcd]|choice\s+[1234])\<close>,
  \<^verbatim>\<open>\b(correct\s+answer|right\s+answer)\<close>,
  \<^verbatim>\<open>\b(just\s+write|simply\s+put|the\s+solution)\<close>.
\<close>

definition answer_patterns :: "tok list list list" where
  "answer_patterns =
     [[words [cps ''the'', cps ''answer'', cps ''is''], words [cps ''it'', cps ''is''],
       words [cps ''it'' @ apostrophe @ cps ''s'']],
      [words [cps ''you'', cps ''should''], words [cps ''try'', cps ''this''],
       words [cps ''write'', cps ''this'']],
      [[Lit (cps ''option''), Spaces, OneOf (cps ''abcd'')],
       [Lit (cps ''choice''), Spaces, OneOf (cps ''1234'')]],
      [words [cps ''correct'', cps ''answer''], words [cps ''right'', cps ''answer'']],
      [words [cps ''just'', cps ''write''], words [cps ''simply'', cps ''put''],
       words [cps ''the'', cps ''solution'']]]"

text \<open>The interrogatives of \<^verbatim>\<open>\?.*\b(is|are|what|how|where|when|why)\<close>.\<close>

definition question_words :: "tok list list" where
  "question_words =
     map (\<lambda>w. [Lit (cps w)]) [''is'', ''are'', ''what'', ''how'', ''where'', ''when'', ''why'']"

definition external_indicators :: "pystr list" where
  "external_indicators =
     map cps [''he said'', ''she said'', ''they said'', ''someone said'', ''person said'',
              ''friend said'', ''teacher said'']"

datatype detail_type = help_seeking | help_pattern | answer_receiving

record phrase_detail =
  pd_phrase :: pystr
  pd_type :: detail_type
  pd_positions :: "nat list"

record content_analysis =
  ca_question_reading_detected :: bool
  ca_help_seeking_phrases :: int
  ca_answer_receiving_phrases :: int
  ca_external_discussion :: bool
  ca_suspicious_phrase_details :: "phrase_detail list"

text \<open>The entries appended for the phrases of the list that occur in the text.\<close>

definition phrase_details :: "unicode_db \<Rightarrow> pystr \<Rightarrow> phrase_detail list" where
  "phrase_details U transcription_lower =
     map (\<lambda>phrase. \<lparr> pd_phrase = phrase, pd_type = help_seeking,
                      pd_positions = find_literal (py_lower U phrase) 0 transcription_lower \<rparr>)
       (filter (\<lambda>phrase. contains transcription_lower (py_lower U phrase)) suspicious_phrases)"

text \<open>The entries appended for the matches of a list of patterns, pattern by pattern.\<close>

definition pattern_details ::
  "unicode_db \<Rightarrow> detail_type \<Rightarrow> tok list list list \<Rightarrow> pystr \<Rightarrow> phrase_detail list" where
  "pattern_details U ty patterns transcription_lower =
     concat (map (\<lambda>pattern.
                    map (\<lambda>m. \<lparr> pd_phrase = snd m, pd_type = ty, pd_positions = [fst m] \<rparr>)
                      (finditer U pattern 0 None transcription_lower))
               patterns)"

definition analyze_content :: "unicode_db \<Rightarrow> pystr \<Rightarrow> content_analysis" where
  "analyze_content U transcription =
     (if transcription = [] then
        \<lparr> ca_question_reading_detected = False, ca_help_seeking_phrases = 0,
          ca_answer_receiving_phrases = 0, ca_external_discussion = False,
          ca_suspicious_phrase_details = [] \<rparr>
      else
        (let transcription_lower = py_lower U transcription;
             phrase_hits = phrase_details U transcription_lower;
             help_seeking_count = int (length phrase_hits);
             help_hits = pattern_details U help_pattern help_seeking_patterns transcription_lower;
             help_pattern_count = int (length help_hits);
             answer_hits =
               pattern_details U answer_receiving answer_patterns transcription_lower;
             answer_receiving_count = int (length answer_hits);
             question_reading_v = search_question U question_words transcription;
             external_discussion_v =
               list_ex (\<lambda>indicator. contains transcription_lower indicator) external_indicators
         in \<lparr> ca_question_reading_detected = question_reading_v,
              ca_help_seeking_phrases = help_seeking_count + help_pattern_count,
              ca_answer_receiving_phrases = answer_receiving_count,
              ca_external_discussion = external_discussion_v,
              ca_suspicious_phrase_details = phrase_hits @ help_hits @ answer_hits \<rparr>))"

record speech_patterns =
  spt_speech_rate :: pyfloat
  spt_pause_frequency :: real
  spt_average_pause_duration :: real
  spt_speech_consistency :: real

text \<open>
  \<^verbatim>\<open>analyze_speech_patterns\<close>. The summed duration and the speech rate are
  binary64 values: \<^verbatim>\<open>total_speech_time * 2.5\<close>, the quotient by the total and the
  product with 60 are each rounded. \<open>py_sum\<close> is the built-in \<^verbatim>\<open>sum\<close>. The
  other results are modelled over the reals; the pause frequency is the quotient of
  the number of pauses by the total, which is zero for an infinite total.
\<close>

definition summed_durations :: "(real list \<Rightarrow> pyfloat) \<Rightarrow> speech_segment list \<Rightarrow> pyfloat" where
  "summed_durations py_sum segs = py_sum (map (\<lambda>seg. get0 (duration seg)) segs)"

definition analyze_speech_patterns ::
  "(real list \<Rightarrow> pyfloat) \<Rightarrow> speech_segment list \<Rightarrow> speech_patterns" where
  "analyze_speech_patterns py_sum segs =
     (if segs = [] then
        \<lparr> spt_speech_rate = Fin 0, spt_pause_frequency = 0, spt_average_pause_duration = 0,
          spt_speech_consistency = 0 \<rparr>
      else
        (let total_speech_time_v = summed_durations py_sum segs;
             estimated_words = fmul total_speech_time_v (Fin (25 / 10));
             speech_rate_v =
               (if fgt total_speech_time_v (Fin 0)
                then fmul (fdiv estimated_words total_speech_time_v) (Fin 60) else Fin 0);
             pause_durations = pause_durations_of segs;
             pause_frequency_v =
               (if fgt total_speech_time_v (Fin 0)
                then (case total_speech_time_v of
                        Fin x \<Rightarrow> real (length pause_durations) / x
                      | _ \<Rightarrow> 0)
                else 0);
             avg_pause_duration = (if pause_durations \<noteq> [] then np_mean pause_durations else 0)
         in \<lparr> spt_speech_rate = speech_rate_v,
              spt_pause_frequency = pause_frequency_v,
              spt_average_pause_duration = avg_pause_duration,
              spt_speech_consistency = duration_consistency segs \<rparr>))"

record audio_quality =
  aq_background_noise_level :: "real option"
  aq_audio_quality_score :: real
  aq_potential_recording :: bool
  aq_snr :: "real option"

text \<open>
  \<^verbatim>\<open>analyze_audio_quality\<close>. The spectral back end (librosa) is external: it is
  \<open>None\<close> when the import failed, and a call gives the mean spectral centroid and
  roll-off or \<open>None\<close> for a raised exception. For fewer than ten samples the noise
  estimate is the mean of an empty slice, NaN, which makes the comparison
  \<^verbatim>\<open>noise_level > 0\<close> false; \<open>None\<close> stands for that NaN and for the absent
  \<^verbatim>\<open>snr\<close> key of the empty-buffer result.
\<close>

definition analyze_audio_quality ::
  "(real list \<Rightarrow> (real \<times> real) option) option \<Rightarrow> real list \<Rightarrow> audio_quality" where
  "analyze_audio_quality librosa audio_data =
     (if length audio_data = 0 then
        \<lparr> aq_background_noise_level = Some 0, aq_audio_quality_score = 1,
          aq_potential_recording = False, aq_snr = None \<rparr>
      else
        (let sorted_audio = sort (map abs audio_data);
             quietest = take (length sorted_audio div 10) sorted_audio;
             noise_level = (if quietest = [] then None else Some (np_mean quietest));
             signal_level = np_mean (map abs audio_data);
             snr = (case noise_level of
                      None \<Rightarrow> None
                    | Some nl \<Rightarrow> if nl > 0 then Some (signal_level / nl) else None);
             quality_score = (case snr of None \<Rightarrow> 1 | Some r \<Rightarrow> min 1 (r / 10));
             potential_recording_v =
               (case librosa of
                  None \<Rightarrow> False
                | Some spectral \<Rightarrow>
                    (case spectral audio_data of
                       None \<Rightarrow> False
                     | Some (avg_centroid, avg_rolloff) \<Rightarrow>
                         avg_centroid < 1000 \<or> avg_rolloff < 4000))
         in \<lparr> aq_background_noise_level = noise_level,
              aq_audio_quality_score = quality_score,
              aq_potential_recording = potential_recording_v,
              aq_snr = (case snr of None \<Rightarrow> Some 100 | Some r \<Rightarrow> Some r) \<rparr>))"

record temporal_patterns =
  tp_unusual_silence_periods :: int
  tp_rapid_speech_bursts :: int
  tp_inconsistent_volume :: bool

text \<open>The silence loop: the pair is (unusual silences, current run of non-speech chunks).\<close>

definition silence_step :: "int \<times> nat \<Rightarrow> bool \<Rightarrow> int \<times> nat" where
  "silence_step acc speech =
     (if \<not> speech then (fst acc, Suc (snd acc))
      else ((if snd acc > 30 then fst acc + 1 else fst acc), 0))"

definition count_true :: "bool list \<Rightarrow> nat" where
  "count_true bs = length (filter (\<lambda>b. b) bs)"

definition rapid_bursts_of :: "bool list \<Rightarrow> int" where
  "rapid_bursts_of speech_indicators =
     int (length (filter (\<lambda>i. count_true (take 10 (drop i speech_indicators)) > 8)
                    [0 ..< length speech_indicators - 10]))"

definition analyze_temporal_patterns :: "chunk_analysis list \<Rightarrow> temporal_patterns" where
  "analyze_temporal_patterns voice_events =
     (if voice_events = [] then
        \<lparr> tp_unusual_silence_periods = 0, tp_rapid_speech_bursts = 0,
          tp_inconsistent_volume = False \<rparr>
      else
        (let speech_indicators = map a_is_speech voice_events;
             volumes = map a_rms_energy voice_events;
             unusual_silences = fst (foldl silence_step (0, 0) speech_indicators);
             rapid_bursts = rapid_bursts_of speech_indicators;
             inconsistent_volume_v =
               (if length volumes > 10 \<and> list_all (\<lambda>v. v \<noteq> None) volumes then
                  (let vs = map the volumes;
                       volume_std = np_std vs;
                       volume_mean = np_mean vs;
                       cv = (if volume_mean > 0 then volume_std / volume_mean else 0)
                   in cv > 5 / 10)
                else False)
         in \<lparr> tp_unusual_silence_periods = unusual_silences,
              tp_rapid_speech_bursts = rapid_bursts,
              tp_inconsistent_volume = inconsistent_volume_v \<rparr>))"

datatype risk_factor =
    HelpSeekingDetected int
  | AnswerReceivingDetected int
  | ExternalDiscussion
  | QuestionReadingToOthers
  | PotentialPreRecorded
  | PoorAudioQuality
  | UnusualSilencePatterns
  | RapidSpeechBurstPatterns
  | InconsistentVolume
  | UnusualSpeechRate pyfloat
  | InconsistentSpeechPatterns

definition behavioral_score :: "BehavioralMetrics \<Rightarrow> real \<times> risk_factor list" where
  "behavioral_score metrics =
     (rule (bm_speech_consistency metrics < 3 / 10) (1 / 10) InconsistentSpeechPatterns
     (rule (fgt (bm_speech_rate metrics) (Fin 200) \<or> flt (bm_speech_rate metrics) (Fin 50))
        (1 / 10)
        (UnusualSpeechRate (bm_speech_rate metrics))
     (rule (bm_inconsistent_volume metrics) (2 / 10) InconsistentVolume
     (rule (bm_rapid_speech_bursts metrics > 3) (15 / 100) RapidSpeechBurstPatterns
     (rule (bm_unusual_silence_periods metrics > 2) (2 / 10) UnusualSilencePatterns
     (rule (bm_audio_quality_score metrics < 3 / 10) (15 / 100) PoorAudioQuality
     (rule (bm_potential_recording metrics) (15 / 100) PotentialPreRecorded
     (rule (bm_question_reading_detected metrics) (2 / 10) QuestionReadingToOthers
     (rule (bm_external_discussion metrics) (3 / 10) ExternalDiscussion
     (rule (bm_answer_receiving_phrases metrics > 0) (4 / 10)
        (AnswerReceivingDetected (bm_answer_receiving_phrases metrics))
     (rule (bm_help_seeking_phrases metrics > 0) (3 / 10)
        (HelpSeekingDetected (bm_help_seeking_phrases metrics))
     (0, []))))))))))))"

definition calculate_overall_risk_score :: "BehavioralMetrics \<Rightarrow> real \<times> risk_factor list" where
  "calculate_overall_risk_score metrics =
     (min 1 (fst (behavioral_score metrics)), snd (behavioral_score metrics))"

record analysis_result =
  ar_metrics :: BehavioralMetrics
  ar_risk_score :: real
  ar_risk_factors :: "risk_factor list"
  ar_content_details :: "phrase_detail list"

record BehavioralAnalyzer =
  ba_analysis_history :: "analysis_result list"

text \<open>\<^verbatim>\<open>deque(maxlen=1000).append\<close>: the oldest entry is dropped when the deque is full.\<close>

definition deque_append :: "nat \<Rightarrow> 'a list \<Rightarrow> 'a \<Rightarrow> 'a list" where
  "deque_append maxlen xs x =
     (if maxlen = 0 then []
      else if length xs \<ge> maxlen then drop (Suc (length xs) - maxlen) xs @ [x]
      else xs @ [x])"

text \<open>
  \<^verbatim>\<open>analyze_behavior\<close>. The Unicode tables \<open>U\<close>, the spectral back end
  \<open>librosa\<close>, the built-in \<^verbatim>\<open>sum\<close> and the time stamp \<open>now\<close> are
  parameters.
\<close>

definition analyze_behavior ::
  "BehavioralAnalyzer \<Rightarrow> unicode_db \<Rightarrow> (real list \<Rightarrow> (real \<times> real) option) option
     \<Rightarrow> (real list \<Rightarrow> pyfloat) \<Rightarrow> string
     \<Rightarrow> real list \<Rightarrow> pystr \<Rightarrow> speech_segment list \<Rightarrow> chunk_analysis list
     \<Rightarrow> BehavioralMetrics \<times> BehavioralAnalyzer" where
  "analyze_behavior ba U librosa py_sum now audio_data transcription segs voice_events =
     (let speech_patterns_v = analyze_speech_patterns py_sum segs;
          content_analysis_v = analyze_content U transcription;
          audio_quality_v = analyze_audio_quality librosa audio_data;
          temporal_patterns_v = analyze_temporal_patterns voice_events;
          metrics0 =
            \<lparr> bm_speech_rate = spt_speech_rate speech_patterns_v,
              bm_pause_frequency = spt_pause_frequency speech_patterns_v,
              bm_average_pause_duration = spt_average_pause_duration speech_patterns_v,
              bm_speech_consistency = spt_speech_consistency speech_patterns_v,
              bm_question_reading_detected = ca_question_reading_detected content_analysis_v,
              bm_help_seeking_phrases = ca_help_seeking_phrases content_analysis_v,
              bm_answer_receiving_phrases = ca_answer_receiving_phrases content_analysis_v,
              bm_external_discussion = ca_external_discussion content_analysis_v,
              bm_background_noise_level = aq_background_noise_level audio_quality_v,
              bm_audio_quality_score = aq_audio_quality_score audio_quality_v,
              bm_potential_recording = aq_potential_recording audio_quality_v,
              bm_unusual_silence_periods = tp_unusual_silence_periods temporal_patterns_v,
              bm_rapid_speech_bursts = tp_rapid_speech_bursts temporal_patterns_v,
              bm_inconsistent_volume = tp_inconsistent_volume temporal_patterns_v,
              bm_overall_confidence = 0,
              bm_analysis_timestamp = now \<rparr>;
          risk = calculate_overall_risk_score metrics0;
          metrics = metrics0\<lparr> bm_overall_confidence := 1 - fst risk \<rparr>;
          analysis_result_v =
            \<lparr> ar_metrics = metrics, ar_risk_score = fst risk, ar_risk_factors = snd risk,
              ar_content_details = ca_suspicious_phrase_details content_analysis_v \<rparr>
      in (metrics,
          ba\<lparr> ba_analysis_history :=
                deque_append 1000 (ba_analysis_history ba) analysis_result_v \<rparr>))"

text \<open>The risk score and factors that \<^verbatim>\<open>analyze_behavior\<close> stores for its latest analysis.\<close>

definition latest_risk :: "BehavioralAnalyzer \<Rightarrow> (real \<times> risk_factor list) option" where
  "latest_risk ba =
     (if ba_analysis_history ba = [] then None
      else Some (ar_risk_score (last (ba_analysis_history ba)),
                 ar_risk_factors (last (ba_analysis_history ba))))"

subsection \<open>speaker_detector.py: SpeakerDetector\<close>

text \<open>
  A pyannote annotation is represented by its tracks in \<^verbatim>\<open>itertracks\<close> order. The
  diarization pipeline is external; \<open>None\<close> as its result stands for a raised
  exception (which \<^verbatim>\<open>perform_speaker_diarization\<close> turns into \<^verbatim>\<open>None\<close>).
  The per-segment \<^verbatim>\<open>audio_features\<close> dictionary is not modelled.
\<close>

record track =
  tr_start :: real
  tr_end :: real
  tr_speaker :: string

type_synonym diarization = "track list"

record SpeakerSegment =
  seg_speaker_id :: string
  seg_start_time :: real
  seg_end_time :: real
  seg_duration :: real
  seg_confidence :: real

datatype speaker_pattern =
    MultipleSpeakersDetected int
  | FrequentSpeakerSwitches int
  | NoDominantSpeaker
  | OverlappingSpeechDetected real
  | RapidAlternatingSpeakers
  | FallbackLimitedAccuracy

text \<open>
  The result dictionary of a speaker analysis: the fields of \<^verbatim>\<open>SpeakerAnalysis\<close>,
  the session id added by \<^verbatim>\<open>analyze_audio_async\<close>, and \<open>sr_fallback\<close>, true
  exactly when the dictionary carries \<^verbatim>\<open>'fallback': True\<close>.
\<close>

record speaker_result =
  sr_total_speakers :: int
  sr_primary_speaker_ratio :: real
  sr_speaker_switches :: int
  sr_overlapping_speech_duration :: real
  sr_speaker_segments :: "SpeakerSegment list"
  sr_suspicious_patterns :: "speaker_pattern list"
  sr_confidence_score :: real
  sr_analysis_timestamp :: string
  sr_session_id :: "string option"
  sr_fallback :: bool

record SpeakerDetector =
  sd_model_loaded :: bool
  sd_pipeline :: "real list \<Rightarrow> diarization option"
  sd_speaker_history :: "speaker_result list"
  sd_analysis_cache :: "((string \<times> nat) \<times> speaker_result) list"

definition perform_speaker_diarization :: "SpeakerDetector \<Rightarrow> real list \<Rightarrow> diarization option" where
  "perform_speaker_diarization sd audio_data =
     (if \<not> sd_model_loaded sd then None else sd_pipeline sd audio_data)"

fun count_speaker_switches_from :: "string option \<Rightarrow> diarization \<Rightarrow> int" where
  "count_speaker_switches_from prev_speaker [] = 0"
| "count_speaker_switches_from prev_speaker (t # ts) =
     (if prev_speaker \<noteq> None \<and> Some (tr_speaker t) \<noteq> prev_speaker then 1 else 0)
     + count_speaker_switches_from (Some (tr_speaker t)) ts"

definition count_speaker_switches :: "diarization \<Rightarrow> int" where
  "count_speaker_switches d = count_speaker_switches_from None d"

definition overlap_of :: "track \<Rightarrow> track \<Rightarrow> real" where
  "overlap_of a b =
     (if tr_speaker a \<noteq> tr_speaker b then
        (let overlap_start = max (tr_start a) (tr_start b);
             overlap_end = min (tr_end a) (tr_end b)
         in if overlap_start < overlap_end then overlap_end - overlap_start else 0)
      else 0)"

fun detect_overlapping_speech :: "diarization \<Rightarrow> real" where
  "detect_overlapping_speech [] = 0"
| "detect_overlapping_speech (t # ts) =
     sum_list (map (overlap_of t) ts) + detect_overlapping_speech ts"

definition identify_suspicious_patterns ::
  "int \<Rightarrow> int \<Rightarrow> real \<Rightarrow> real \<Rightarrow> speaker_pattern list" where
  "identify_suspicious_patterns total_speakers_v speaker_switches_v primary_ratio overlapping_duration =
     (if total_speakers_v > 1 then [MultipleSpeakersDetected total_speakers_v] else []) @
     (if speaker_switches_v > 10 then [FrequentSpeakerSwitches speaker_switches_v] else []) @
     (if total_speakers_v > 1 \<and> primary_ratio < 6 / 10 then [NoDominantSpeaker] else []) @
     (if overlapping_duration > 5 then [OverlappingSpeechDetected overlapping_duration] else []) @
     (if total_speakers_v = 2 \<and> speaker_switches_v > 5 then [RapidAlternatingSpeakers] else [])"

definition calculate_diarization_confidence :: "int \<Rightarrow> int \<Rightarrow> real \<Rightarrow> real" where
  "calculate_diarization_confidence speakers switches primary_ratio =
     (let confidence = 1;
          confidence = (if speakers > 2
                        then confidence - (1 / 10) * of_int (speakers - 2) else confidence);
          confidence = (if switches > 20 then confidence - 2 / 10 else confidence);
          confidence = (if speakers > 1 \<and> primary_ratio < 4 / 10
                        then confidence - 3 / 10 else confidence)
      in max 0 (min 1 confidence))"

definition speaker_duration :: "diarization \<Rightarrow> string \<Rightarrow> real" where
  "speaker_duration d speaker =
     sum_list (map (\<lambda>t. tr_end t - tr_start t) (filter (\<lambda>t. tr_speaker t = speaker) d))"

text \<open>
  \<^verbatim>\<open>analyze_speaker_patterns\<close>. An annotation is falsy when it is \<^verbatim>\<open>None\<close> or
  has no track.
\<close>

definition analyze_speaker_patterns :: "string \<Rightarrow> diarization option \<Rightarrow> speaker_result" where
  "analyze_speaker_patterns now diarization_opt =
     (case diarization_opt of
        None \<Rightarrow>
          \<lparr> sr_total_speakers = 0, sr_primary_speaker_ratio = 1, sr_speaker_switches = 0,
            sr_overlapping_speech_duration = 0, sr_speaker_segments = [],
            sr_suspicious_patterns = [], sr_confidence_score = 0,
            sr_analysis_timestamp = now, sr_session_id = None, sr_fallback = False \<rparr>
      | Some d \<Rightarrow>
          if d = [] then
            \<lparr> sr_total_speakers = 0, sr_primary_speaker_ratio = 1, sr_speaker_switches = 0,
              sr_overlapping_speech_duration = 0, sr_speaker_segments = [],
              sr_suspicious_patterns = [], sr_confidence_score = 0,
              sr_analysis_timestamp = now, sr_session_id = None, sr_fallback = False \<rparr>
          else
            (let speakers = remdups (map tr_speaker d);
                 total_speakers_v = int (length speakers);
                 speaker_segments =
                   map (\<lambda>t. \<lparr> seg_speaker_id = tr_speaker t, seg_start_time = tr_start t,
                               seg_end_time = tr_end t,
                               seg_duration = tr_end t - tr_start t,
                               seg_confidence = 8 / 10 \<rparr>) d;
                 speaker_durations = map (speaker_duration d) speakers;
                 total_duration = sum_list speaker_durations;
                 primary_duration = Max (set speaker_durations);
                 primary_speaker_ratio_v =
                   (if total_duration > 0 then primary_duration / total_duration else 0);
                 speaker_switches_v = count_speaker_switches d;
                 overlapping_duration = detect_overlapping_speech d
             in \<lparr> sr_total_speakers = total_speakers_v,
                  sr_primary_speaker_ratio = primary_speaker_ratio_v,
                  sr_speaker_switches = speaker_switches_v,
                  sr_overlapping_speech_duration = overlapping_duration,
                  sr_speaker_segments = speaker_segments,
                  sr_suspicious_patterns =
                    identify_suspicious_patterns total_speakers_v speaker_switches_v
                      primary_speaker_ratio_v overlapping_duration,
                  sr_confidence_score =
                    calculate_diarization_confidence total_speakers_v speaker_switches_v
                      primary_speaker_ratio_v,
                  sr_analysis_timestamp = now, sr_session_id = None,
                  sr_fallback = False \<rparr>))"

text \<open>
  \<^verbatim>\<open>analyze_audio_async\<close>. The cache key \<^verbatim>\<open>f"{session_id}_{len(audio_data)}"\<close> is
  modelled by the pair of its two components.
\<close>

definition analyze_audio_async ::
  "SpeakerDetector \<Rightarrow> string \<Rightarrow> real list \<Rightarrow> string \<Rightarrow> speaker_result \<times> SpeakerDetector" where
  "analyze_audio_async sd now audio_data sid =
     (let cache_key = (sid, length audio_data)
      in case map_of (sd_analysis_cache sd) cache_key of
           Some cached \<Rightarrow> (cached, sd)
         | None \<Rightarrow>
             (let diarization = perform_speaker_diarization sd audio_data;
                  analysis = analyze_speaker_patterns now diarization;
                  result = analysis\<lparr> sr_session_id := Some sid \<rparr>
              in (result,
                  sd\<lparr> sd_analysis_cache := (cache_key, result) # sd_analysis_cache sd,
                      sd_speaker_history := sd_speaker_history sd @ [result] \<rparr>)))"

text \<open>
  \<^verbatim>\<open>get_fallback_analysis\<close>. \<^verbatim>\<open>range(0, n, 0)\<close> raises \<^verbatim>\<open>ValueError\<close> for a
  buffer shorter than ten samples. When every chunk energy is zero the coefficient of
  variation is NaN and \<^verbatim>\<open>int(nan * 10)\<close> raises \<^verbatim>\<open>ValueError\<close>.
\<close>

fun chunks_of :: "nat \<Rightarrow> nat \<Rightarrow> 'a list \<Rightarrow> 'a list list" where
  "chunks_of fuel chunk_size [] = []"
| "chunks_of 0 chunk_size xs = []"
| "chunks_of (Suc fuel) chunk_size xs =
     take chunk_size xs # chunks_of fuel chunk_size (drop chunk_size xs)"

definition chunk_energy :: "real list \<Rightarrow> real" where
  "chunk_energy chunk = sqrt (np_mean (map (\<lambda>x. x\<^sup>2) chunk))"

definition get_fallback_analysis :: "string \<Rightarrow> real list \<Rightarrow> py_error + speaker_result" where
  "get_fallback_analysis now audio_data =
     (let chunk_size = length audio_data div 10
      in if chunk_size = 0 then Inl ValueError
         else
           (let chunks = chunks_of (length audio_data) chunk_size audio_data;
                energies = map chunk_energy (filter (\<lambda>chunk. length chunk > 0) chunks)
            in if energies = [] then
                 Inr \<lparr> sr_total_speakers = 1, sr_primary_speaker_ratio = 8 / 10,
                       sr_speaker_switches = 0, sr_overlapping_speech_duration = 0,
                       sr_speaker_segments = [], sr_suspicious_patterns = [],
                       sr_confidence_score = 4 / 10, sr_analysis_timestamp = now,
                       sr_session_id = None, sr_fallback = True \<rparr>
               else if np_mean energies = 0 then Inl ValueError
               else
                 (let energy_variation = np_std energies / np_mean energies;
                      estimated_speakers = (if energy_variation > 5 / 10 then 2 else 1 :: int)
                  in Inr \<lparr> sr_total_speakers = estimated_speakers,
                          sr_primary_speaker_ratio =
                            (if estimated_speakers = 1 then 8 / 10 else 6 / 10),
                          sr_speaker_switches = \<lfloor>energy_variation * 10\<rfloor>,
                          sr_overlapping_speech_duration = 0,
                          sr_speaker_segments = [],
                          sr_suspicious_patterns =
                            (if estimated_speakers > 1 then [FallbackLimitedAccuracy] else []),
                          sr_confidence_score = 4 / 10,
                          sr_analysis_timestamp = now,
                          sr_session_id = None,
                          sr_fallback = True \<rparr>)))"

subsection \<open>emotion_analyzer.py: EmotionAnalyzer\<close>

record EmotionalFeatures =
  pitch_mean :: real
  pitch_std :: real
  pitch_range :: real
  energy_mean :: real
  energy_std :: real
  energy_contour :: "real list"
  speaking_rate :: real
  pause_rate :: real
  jitter :: real
  shimmer :: real
  spectral_centroid :: real
  spectral_bandwidth :: real
  spectral_rolloff :: real
  mfcc_features :: "real list"

text \<open>The dataclass defaults, after \<^verbatim>\<open>__post_init__\<close>.\<close>

definition EmotionalFeatures_default :: EmotionalFeatures where
  "EmotionalFeatures_default =
     \<lparr> pitch_mean = 0, pitch_std = 0, pitch_range = 0, energy_mean = 0, energy_std = 0,
       energy_contour = [], speaking_rate = 0, pause_rate = 0, jitter = 0, shimmer = 0,
       spectral_centroid = 0, spectral_bandwidth = 0, spectral_rolloff = 0,
       mfcc_features = [] \<rparr>"

datatype emotion = neutral | happy | sad | angry | fear | surprise | disgust | unknown

definition emotions :: "emotion list" where
  "emotions = [neutral, happy, sad, angry, fear, surprise, disgust]"

datatype deception_indicator =
    HighJitter | HighShimmer | ExcessivePausing | SlowSpeech | VariablePitch
  | HighFearResponse | UnexpectedEmotionalResponse

datatype emotion_indicator =
    HighStressDetected | HighAnxietyDetected | MultipleDeception | EmotionalInconsistency
  | AnalysisFailed

record EmotionPrediction =
  ep_emotion :: emotion
  ep_confidence :: real
  ep_probabilities :: "(emotion \<times> real) list"
  ep_stress_level :: real
  ep_anxiety_level :: real
  ep_deception_indicators :: "deception_indicator list"

record EmotionAnalysis =
  ea_features :: EmotionalFeatures
  ea_predictions :: EmotionPrediction
  ea_suspicious_indicators :: "emotion_indicator list"
  ea_overall_risk_score :: real
  ea_analysis_timestamp :: string

text \<open>
  The optional back ends. \<open>None\<close> for a back end means that its import failed; a
  \<open>None\<close> result of a call stands for a raised exception.
  \<^item> \<open>librosa_prosodic\<close> gives the positive pitch values picked from
    \<^verbatim>\<open>librosa.piptrack\<close>, the RMS frames and the zero-crossing frames;
  \<^item> \<open>librosa_spectral\<close> gives the mean centroid, bandwidth and roll-off and the
    mean MFCC vector;
  \<^item> \<open>fft_dominant\<close> gives the frequency of the dominant FFT bin used by the basic
    spectral features;
  \<^item> \<open>emotion_model\<close> gives the seven class probabilities of the network on the
    (possibly scaled) feature vector.
\<close>

record emotion_backends =
  librosa_prosodic :: "(real list \<Rightarrow> (real list \<times> real list \<times> real list) option) option"
  librosa_spectral :: "(real list \<Rightarrow> (real \<times> real \<times> real \<times> real list) option) option"
  fft_dominant :: "real list \<Rightarrow> real option"
  emotion_model :: "(EmotionalFeatures \<Rightarrow> real list option) option"

record prosodic_features =
  pr_pitch_mean :: real
  pr_pitch_std :: real
  pr_pitch_range :: real
  pr_energy_mean :: real
  pr_energy_std :: real
  pr_energy_contour :: "real list"
  pr_zcr_mean :: real
  pr_jitter :: real
  pr_shimmer :: real

text \<open>
  \<^verbatim>\<open>_get_basic_prosodic_features\<close>. The zero-crossing rate divides two Python
  integers, \<^verbatim>\<open>len(zero_crossings) / len(audio_data)\<close>, which raises
  \<^verbatim>\<open>ZeroDivisionError\<close> for an empty buffer.
\<close>

definition get_basic_prosodic_features :: "real list \<Rightarrow> py_error + prosodic_features" where
  "get_basic_prosodic_features audio_data =
     (if length audio_data = 0 then Inl ZeroDivisionError
      else
        (let rms = sqrt (np_mean (map (\<lambda>x. x\<^sup>2) audio_data));
             zcr = real (sign_changes audio_data) / real (length audio_data)
         in Inr \<lparr> pr_pitch_mean = 150, pr_pitch_std = 20, pr_pitch_range = 100,
                 pr_energy_mean = rms, pr_energy_std = rms * (3 / 10),
                 pr_energy_contour = [rms], pr_zcr_mean = zcr,
                 pr_jitter = 1 / 100, pr_shimmer = 3 / 100 \<rparr>))"

fun real_diff :: "real list \<Rightarrow> real list" where
  "real_diff (x # y # ys) = (y - x) # real_diff (y # ys)"
| "real_diff xs = []"

definition calculate_jitter :: "real list \<Rightarrow> real" where
  "calculate_jitter pitch_values =
     (if length pitch_values < 2 then 0
      else if np_mean pitch_values > 0
           then np_std (real_diff pitch_values) / np_mean pitch_values else 0)"

definition calculate_shimmer :: "real list \<Rightarrow> real" where
  "calculate_shimmer energy_values =
     (if length energy_values < 2 then 0
      else if np_mean energy_values > 0
           then np_std (real_diff energy_values) / np_mean energy_values else 0)"

text \<open>
  \<^verbatim>\<open>extract_prosodic_features\<close>. Statistics of an empty frame list are NaN in
  numpy; the model treats that as a failed extraction, which takes the same fallback.
\<close>

definition extract_prosodic_features ::
  "emotion_backends \<Rightarrow> real list \<Rightarrow> py_error + prosodic_features" where
  "extract_prosodic_features be audio_data =
     (case librosa_prosodic be of
        None \<Rightarrow> get_basic_prosodic_features audio_data
      | Some librosa \<Rightarrow>
          (case librosa audio_data of
             None \<Rightarrow> get_basic_prosodic_features audio_data
           | Some (picked, rms, zcr) \<Rightarrow>
               if rms = [] \<or> zcr = [] then get_basic_prosodic_features audio_data
               else
                 (let pitch_values = (if picked = [] then [0] else picked)
                  in Inr \<lparr> pr_pitch_mean = np_mean pitch_values,
                          pr_pitch_std = np_std pitch_values,
                          pr_pitch_range = Max (set pitch_values) - Min (set pitch_values),
                          pr_energy_mean = np_mean rms,
                          pr_energy_std = np_std rms,
                          pr_energy_contour = rms,
                          pr_zcr_mean = np_mean zcr,
                          pr_jitter = calculate_jitter pitch_values,
                          pr_shimmer = calculate_shimmer rms \<rparr>)))"

record spectral_features =
  sp_spectral_centroid :: real
  sp_spectral_bandwidth :: real
  sp_spectral_rolloff :: real
  sp_mfcc_features :: "real list"

definition get_basic_spectral_features ::
  "emotion_backends \<Rightarrow> real list \<Rightarrow> py_error + spectral_features" where
  "get_basic_spectral_features be audio_data =
     (case fft_dominant be audio_data of
        None \<Rightarrow> Inl ValueError
      | Some dominant_freq \<Rightarrow>
          Inr \<lparr> sp_spectral_centroid = \<bar>dominant_freq\<bar>, sp_spectral_bandwidth = 1000,
                sp_spectral_rolloff = 4000, sp_mfcc_features = replicate 13 0 \<rparr>)"

definition extract_spectral_features ::
  "emotion_backends \<Rightarrow> real list \<Rightarrow> py_error + spectral_features" where
  "extract_spectral_features be audio_data =
     (case librosa_spectral be of
        None \<Rightarrow> get_basic_spectral_features be audio_data
      | Some librosa \<Rightarrow>
          (case librosa audio_data of
             None \<Rightarrow> get_basic_spectral_features be audio_data
           | Some (centroid, bandwidth, rolloff, mfcc) \<Rightarrow>
               Inr \<lparr> sp_spectral_centroid = centroid, sp_spectral_bandwidth = bandwidth,
                     sp_spectral_rolloff = rolloff, sp_mfcc_features = mfcc \<rparr>))"

record temporal_features =
  tf_speaking_rate :: real
  tf_pause_rate :: real
  tf_speech_rhythm_consistency :: real

definition extract_temporal_features ::
  "nat \<Rightarrow> real list \<Rightarrow> speech_segment list \<Rightarrow> py_error + temporal_features" where
  "extract_temporal_features sample_rate audio_data segs =
     (if segs = [] then
        Inr \<lparr> tf_speaking_rate = 0, tf_pause_rate = 0, tf_speech_rhythm_consistency = 0 \<rparr>
      else if length audio_data > 0 \<and> sample_rate = 0 then Inl ZeroDivisionError
      else
        (let total_speech_time_v = sum_list (map (\<lambda>seg. get0 (duration seg)) segs);
             estimated_syllables = total_speech_time_v * 4;
             seconds = real (length audio_data) / real sample_rate;
             speaking_rate_v = (if length audio_data > 0 then estimated_syllables / seconds else 0);
             pause_durations = pause_durations_of segs;
             pause_rate_v =
               (if length audio_data > 0 then real (length pause_durations) / seconds else 0)
         in Inr \<lparr> tf_speaking_rate = speaking_rate_v, tf_pause_rate = pause_rate_v,
                 tf_speech_rhythm_consistency = duration_consistency segs \<rparr>))"

definition extract_emotional_features ::
  "emotion_backends \<Rightarrow> nat \<Rightarrow> real list \<Rightarrow> speech_segment list
     \<Rightarrow> py_error + EmotionalFeatures" where
  "extract_emotional_features be sample_rate audio_data segs =
     (case extract_prosodic_features be audio_data of Inl e \<Rightarrow> Inl e | Inr prosodic \<Rightarrow>
     (case extract_spectral_features be audio_data of Inl e \<Rightarrow> Inl e | Inr spectral \<Rightarrow>
     (case extract_temporal_features sample_rate audio_data segs of Inl e \<Rightarrow> Inl e
      | Inr temporal \<Rightarrow>
          Inr \<lparr> pitch_mean = pr_pitch_mean prosodic,
                pitch_std = pr_pitch_std prosodic,
                pitch_range = pr_pitch_range prosodic,
                energy_mean = pr_energy_mean prosodic,
                energy_std = pr_energy_std prosodic,
                energy_contour = pr_energy_contour prosodic,
                speaking_rate = tf_speaking_rate temporal,
                pause_rate = tf_pause_rate temporal,
                jitter = pr_jitter prosodic,
                shimmer = pr_shimmer prosodic,
                spectral_centroid = sp_spectral_centroid spectral,
                spectral_bandwidth = sp_spectral_bandwidth spectral,
                spectral_rolloff = sp_spectral_rolloff spectral,
                mfcc_features = sp_mfcc_features spectral \<rparr>)))"

text \<open>\<^verbatim>\<open>probabilities.get(e, 0)\<close>.\<close>

definition prob_get :: "(emotion \<times> real) list \<Rightarrow> emotion \<Rightarrow> real" where
  "prob_get probabilities e = (case map_of probabilities e of None \<Rightarrow> 0 | Some p \<Rightarrow> p)"

definition calculate_stress_level :: "EmotionalFeatures \<Rightarrow> (emotion \<times> real) list \<Rightarrow> real" where
  "calculate_stress_level features probabilities =
     min 1
       ((if pitch_std features > 30 then 3 / 10 else 0)
        + (if speaking_rate features > 6 then 2 / 10 else 0)
        + (if energy_std features > 5 / 100 then 2 / 10 else 0)
        + prob_get probabilities angry * (5 / 10)
        + prob_get probabilities fear * (6 / 10)
        + prob_get probabilities sad * (3 / 10))"

definition calculate_anxiety_level :: "EmotionalFeatures \<Rightarrow> (emotion \<times> real) list \<Rightarrow> real" where
  "calculate_anxiety_level features probabilities =
     min 1
       ((if jitter features > 2 / 100 then 3 / 10 else 0)
        + (if pause_rate features > 1 then 2 / 10 else 0)
        + (if speaking_rate features < 2 then 2 / 10 else 0)
        + prob_get probabilities fear * (7 / 10)
        + prob_get probabilities surprise * (3 / 10)
        + prob_get probabilities sad * (4 / 10))"

definition identify_deception_indicators ::
  "EmotionalFeatures \<Rightarrow> (emotion \<times> real) list \<Rightarrow> deception_indicator list" where
  "identify_deception_indicators features probabilities =
     (if jitter features > 25 / 1000 then [HighJitter] else []) @
     (if shimmer features > 5 / 100 then [HighShimmer] else []) @
     (if pause_rate features > 8 / 10 then [ExcessivePausing] else []) @
     (if speaking_rate features < 25 / 10 then [SlowSpeech] else []) @
     (if pitch_std features > 40 then [VariablePitch] else []) @
     (if prob_get probabilities fear > 4 / 10 then [HighFearResponse] else []) @
     (if prob_get probabilities surprise > 3 / 10 then [UnexpectedEmotionalResponse] else [])"

definition get_fallback_emotion_prediction :: "EmotionalFeatures \<Rightarrow> EmotionPrediction" where
  "get_fallback_emotion_prediction features =
     (let emotion_v =
            (if energy_mean features > 5 / 100 \<and> pitch_mean features > 200
             then (if pitch_std features > 30 then angry else happy)
             else if energy_mean features < 2 / 100 then sad
             else if pitch_std features > 40 then fear
             else neutral);
          probabilities = map (\<lambda>e. (e, if e = emotion_v then 7 / 10 else 1 / 10)) emotions
      in \<lparr> ep_emotion = emotion_v,
           ep_confidence = 6 / 10,
           ep_probabilities = probabilities,
           ep_stress_level = min 1 (energy_std features * 10),
           ep_anxiety_level = min 1 (jitter features * 50),
           ep_deception_indicators = [] \<rparr>)"

text \<open>\<^verbatim>\<open>torch.argmax\<close>: the first position of the largest entry.\<close>

fun argmax_from :: "nat \<Rightarrow> nat \<Rightarrow> real \<Rightarrow> real list \<Rightarrow> nat" where
  "argmax_from i best_i best [] = best_i"
| "argmax_from i best_i best (x # xs) =
     (if x > best then argmax_from (Suc i) i x xs else argmax_from (Suc i) best_i best xs)"

definition argmax :: "real list \<Rightarrow> nat" where
  "argmax xs = (case xs of [] \<Rightarrow> 0 | x # rest \<Rightarrow> argmax_from 1 0 x rest)"

definition predict_emotion :: "emotion_backends \<Rightarrow> EmotionalFeatures \<Rightarrow> EmotionPrediction" where
  "predict_emotion be features =
     (case emotion_model be of
        None \<Rightarrow> get_fallback_emotion_prediction features
      | Some model \<Rightarrow>
          (case model features of
             None \<Rightarrow> get_fallback_emotion_prediction features
           | Some emotion_probs \<Rightarrow>
               if length emotion_probs < length emotions
               then get_fallback_emotion_prediction features
               else
                 (let emotion_idx = argmax emotion_probs;
                      probabilities = zip emotions emotion_probs
                  in if emotion_idx \<ge> length emotions
                     then get_fallback_emotion_prediction features
                     else
                       \<lparr> ep_emotion = emotions ! emotion_idx,
                         ep_confidence = emotion_probs ! emotion_idx,
                         ep_probabilities = probabilities,
                         ep_stress_level = calculate_stress_level features probabilities,
                         ep_anxiety_level = calculate_anxiety_level features probabilities,
                         ep_deception_indicators =
                           identify_deception_indicators features probabilities \<rparr>)))"

definition identify_suspicious_indicators :: "EmotionPrediction \<Rightarrow> emotion_indicator list" where
  "identify_suspicious_indicators predictions =
     (if ep_stress_level predictions > 7 / 10 then [HighStressDetected] else []) @
     (if ep_anxiety_level predictions > 7 / 10 then [HighAnxietyDetected] else []) @
     (if length (ep_deception_indicators predictions) > 2 then [MultipleDeception] else []) @
     (if ep_emotion predictions \<in> {happy, surprise} \<and> ep_stress_level predictions > 5 / 10
      then [EmotionalInconsistency] else [])"

definition calculate_emotional_risk_score :: "EmotionPrediction \<Rightarrow> real" where
  "calculate_emotional_risk_score predictions =
     min 1
       (ep_stress_level predictions * (4 / 10)
        + ep_anxiety_level predictions * (3 / 10)
        + real (length (ep_deception_indicators predictions)) * (1 / 10)
        + prob_get (ep_probabilities predictions) fear * (3 / 10)
        + prob_get (ep_probabilities predictions) angry * (2 / 10))"

record EmotionAnalyzer =
  em_sample_rate :: nat
  em_backends :: emotion_backends
  em_analysis_history :: "EmotionAnalysis list"

text \<open>
  \<^verbatim>\<open>analyze_emotion_async\<close>: any exception of the feature extraction is caught and
  answered with the minimal analysis, whose risk score is 0.5.
\<close>

definition analyze_emotion_async ::
  "EmotionAnalyzer \<Rightarrow> string \<Rightarrow> real list \<Rightarrow> speech_segment list
     \<Rightarrow> EmotionAnalysis \<times> EmotionAnalyzer" where
  "analyze_emotion_async em now audio_data segs =
     (case extract_emotional_features (em_backends em) (em_sample_rate em) audio_data segs of
        Inl e \<Rightarrow>
          (\<lparr> ea_features = EmotionalFeatures_default,
             ea_predictions =
               \<lparr> ep_emotion = unknown, ep_confidence = 0, ep_probabilities = [],
                 ep_stress_level = 0, ep_anxiety_level = 0, ep_deception_indicators = [] \<rparr>,
             ea_suspicious_indicators = [AnalysisFailed],
             ea_overall_risk_score = 5 / 10,
             ea_analysis_timestamp = now \<rparr>, em)
      | Inr features \<Rightarrow>
          (let predictions = predict_emotion (em_backends em) features;
               analysis =
                 \<lparr> ea_features = features,
                   ea_predictions = predictions,
                   ea_suspicious_indicators = identify_suspicious_indicators predictions,
                   ea_overall_risk_score = calculate_emotional_risk_score predictions,
                   ea_analysis_timestamp = now \<rparr>
           in (analysis, em\<lparr> em_analysis_history := em_analysis_history em @ [analysis] \<rparr>)))"

subsection \<open>websocket_handler.py: VoiceSession and VoiceWebSocketManager\<close>

text \<open>
  The messages a session sends on its websocket are collected in its outbox; sending
  is taken to succeed. The periodic analysis task runs concurrently with the chunk
  path and is not part of this model. \<^verbatim>\<open>base64.b64decode\<close> is external: it is given
  as a function whose \<open>None\<close> result stands for a raised exception.
\<close>

datatype ws_message =
    VoiceSessionStarted string real
  | VoiceSessionError string
  | VoiceActivity bool real "real option" string
  | VoiceWarning "indicator list" string

record risk_entry =
  re_timestamp :: string
  re_risk_score :: real
  re_probability :: real
  re_is_cheating :: bool

record VoiceSession =
  vs_session_id :: string
  vs_start_time :: "real option"
  vs_is_active :: bool
  vs_audio_chunks_processed :: nat
  vs_alerts_generated :: nat
  vs_current_risk_score :: real
  vs_audio_buffer :: "real list"
  vs_transcription_buffer :: pystr
  vs_sample_rate :: nat
  vs_voice_events :: "chunk_analysis list"
  vs_behavioral_history :: "BehavioralMetrics list"
  vs_speaker_analyses :: "speaker_result list"
  vs_emotion_analyses :: "EmotionAnalysis list"
  vs_risk_history :: "risk_entry list"
  vs_outbox :: "ws_message list"

text \<open>
  The manager owns the registry of sessions and one instance of each analysis
  component, created once in \<^verbatim>\<open>VoiceWebSocketManager.__init__\<close> and used by every
  session through \<^verbatim>\<open>self.voice_manager\<close>.
\<close>

record VoiceWebSocketManager =
  active_sessions :: "string \<rightharpoonup> VoiceSession"
  voice_processor :: VoiceProcessor
  behavioral_analyzer :: BehavioralAnalyzer
  speaker_detector :: SpeakerDetector
  emotion_analyzer :: EmotionAnalyzer
  cheating_classifier :: CheatingClassifier
  analysis_interval :: real
  alert_threshold :: real

definition VoiceSession_init :: "string \<Rightarrow> VoiceSession" where
  "VoiceSession_init sid =
     \<lparr> vs_session_id = sid, vs_start_time = None, vs_is_active = False,
       vs_audio_chunks_processed = 0, vs_alerts_generated = 0, vs_current_risk_score = 0,
       vs_audio_buffer = [], vs_transcription_buffer = [], vs_sample_rate = 16000,
       vs_voice_events = [], vs_behavioral_history = [], vs_speaker_analyses = [],
       vs_emotion_analyses = [], vs_risk_history = [], vs_outbox = [] \<rparr>"

text \<open>\<^verbatim>\<open>VoiceSession.start\<close>, without the creation of the periodic task.\<close>

definition session_start :: "VoiceSession \<Rightarrow> real \<Rightarrow> VoiceSession" where
  "session_start vs now =
     vs\<lparr> vs_start_time := Some now, vs_is_active := True,
         vs_outbox := vs_outbox vs @ [VoiceSessionStarted (vs_session_id vs) now] \<rparr>"

text \<open>
  \<^verbatim>\<open>start_voice_session\<close>: the result, the messages sent on the websocket of the
  call when the session already exists, and the new manager.
\<close>

definition start_voice_session ::
  "VoiceWebSocketManager \<Rightarrow> real \<Rightarrow> string \<Rightarrow> bool \<times> ws_message list \<times> VoiceWebSocketManager" where
  "start_voice_session mgr now sid =
     (case active_sessions mgr sid of
        Some existing \<Rightarrow> (False, [VoiceSessionError ''Session already active''], mgr)
      | None \<Rightarrow>
          (True, [],
           mgr\<lparr> active_sessions :=
                  (active_sessions mgr)(sid \<mapsto> session_start (VoiceSession_init sid) now) \<rparr>))"

datatype chunk_result =
    ChunkError string
  | ChunkFailed py_error
  | Processed nat bool real

text \<open>\<^verbatim>\<open>_send_realtime_feedback\<close>, reading the suspicious events of the manager's processor.\<close>

definition realtime_feedback :: "VoiceProcessor \<Rightarrow> chunk_analysis \<Rightarrow> ws_message list" where
  "realtime_feedback vp analysis =
     [VoiceActivity (a_is_speech analysis) (a_silero_probability analysis)
        (a_rms_energy analysis) (a_timestamp analysis)]
     @ (if length (vp_suspicious_events vp) > 0
        then [VoiceWarning (se_indicators (last (vp_suspicious_events vp)))
                (se_timestamp (last (vp_suspicious_events vp)))]
        else [])"

text \<open>
  \<^verbatim>\<open>VoiceSession.process_audio\<close>, on the session and the processor of its manager.
  An exception inside the \<^verbatim>\<open>try\<close> block is answered with an error result; the
  assignments made before it stay.
\<close>

definition session_process_audio ::
  "(bytes \<Rightarrow> bytes option) \<Rightarrow> string \<Rightarrow> VoiceSession \<Rightarrow> VoiceProcessor \<Rightarrow> bytes
     \<Rightarrow> chunk_result \<times> VoiceSession \<times> VoiceProcessor" where
  "session_process_audio b64decode now vs vp audio_data =
     (if \<not> vs_is_active vs then (ChunkError ''Session not active'', vs, vp)
      else
        (let audio_bytes = (case b64decode audio_data of Some b \<Rightarrow> b | None \<Rightarrow> audio_data)
         in case frombuffer_int16 audio_bytes of
              Inl e \<Rightarrow> (ChunkFailed e, vs, vp)
            | Inr samples \<Rightarrow>
                (let audio_np = normalize_int16 samples;
                     buf = vs_audio_buffer vs @ audio_np;
                     max_buffer_size = vs_sample_rate vs * 30;
                     buf = (if length buf > max_buffer_size
                            then (if max_buffer_size = 0 then buf
                                  else drop (length buf - max_buffer_size) buf)
                            else buf);
                     vs1 = vs\<lparr> vs_audio_buffer := buf,
                              vs_audio_chunks_processed := Suc (vs_audio_chunks_processed vs) \<rparr>
                 in case analyze_audio_chunk vp now audio_bytes of
                      Inl e \<Rightarrow> (ChunkFailed e, vs1, vp)
                    | Inr (analysis, vp') \<Rightarrow>
                        (Processed (length audio_bytes) (a_is_speech analysis)
                           (a_silero_probability analysis),
                         vs1\<lparr> vs_voice_events := vs_voice_events vs1 @ [analysis],
                              vs_outbox := vs_outbox vs1 @ realtime_feedback vp' analysis \<rparr>,
                         vp'))))"

text \<open>\<^verbatim>\<open>VoiceWebSocketManager.process_audio_chunk\<close>.\<close>

definition process_audio_chunk ::
  "(bytes \<Rightarrow> bytes option) \<Rightarrow> string \<Rightarrow> VoiceWebSocketManager \<Rightarrow> string \<Rightarrow> bytes
     \<Rightarrow> chunk_result \<times> VoiceWebSocketManager" where
  "process_audio_chunk b64decode now mgr sid audio_data =
     (case active_sessions mgr sid of
        None \<Rightarrow> (ChunkError ''Session not found'', mgr)
      | Some vs \<Rightarrow>
          (case session_process_audio b64decode now vs (voice_processor mgr) audio_data of
             (res, vs', vp') \<Rightarrow>
               (res, mgr\<lparr> active_sessions := (active_sessions mgr)(sid \<mapsto> vs'),
                          voice_processor := vp' \<rparr>)))"

text \<open>
  What a session observes of the voice activity: its own session object together with
  the counters and event lists of the processor it reads through its manager (in
  \<^verbatim>\<open>_send_realtime_feedback\<close>, \<^verbatim>\<open>_run_cheating_classification\<close> and
  \<^verbatim>\<open>_generate_session_summary\<close>).
\<close>

record session_view =
  sv_session :: "VoiceSession option"
  sv_total_speech_time :: real
  sv_total_silence_time :: real
  sv_speech_events :: "chunk_analysis list"
  sv_suspicious_events :: "suspicious_event list"

definition view_of :: "VoiceWebSocketManager \<Rightarrow> string \<Rightarrow> session_view" where
  "view_of mgr sid =
     \<lparr> sv_session = active_sessions mgr sid,
       sv_total_speech_time = vp_total_speech_time (voice_processor mgr),
       sv_total_silence_time = vp_total_silence_time (voice_processor mgr),
       sv_speech_events = vp_speech_events (voice_processor mgr),
       sv_suspicious_events = vp_suspicious_events (voice_processor mgr) \<rparr>"

section \<open>Example inputs\<close>

definition sample_help_answer_two_speakers :: CheatingSample where
  "sample_help_answer_two_speakers =
     CheatingSample_default
       \<lparr> help_seeking_phrases := 1, answer_receiving_phrases := 2, total_speakers := 2 \<rparr>"

definition untrained_classifier :: CheatingClassifier where
  "untrained_classifier =
     \<lparr> rf_model = None, gb_model = None, lr_model = None, feature_scaler = None,
       training_samples = [], is_trained = False, model_metrics = [],
       feature_importance = [],
       prediction_history = [], feature_names = get_feature_names \<rparr>"

text \<open>
  A persisted blob whose feature-name list is not the classifier's 20-feature schema;
  its models answer 0.9 on every row and its scaler is the identity.
\<close>

definition mismatched_blob :: model_data where
  "mismatched_blob =
     \<lparr> md_rf_model = Some (\<lambda>row. Some (9 / 10)),
       md_gb_model = Some (\<lambda>row. Some (9 / 10)),
       md_lr_model = Some (\<lambda>row. Some (9 / 10)),
       md_feature_scaler = Some (\<lambda>row. Some row),
       md_feature_names = [''potential_recording'', ''speech_ratio''],
       md_model_metrics = [],
       md_feature_importance = [],
       md_training_samples_count = 10 \<rparr>"

definition mismatched_classifier :: CheatingClassifier where
  "mismatched_classifier =
     untrained_classifier
       \<lparr> rf_model := md_rf_model mismatched_blob,
         gb_model := md_gb_model mismatched_blob,
         lr_model := md_lr_model mismatched_blob,
         feature_scaler := md_feature_scaler mismatched_blob,
         feature_names := [''potential_recording'', ''speech_ratio''],
         model_metrics := [],
         feature_importance := [],
         is_trained := True \<rparr>"



text \<open>
  A speaker detector whose diarization model could not be loaded (no credential), with
  an empty cache, and a buffer of ten samples of constant amplitude.
\<close>

definition detector_without_model :: SpeakerDetector where
  "detector_without_model =
     \<lparr> sd_model_loaded = False, sd_pipeline = (\<lambda>audio. None),
       sd_speaker_history = [], sd_analysis_cache = [] \<rparr>"

definition constant_audio :: "real list" where
  "constant_audio = [1, 1, 1, 1, 1, 1, 1, 1, 1, 1]"

text \<open>The Unicode tables restricted to ASCII.\<close>

definition ascii_db :: unicode_db where
  "ascii_db =
     \<lparr> u_lower = (\<lambda>c. [if 65 \<le> c \<and> c \<le> 90 then c + 32 else c]),
       u_cased = (\<lambda>c. (65 \<le> c \<and> c \<le> 90) \<or> (97 \<le> c \<and> c \<le> 122)),
       u_case_ignorable = (\<lambda>c. c = 39 \<or> c = 46 \<or> c = 58 \<or> c = 94 \<or> c = 96),
       u_alnum = (\<lambda>c. (48 \<le> c \<and> c \<le> 57) \<or> (65 \<le> c \<and> c \<le> 90) \<or> (97 \<le> c \<and> c \<le> 122)) \<rparr>"

text \<open>
  A behavioural analyzer without history, an emotion analyzer without any optional
  back end (the FFT of the basic spectral features rejects an empty buffer), and two
  segment lists.
\<close>

definition new_behavioral_analyzer :: BehavioralAnalyzer where
  "new_behavioral_analyzer = \<lparr> ba_analysis_history = [] \<rparr>"

definition emotion_analyzer_without_backends :: EmotionAnalyzer where
  "emotion_analyzer_without_backends =
     \<lparr> em_sample_rate = 16000,
       em_backends =
         \<lparr> librosa_prosodic = None, librosa_spectral = None,
           fft_dominant = (\<lambda>audio. if audio = [] then None else Some 0),
           emotion_model = None \<rparr>,
       em_analysis_history = [] \<rparr>"

definition one_second_segment :: "speech_segment list" where
  "one_second_segment = [\<lparr> start_time = Some 0, end_time = Some 1, duration = Some 1 \<rparr>]"

definition zero_length_segment :: "speech_segment list" where
  "zero_length_segment = [\<lparr> start_time = Some 0, end_time = Some 0, duration = Some 0 \<rparr>]"

text \<open>
  One segment whose duration is the float that the literal \<^verbatim>\<open>0.47\<close> denotes,
  \<open>2116691824864133 / 2 ^ 52\<close>, and one segment of duration \<^verbatim>\<open>2.0 ** 1023\<close>.
\<close>

definition segment_0_47 :: "speech_segment list" where
  "segment_0_47 =
     [\<lparr> start_time = Some 0, end_time = Some (2116691824864133 / 4503599627370496),
        duration = Some (2116691824864133 / 4503599627370496) \<rparr>]"

definition segment_2_pow_1023 :: "speech_segment list" where
  "segment_2_pow_1023 =
     [\<lparr> start_time = Some 0, end_time = Some (2 ^ 1023), duration = Some (2 ^ 1023) \<rparr>]"

text \<open>
  The metrics that \<^verbatim>\<open>analyze_behavior\<close> assembles from all-empty input, before the
  confidence is filled in.
\<close>

definition empty_metrics0 :: "string \<Rightarrow> BehavioralMetrics" where
  "empty_metrics0 now =
     \<lparr> bm_speech_rate = Fin 0, bm_pause_frequency = 0, bm_average_pause_duration = 0,
       bm_speech_consistency = 0, bm_question_reading_detected = False,
       bm_help_seeking_phrases = 0, bm_answer_receiving_phrases = 0,
       bm_external_discussion = False, bm_background_noise_level = Some 0,
       bm_audio_quality_score = 1, bm_potential_recording = False,
       bm_unusual_silence_periods = 0, bm_rapid_speech_bursts = 0,
       bm_inconsistent_volume = False, bm_overall_confidence = 0,
       bm_analysis_timestamp = now \<rparr>"

text \<open>
  A manager whose VAD back ends are not installed, with two sessions \<open>A\<close> and
  \<open>B\<close> started at clock reading 0. The chunk \<^verbatim>\<open>AQD//wEA//8=\<close> is the base64 text of
  the four samples 1, -1, 1, -1 and \<^verbatim>\<open>AQABAA==\<close> that of the two samples 1, 1.
\<close>

definition new_manager :: VoiceWebSocketManager where
  "new_manager =
     \<lparr> active_sessions = Map.empty,
       voice_processor = VoiceProcessor_init None None,
       behavioral_analyzer = new_behavioral_analyzer,
       speaker_detector = detector_without_model,
       emotion_analyzer = emotion_analyzer_without_backends,
       cheating_classifier = untrained_classifier,
       analysis_interval = 10,
       alert_threshold = 7 / 10 \<rparr>"

definition manager_AB :: VoiceWebSocketManager where
  "manager_AB =
     snd (snd (start_voice_session (snd (snd (start_voice_session new_manager 0 ''A''))) 0 ''B''))"

definition alternating_chunk :: bytes where
  "alternating_chunk = map of_char ''AQD//wEA//8=''"

definition steady_chunk :: bytes where
  "steady_chunk = map of_char ''AQABAA==''"

definition b64decode_example :: "bytes \<Rightarrow> bytes option" where
  "b64decode_example data =
     (if data = alternating_chunk then Some [1, 0, 255, 255, 1, 0, 255, 255]
      else if data = steady_chunk then Some [1, 0, 1, 0]
      else None)"

definition manager_after_A :: VoiceWebSocketManager where
  "manager_after_A = snd (process_audio_chunk b64decode_example [] manager_AB ''A'' alternating_chunk)"

definition manager_after_B :: VoiceWebSocketManager where
  "manager_after_B =
     snd (process_audio_chunk b64decode_example [] manager_after_A ''B'' steady_chunk)"

text \<open>The processor of \<open>manager_AB\<close> after the alternating chunk.\<close>

definition processor_after_A :: VoiceProcessor where
  "processor_after_A =
     (VoiceProcessor_init None None)
       \<lparr> vp_total_silence_time := 4 / 16000,
         vp_suspicious_events :=
           [\<lparr> se_timestamp = [], se_indicators = [high_distortion],
              se_analysis =
                \<lparr> a_is_speech = False, a_silero_probability = 0, a_webrtc_detected = False,
                  a_rms_energy = Some (1 / 32768), a_zero_crossing_rate = Some (3 / 4),
                  a_audio_length_seconds = 4 / 16000, a_timestamp = [] \<rparr> \<rparr>] \<rparr>"

text \<open>
  Samples with one field outside its usual range, and an emotion analyzer whose model
  answers the uniform distribution.
\<close>

definition sample_negative_pause :: CheatingSample where
  "sample_negative_pause = CheatingSample_default \<lparr> pause_frequency := - 1 \<rparr>"

definition sample_quality_above_one :: CheatingSample where
  "sample_quality_above_one = CheatingSample_default \<lparr> audio_quality_score := 3 \<rparr>"

definition emotion_analyzer_with_model :: EmotionAnalyzer where
  "emotion_analyzer_with_model =
     \<lparr> em_sample_rate = 16000,
       em_backends =
         \<lparr> librosa_prosodic = None, librosa_spectral = None,
           fft_dominant = (\<lambda>audio. if audio = [] then None else Some 0),
           emotion_model = Some (\<lambda>features. Some [1 / 7, 1 / 7, 1 / 7, 1 / 7, 1 / 7, 1 / 7, 1 / 7]) \<rparr>,
       em_analysis_history = [] \<rparr>"

section \<open>Properties\<close>

subsection \<open>Rule-based prediction\<close>



lemma rule_fst_skip: "\<not> c \<Longrightarrow> rule c w f acc = acc"
  by (simp add: rule_def)


lemma rule_based_score_nonneg: "0 \<le> fst (rule_based_score s)"
proof -
  have step: "\<And>c w f acc. 0 \<le> w \<Longrightarrow> 0 \<le> fst acc \<Longrightarrow> 0 \<le> fst (rule c w f acc)"
    by (simp add: rule_def)
  show ?thesis
    unfolding rule_based_score_def by (intro step) simp_all
qed

lemma rule_based_score_clean:
  assumes "help_seeking_phrases s = 0" "answer_receiving_phrases s = 0"
    "\<not> external_discussion s" "total_speakers s = 1" "stress_level s = 0"
    "deception_indicators_count s = 0" "\<not> potential_recording s"
  shows "rule_based_score s = (0, [])"
  using assms by (simp add: rule_based_score_def rule_def)

lemma rbp_fields:
  "p_risk_score (get_rule_based_prediction now s) = min 1 (fst (rule_based_score s))"
  "p_probability (get_rule_based_prediction now s) = min 1 (fst (rule_based_score s))"
  "p_is_cheating (get_rule_based_prediction now s) = (min 1 (fst (rule_based_score s)) > 5 / 10)"
  "p_confidence (get_rule_based_prediction now s) =
     max (min 1 (fst (rule_based_score s))) (1 - min 1 (fst (rule_based_score s))) * (8 / 10)"
  "p_risk_breakdown (get_rule_based_prediction now s) = get_risk_breakdown s"
  by (simp_all add: get_rule_based_prediction_def Let_def split_def del: min_less_iff_conj)

lemma predict_untrained:
  "\<not> is_trained c \<Longrightarrow> predict_cheating sk c now s ue = (get_rule_based_prediction now s, c)"
  by (simp add: predict_cheating_def)



text \<open>
  C2. A sample whose suspicious fields are all zero or false is classified by an
  untrained classifier (rule-based path) as not cheating, with risk score 0 and
  probability 0.
\<close>

theorem clean_sample_zero_risk:
  assumes "help_seeking_phrases s = 0" "answer_receiving_phrases s = 0"
    "\<not> external_discussion s" "total_speakers s = 1" "stress_level s = 0"
    "deception_indicators_count s = 0" "\<not> potential_recording s"
    "\<not> is_trained c"
  shows "\<not> p_is_cheating (fst (predict_cheating sk c now s ue))
       \<and> p_risk_score (fst (predict_cheating sk c now s ue)) = 0
       \<and> p_probability (fst (predict_cheating sk c now s ue)) = 0
       \<and> p_model_used (fst (predict_cheating sk c now s ue)) = RuleBasedFallback"
proof -
  have sc: "rule_based_score s = (0, [])"
    using assms(1-7) by (rule rule_based_score_clean)
  have "fst (predict_cheating sk c now s ue) = get_rule_based_prediction now s"
    using assms(8) by (simp add: predict_untrained)
  then show ?thesis
    by (simp add: rbp_fields sc get_rule_based_prediction_def)
qed

theorem clean_sample_zero_risk_witness:
  "help_seeking_phrases CheatingSample_default = 0
   \<and> answer_receiving_phrases CheatingSample_default = 0
   \<and> \<not> external_discussion CheatingSample_default
   \<and> total_speakers CheatingSample_default = 1
   \<and> stress_level CheatingSample_default = 0
   \<and> deception_indicators_count CheatingSample_default = 0
   \<and> \<not> potential_recording CheatingSample_default
   \<and> \<not> is_trained untrained_classifier
   \<and> \<not> p_is_cheating (fst (predict_cheating True untrained_classifier []
           CheatingSample_default True))
   \<and> p_risk_score (fst (predict_cheating True untrained_classifier []
           CheatingSample_default True)) = 0"
proof -
  have h: "help_seeking_phrases CheatingSample_default = 0"
    "answer_receiving_phrases CheatingSample_default = 0"
    "\<not> external_discussion CheatingSample_default"
    "total_speakers CheatingSample_default = 1"
    "stress_level CheatingSample_default = 0"
    "deception_indicators_count CheatingSample_default = 0"
    "\<not> potential_recording CheatingSample_default"
    by (simp_all add: CheatingSample_default_def)
  have u: "\<not> is_trained untrained_classifier"
    by (simp add: untrained_classifier_def)
  show ?thesis
    using h u clean_sample_zero_risk[OF h u, of True "[]" True]
    by simp
qed

subsection \<open>Loading persisted classifier state\<close>

text \<open>
  C4 (as stated in the specification): loading a blob whose stored feature-name list
  differs from the classifier's 20-feature schema must be rejected. The code does not
  do so: the blob below, with two feature names, is installed, the classifier counts as
  trained, and the next prediction is made by the loaded ensemble.
\<close>

theorem load_model_mismatch_accepted:
  "md_feature_names mismatched_blob \<noteq> feature_names untrained_classifier
   \<and> load_model True untrained_classifier (Inr mismatched_blob) = Inr mismatched_classifier
   \<and> is_trained mismatched_classifier
   \<and> feature_names mismatched_classifier = [''potential_recording'', ''speech_ratio'']
   \<and> p_model_used (fst (predict_cheating True mismatched_classifier []
         CheatingSample_default True)) = Ensemble
   \<and> p_probability (fst (predict_cheating True mismatched_classifier []
         CheatingSample_default True)) = 9 / 10"
  by (simp add: load_model_def mismatched_blob_def mismatched_classifier_def
      untrained_classifier_def get_feature_names_def predict_cheating_def
      trained_prediction_def call_model_def get_contributing_factors_def Let_def)

text \<open>
  C4 (amended): \<^verbatim>\<open>load_model\<close> performs no check of the stored feature names.
  With scikit-learn available and a readable blob it always succeeds: it installs the
  stored models, scaler, metrics, importances and feature-name list (replacing the
  classifier's own list) and marks the classifier as trained. It fails only when
  scikit-learn is unavailable (\<^verbatim>\<open>ImportError\<close>) or when reading the blob raises, in
  which case that error is re-raised.
\<close>

theorem load_model_installs_blob:
  "(\<exists>c'. load_model True c (Inr md) = Inr c'
         \<and> is_trained c' \<and> feature_names c' = md_feature_names md
         \<and> rf_model c' = md_rf_model md \<and> gb_model c' = md_gb_model md
         \<and> lr_model c' = md_lr_model md \<and> feature_scaler c' = md_feature_scaler md
         \<and> model_metrics c' = md_model_metrics md
         \<and> feature_importance c' = md_feature_importance md
         \<and> training_samples c' = training_samples c
         \<and> prediction_history c' = prediction_history c)
   \<and> load_model False c loaded = Inl ImportError
   \<and> load_model True c (Inl e) = Inl e"
  by (simp add: load_model_def)

theorem load_model_installs_blob_witness:
  "(\<exists>c'. load_model True untrained_classifier (Inr mismatched_blob) = Inr c'
         \<and> is_trained c'
         \<and> feature_names c' = [''potential_recording'', ''speech_ratio''])
   \<and> load_model False untrained_classifier (Inr mismatched_blob) = Inl ImportError
   \<and> load_model True untrained_classifier (Inl LoadError) = Inl LoadError"
  using load_model_installs_blob[of untrained_classifier mismatched_blob
      "Inr mismatched_blob" LoadError]
  by (auto simp: mismatched_blob_def)

subsection \<open>Session summary of the voice processor\<close>





subsection \<open>Empty input\<close>

lemma content_empty:
  "analyze_content U [] =
     \<lparr> ca_question_reading_detected = False, ca_help_seeking_phrases = 0,
       ca_answer_receiving_phrases = 0, ca_external_discussion = False,
       ca_suspicious_phrase_details = [] \<rparr>"
  by (simp add: analyze_content_def)

lemma speech_empty:
  "analyze_speech_patterns py_sum [] =
     \<lparr> spt_speech_rate = Fin 0, spt_pause_frequency = 0, spt_average_pause_duration = 0,
       spt_speech_consistency = 0 \<rparr>"
  by (simp add: analyze_speech_patterns_def)

lemma quality_empty:
  "analyze_audio_quality librosa [] =
     \<lparr> aq_background_noise_level = Some 0, aq_audio_quality_score = 1,
       aq_potential_recording = False, aq_snr = None \<rparr>"
  by (simp add: analyze_audio_quality_def)

lemma temporal_empty:
  "analyze_temporal_patterns [] =
     \<lparr> tp_unusual_silence_periods = 0, tp_rapid_speech_bursts = 0,
       tp_inconsistent_volume = False \<rparr>"
  by (simp add: analyze_temporal_patterns_def)

lemma score_empty:
  "behavioral_score (empty_metrics0 now)
     = (2 / 10, [UnusualSpeechRate (Fin 0), InconsistentSpeechPatterns])"
  by (simp add: behavioral_score_def rule_def empty_metrics0_def flt_def)

lemma deque_append_last:
  "last (deque_append 1000 xs x) = x" "deque_append 1000 xs x \<noteq> []"
  by (simp_all add: deque_append_def)

lemma analyze_behavior_empty:
  "fst (analyze_behavior ba U librosa py_sum now [] [] [] [])
     = (empty_metrics0 now)\<lparr> bm_overall_confidence := 8 / 10 \<rparr>"
  unfolding analyze_behavior_def Let_def content_empty speech_empty quality_empty temporal_empty
  by (simp add: calculate_overall_risk_score_def score_empty[unfolded empty_metrics0_def]
      empty_metrics0_def)

lemma analyze_behavior_empty_risk:
  "latest_risk (snd (analyze_behavior ba U librosa py_sum now [] [] [] []))
     = Some (2 / 10, [UnusualSpeechRate (Fin 0), InconsistentSpeechPatterns])"
  unfolding analyze_behavior_def Let_def content_empty speech_empty quality_empty temporal_empty
  by (simp add: calculate_overall_risk_score_def score_empty[unfolded empty_metrics0_def]
      latest_risk_def deque_append_last)

text \<open>
  C3, evaluated on the code. On all-empty input (empty buffer, empty transcription,
  no segments, no voice events) \<^verbatim>\<open>analyze_behavior\<close> returns without raising, but
  with risk 0.2 and overall confidence 0.8: the neutral speech rate 0 and consistency 0
  trigger the rules for an unusual speech rate and for inconsistent speech.
  \<^verbatim>\<open>_get_basic_prosodic_features\<close> raises \<^verbatim>\<open>ZeroDivisionError\<close> on an empty
  buffer, so the emotion feature extraction without librosa raises, and
  \<^verbatim>\<open>analyze_emotion_async\<close> answers with its failure result of risk 0.5.
\<close>

theorem empty_input_not_neutral:
  "bm_overall_confidence
     (fst (analyze_behavior new_behavioral_analyzer ascii_db None sum_left [] [] [] [] [])) = 8 / 10
   \<and> latest_risk (snd (analyze_behavior new_behavioral_analyzer ascii_db None sum_left [] [] [] [] []))
       = Some (2 / 10, [UnusualSpeechRate (Fin 0), InconsistentSpeechPatterns])
   \<and> get_basic_prosodic_features [] = Inl ZeroDivisionError
   \<and> extract_emotional_features (em_backends emotion_analyzer_without_backends) 16000 [] []
       = Inl ZeroDivisionError
   \<and> ea_overall_risk_score
       (fst (analyze_emotion_async emotion_analyzer_without_backends [] [] [])) = 5 / 10
   \<and> ea_suspicious_indicators
       (fst (analyze_emotion_async emotion_analyzer_without_backends [] [] []))
       = [AnalysisFailed]"
  by (simp add: analyze_behavior_empty analyze_behavior_empty_risk empty_metrics0_def
      get_basic_prosodic_features_def extract_emotional_features_def
      extract_prosodic_features_def emotion_analyzer_without_backends_def
      analyze_emotion_async_def)

subsection \<open>Speaker detection without a diarization model\<close>

text \<open>
  C6, evaluated on the code. With the diarization model not loaded,
  \<^verbatim>\<open>analyze_audio_async\<close> does not return the energy-variance fallback: it returns
  the empty analysis of \<^verbatim>\<open>analyze_speaker_patterns\<close> (no speakers, confidence 0, no
  fallback mark). \<^verbatim>\<open>get_fallback_analysis\<close>, which on the same buffer gives one
  speaker with confidence 0.4 and the fallback mark, is not called.
\<close>

theorem no_fallback_without_model:
  "\<not> sd_model_loaded detector_without_model
   \<and> fst (analyze_audio_async detector_without_model [] constant_audio ''s1'') =
       \<lparr> sr_total_speakers = 0, sr_primary_speaker_ratio = 1,
         sr_speaker_switches = 0, sr_overlapping_speech_duration = 0,
         sr_speaker_segments = [], sr_suspicious_patterns = [],
         sr_confidence_score = 0, sr_analysis_timestamp = [],
         sr_session_id = Some ''s1'', sr_fallback = False \<rparr>
   \<and> get_fallback_analysis [] constant_audio =
       Inr \<lparr> sr_total_speakers = 1, sr_primary_speaker_ratio = 8 / 10,
             sr_speaker_switches = 0, sr_overlapping_speech_duration = 0,
             sr_speaker_segments = [], sr_suspicious_patterns = [],
             sr_confidence_score = 4 / 10, sr_analysis_timestamp = [],
             sr_session_id = None, sr_fallback = True \<rparr>"
  by (simp add: analyze_audio_async_def detector_without_model_def Let_def
      perform_speaker_diarization_def analyze_speaker_patterns_def
      get_fallback_analysis_def constant_audio_def chunk_energy_def np_mean_def np_std_def)

subsection \<open>Sessions and the shared voice processor\<close>

lemma process_audio_chunk_other_session:
  "sid' \<noteq> sid \<Longrightarrow>
     active_sessions (snd (process_audio_chunk b64decode now mgr sid audio_data)) sid'
       = active_sessions mgr sid'"
  by (simp add: process_audio_chunk_def split: option.splits prod.splits)

lemma manager_AB_fields:
  "active_sessions manager_AB ''A'' = Some (session_start (VoiceSession_init ''A'') 0)"
  "active_sessions manager_AB ''B'' = Some (session_start (VoiceSession_init ''B'') 0)"
  "voice_processor manager_AB = VoiceProcessor_init None None"
  by (simp_all add: manager_AB_def start_voice_session_def new_manager_def)

lemma b64decode_example_chunks:
  "b64decode_example alternating_chunk = Some [1, 0, 255, 255, 1, 0, 255, 255]"
  "b64decode_example steady_chunk = Some [1, 0, 1, 0]"
  by (simp_all add: b64decode_example_def alternating_chunk_def steady_chunk_def)

lemma decode_chunks:
  "frombuffer_int16 [1, 0, 255, 255, 1, 0, 255, 255] = Inr [1, - 1, 1, - 1]"
  "frombuffer_int16 [1, 0, 1, 0] = Inr [1, 1]"
  by (simp_all add: int16_of_def)

lemma analyze_alternating_chunk:
  "analyze_audio_chunk (VoiceProcessor_init None None) [] [1, 0, 255, 255, 1, 0, 255, 255] =
     Inr (\<lparr> a_is_speech = False, a_silero_probability = 0, a_webrtc_detected = False,
            a_rms_energy = Some (1 / 32768), a_zero_crossing_rate = Some (3 / 4),
            a_audio_length_seconds = 4 / 16000, a_timestamp = [] \<rparr>,
          processor_after_A)"
  by (simp add: analyze_audio_chunk_def int16_of_def normalize_int16_def sign_changes_def
      np_sign_def np_mean_def rms_of_def Let_def VoiceProcessor_init_def
      detect_voice_activity_silero_def detect_voice_activity_webrtc_def
      detect_suspicious_patterns_def suspicious_indicators_of_def nan_less_def nan_greater_def
      real_sqrt_divide power_divide processor_after_A_def)

lemma analyze_steady_chunk:
  "analyze_audio_chunk processor_after_A [] [1, 0, 1, 0] =
     Inr (\<lparr> a_is_speech = False, a_silero_probability = 0, a_webrtc_detected = False,
            a_rms_energy = Some (1 / 32768), a_zero_crossing_rate = Some 0,
            a_audio_length_seconds = 2 / 16000, a_timestamp = [] \<rparr>,
          processor_after_A\<lparr> vp_total_silence_time := 6 / 16000 \<rparr>)"
  by (simp add: analyze_audio_chunk_def int16_of_def normalize_int16_def sign_changes_def
      np_sign_def np_mean_def rms_of_def Let_def VoiceProcessor_init_def
      detect_voice_activity_silero_def detect_voice_activity_webrtc_def
      detect_suspicious_patterns_def suspicious_indicators_of_def nan_less_def nan_greater_def
      real_sqrt_divide power_divide processor_after_A_def)

lemma manager_after_A_fields:
  "voice_processor manager_after_A = processor_after_A"
  "active_sessions manager_after_A ''B'' = Some (session_start (VoiceSession_init ''B'') 0)"
  by (simp_all add: manager_after_A_def process_audio_chunk_def manager_AB_fields
      session_process_audio_def session_start_def VoiceSession_init_def
      b64decode_example_chunks analyze_alternating_chunk Let_def
      int16_of_def normalize_int16_def del: One_nat_def)

lemma manager_after_B_outbox:
  "map_option vs_outbox (active_sessions manager_after_B ''B'') =
     Some [VoiceSessionStarted ''B'' 0,
           VoiceActivity False 0 (Some (1 / 32768)) [],
           VoiceWarning [high_distortion] []]"
proof -
  have fb: "\<And>x a. realtime_feedback (processor_after_A\<lparr> vp_total_silence_time := x \<rparr>) a
      = [VoiceActivity (a_is_speech a) (a_silero_probability a) (a_rms_energy a)
           (a_timestamp a),
         VoiceWarning [high_distortion] []]"
    by (simp add: realtime_feedback_def processor_after_A_def)
  show ?thesis
    unfolding manager_after_B_def process_audio_chunk_def manager_after_A_fields
      session_process_audio_def b64decode_example_chunks
    by (simp add: analyze_steady_chunk fb session_start_def VoiceSession_init_def
        int16_of_def normalize_int16_def Let_def del: One_nat_def)
qed

text \<open>
  C9, evaluated on the code. Sessions \<open>A\<close> and \<open>B\<close> are active. Processing one chunk
  for \<open>A\<close> leaves the session object of \<open>B\<close> unchanged, but the silence counter and
  the list of suspicious events that \<open>B\<close> reads are those of the one processor of the
  manager, and both change. The next chunk of \<open>B\<close>, which raises no suspicion itself,
  makes \<open>B\<close> send a warning with the indicators of the chunk of \<open>A\<close>.
\<close>

theorem shared_processor_leaks_between_sessions:
  "sv_total_silence_time (view_of manager_AB ''B'') = 0
   \<and> sv_suspicious_events (view_of manager_AB ''B'') = []
   \<and> sv_session (view_of manager_after_A ''B'') = sv_session (view_of manager_AB ''B'')
   \<and> sv_total_silence_time (view_of manager_after_A ''B'') = 4 / 16000
   \<and> map se_indicators (sv_suspicious_events (view_of manager_after_A ''B''))
       = [[high_distortion]]
   \<and> view_of manager_after_A ''B'' \<noteq> view_of manager_AB ''B''
   \<and> map_option vs_outbox (active_sessions manager_after_B ''B'') =
       Some [VoiceSessionStarted ''B'' 0,
             VoiceActivity False 0 (Some (1 / 32768)) [],
             VoiceWarning [high_distortion] []]"
proof -
  have v0: "sv_total_silence_time (view_of manager_AB ''B'') = 0"
    "sv_suspicious_events (view_of manager_AB ''B'') = []"
    by (simp_all add: view_of_def manager_AB_fields VoiceProcessor_init_def)
  have v1: "sv_total_silence_time (view_of manager_after_A ''B'') = 4 / 16000"
    "map se_indicators (sv_suspicious_events (view_of manager_after_A ''B''))
       = [[high_distortion]]"
    "sv_session (view_of manager_after_A ''B'') = sv_session (view_of manager_AB ''B'')"
    by (simp_all add: view_of_def manager_after_A_fields manager_AB_fields
        processor_after_A_def VoiceProcessor_init_def)
  have "sv_total_silence_time (view_of manager_after_A ''B'')
      \<noteq> sv_total_silence_time (view_of manager_AB ''B'')"
    by (simp add: v0 v1)
  then have ne: "view_of manager_after_A ''B'' \<noteq> view_of manager_AB ''B''"
    by auto
  show ?thesis
    using v0 v1 ne manager_after_B_outbox by simp
qed

subsection \<open>Ranges of scores, probabilities and confidences\<close>

lemma rule_nonneg: "0 \<le> w \<Longrightarrow> 0 \<le> fst acc \<Longrightarrow> 0 \<le> fst (rule c w f acc)"
  by (simp add: rule_def)

lemma behavioral_score_nonneg: "0 \<le> fst (behavioral_score m)"
  unfolding behavioral_score_def by (intro rule_nonneg) simp_all

lemma overall_risk_bounds:
  "0 \<le> fst (calculate_overall_risk_score m)" "fst (calculate_overall_risk_score m) \<le> 1"
  using behavioral_score_nonneg[of m] by (simp_all add: calculate_overall_risk_score_def)

lemma analyze_behavior_confidence:
  "\<exists>m0. bm_overall_confidence (fst (analyze_behavior ba U librosa py_sum now audio t segs evs))
      = 1 - fst (calculate_overall_risk_score m0)"
  by (simp add: analyze_behavior_def Let_def) blast

lemma behavior_confidence_bounds:
  "0 \<le> bm_overall_confidence (fst (analyze_behavior ba U librosa py_sum now audio t segs evs))"
  "bm_overall_confidence (fst (analyze_behavior ba U librosa py_sum now audio t segs evs)) \<le> 1"
proof -
  obtain m0 where e:
    "bm_overall_confidence (fst (analyze_behavior ba U librosa py_sum now audio t segs evs))
      = 1 - fst (calculate_overall_risk_score m0)"
    using analyze_behavior_confidence by blast
  show "0 \<le> bm_overall_confidence (fst (analyze_behavior ba U librosa py_sum now audio t segs evs))"
    using overall_risk_bounds[of m0] e by simp
  show "bm_overall_confidence (fst (analyze_behavior ba U librosa py_sum now audio t segs evs)) \<le> 1"
    using overall_risk_bounds[of m0] e by simp
qed

lemma diarization_confidence_bounds:
  "0 \<le> calculate_diarization_confidence sp sw pr"
  "calculate_diarization_confidence sp sw pr \<le> 1"
  by (simp_all add: calculate_diarization_confidence_def Let_def)

lemma speaker_confidence_bounds:
  "0 \<le> sr_confidence_score (analyze_speaker_patterns now d)"
  "sr_confidence_score (analyze_speaker_patterns now d) \<le> 1"
  by (simp_all add: analyze_speaker_patterns_def Let_def diarization_confidence_bounds
      split: option.splits)

lemma fallback_confidence:
  "get_fallback_analysis now a = Inr r \<Longrightarrow> sr_confidence_score r = 4 / 10"
  by (auto simp: get_fallback_analysis_def Let_def split: if_splits)

lemma rule_based_bounds:
  "0 \<le> p_risk_score (get_rule_based_prediction now s)"
  "p_risk_score (get_rule_based_prediction now s) \<le> 1"
  "0 \<le> p_probability (get_rule_based_prediction now s)"
  "p_probability (get_rule_based_prediction now s) \<le> 1"
  "0 \<le> p_confidence (get_rule_based_prediction now s)"
  "p_confidence (get_rule_based_prediction now s) \<le> 1"
  using rule_based_score_nonneg[of s] by (simp_all add: rbp_fields max_def min_def)

lemma calculate_risk_score_bounds:
  "0 \<le> p \<Longrightarrow> p \<le> 1 \<Longrightarrow> 0 \<le> calculate_risk_score s p \<and> calculate_risk_score s p \<le> 1"
  by (simp add: calculate_risk_score_def Let_def min_def)

lemma call_model_bounded:
  assumes "call_model m row = Inr v"
    "\<forall>f r x. m = Some f \<longrightarrow> f r = Some x \<longrightarrow> 0 \<le> x \<and> x \<le> 1"
  shows "0 \<le> v \<and> v \<le> 1"
  using assms by (auto simp: call_model_def split: option.splits)

lemma trained_prediction_bounds:
  assumes tp: "trained_prediction c now s ue = Inr p"
    and rf: "\<forall>f r x. rf_model c = Some f \<longrightarrow> f r = Some x \<longrightarrow> 0 \<le> x \<and> x \<le> 1"
    and gb: "\<forall>f r x. gb_model c = Some f \<longrightarrow> f r = Some x \<longrightarrow> 0 \<le> x \<and> x \<le> 1"
    and lr: "\<forall>f r x. lr_model c = Some f \<longrightarrow> f r = Some x \<longrightarrow> 0 \<le> x \<and> x \<le> 1"
  shows "0 \<le> p_probability p \<and> p_probability p \<le> 1
       \<and> 0 \<le> p_risk_score p \<and> p_risk_score p \<le> 1
       \<and> 0 \<le> p_confidence p \<and> p_confidence p \<le> 1"
proof -
  from tp obtain tr fs a b d where
    sc: "feature_scaler c = Some tr" "tr (sample_to_features s) = Some fs"
    and ca: "call_model (rf_model c) fs = Inr a"
    and cb: "call_model (gb_model c) fs = Inr b"
    and cd: "call_model (lr_model c) fs = Inr d"
    and p: "p_probability p = (if ue then a * (4 / 10) + b * (4 / 10) + d * (2 / 10) else a)"
       "p_risk_score p = calculate_risk_score s (p_probability p)"
       "p_confidence p = max (p_probability p) (1 - p_probability p)"
    by (auto simp: trained_prediction_def Let_def split: option.splits sum.splits)
  have A: "0 \<le> a \<and> a \<le> 1" using call_model_bounded[OF ca rf] .
  have B: "0 \<le> b \<and> b \<le> 1" using call_model_bounded[OF cb gb] .
  have D: "0 \<le> d \<and> d \<le> 1" using call_model_bounded[OF cd lr] .
  have P: "0 \<le> p_probability p \<and> p_probability p \<le> 1"
    using A B D p(1) by auto
  show ?thesis
    using P calculate_risk_score_bounds[of "p_probability p" s] p(2,3) by auto
qed

lemma predict_cheating_bounds:
  assumes rf: "\<forall>f r x. rf_model c = Some f \<longrightarrow> f r = Some x \<longrightarrow> 0 \<le> x \<and> x \<le> 1"
    and gb: "\<forall>f r x. gb_model c = Some f \<longrightarrow> f r = Some x \<longrightarrow> 0 \<le> x \<and> x \<le> 1"
    and lr: "\<forall>f r x. lr_model c = Some f \<longrightarrow> f r = Some x \<longrightarrow> 0 \<le> x \<and> x \<le> 1"
  shows "0 \<le> p_probability (fst (predict_cheating sk c now s ue))
       \<and> p_probability (fst (predict_cheating sk c now s ue)) \<le> 1
       \<and> 0 \<le> p_risk_score (fst (predict_cheating sk c now s ue))
       \<and> p_risk_score (fst (predict_cheating sk c now s ue)) \<le> 1
       \<and> 0 \<le> p_confidence (fst (predict_cheating sk c now s ue))
       \<and> p_confidence (fst (predict_cheating sk c now s ue)) \<le> 1"
proof (cases "\<not> is_trained c \<or> \<not> sk")
  case True
  then have "fst (predict_cheating sk c now s ue) = get_rule_based_prediction now s"
    by (auto simp: predict_cheating_def)
  then show ?thesis using rule_based_bounds[of now s] by simp
next
  case False
  show ?thesis
  proof (cases "trained_prediction c now s ue")
    case (Inl e)
    then have "fst (predict_cheating sk c now s ue) = get_rule_based_prediction now s"
      using False by (auto simp: predict_cheating_def)
    then show ?thesis using rule_based_bounds[of now s] by simp
  next
    case (Inr p)
    then have "fst (predict_cheating sk c now s ue) = p"
      using False by (auto simp: predict_cheating_def)
    then show ?thesis using trained_prediction_bounds[OF Inr rf gb lr] by simp
  qed
qed

lemma predict_cheating_breakdown:
  "p_risk_breakdown (fst (predict_cheating sk c now s ue)) = get_risk_breakdown s"
  by (auto simp: predict_cheating_def trained_prediction_def Let_def rbp_fields
      split: option.splits sum.splits)

lemma breakdown_upper:
  "content_risk (get_risk_breakdown s) \<le> 1" "speaker_risk (get_risk_breakdown s) \<le> 1"
  "emotion_risk (get_risk_breakdown s) \<le> 1" "quality_risk (get_risk_breakdown s) \<le> 1"
  "behavioral_risk (get_risk_breakdown s) \<le> 1" "0 \<le> speaker_risk (get_risk_breakdown s)"
  by (simp_all add: get_risk_breakdown_def)

lemma breakdown_lower:
  "0 \<le> help_seeking_phrases s + answer_receiving_phrases s
     \<Longrightarrow> 0 \<le> content_risk (get_risk_breakdown s)"
  "0 \<le> stress_level s + anxiety_level s \<Longrightarrow> 0 \<le> emotion_risk (get_risk_breakdown s)"
  "audio_quality_score s \<le> 1 \<Longrightarrow> 0 \<le> quality_risk (get_risk_breakdown s)"
  "0 \<le> pause_frequency s \<Longrightarrow> 0 \<le> behavioral_risk (get_risk_breakdown s)"
  by (simp_all add: get_risk_breakdown_def float_of_bool_def)

lemma np_mean_nonneg: "(\<And>x. x \<in> set xs \<Longrightarrow> 0 \<le> x) \<Longrightarrow> 0 \<le> np_mean xs"
  by (simp add: np_mean_def sum_list_nonneg)

lemma np_std_nonneg: "0 \<le> np_std xs"
  unfolding np_std_def by (rule real_sqrt_ge_zero, rule np_mean_nonneg) auto

lemma np_mean_sq_nonneg: "0 \<le> np_mean (map (\<lambda>x. x\<^sup>2) a)"
  by (rule np_mean_nonneg) auto

lemma basic_prosodic_nonneg:
  "get_basic_prosodic_features a = Inr p \<Longrightarrow> 0 \<le> pr_energy_std p \<and> 0 \<le> pr_jitter p"
  by (auto simp: get_basic_prosodic_features_def Let_def np_mean_sq_nonneg split: if_splits)

lemma calculate_jitter_nonneg: "0 \<le> calculate_jitter xs"
  by (simp add: calculate_jitter_def np_std_nonneg)

lemma prosodic_nonneg:
  "extract_prosodic_features be a = Inr p \<Longrightarrow> 0 \<le> pr_energy_std p \<and> 0 \<le> pr_jitter p"
  by (auto simp: extract_prosodic_features_def Let_def np_std_nonneg calculate_jitter_nonneg
      dest: basic_prosodic_nonneg split: option.splits if_splits)

lemma features_nonneg:
  "extract_emotional_features be sr a sg = Inr f \<Longrightarrow> 0 \<le> energy_std f \<and> 0 \<le> jitter f"
  by (auto simp: extract_emotional_features_def dest: prosodic_nonneg split: sum.splits)

lemma prob_get_nonneg:
  "(\<And>x. x \<in> snd ` set ps \<Longrightarrow> 0 \<le> x) \<Longrightarrow> 0 \<le> prob_get ps e"
  by (auto simp: prob_get_def split: option.splits dest!: map_of_SomeD) force

lemma stress_upper: "calculate_stress_level f ps \<le> 1"
  by (simp add: calculate_stress_level_def)

lemma anxiety_upper: "calculate_anxiety_level f ps \<le> 1"
  by (simp add: calculate_anxiety_level_def)

lemma stress_lower:
  assumes "\<And>x. x \<in> snd ` set ps \<Longrightarrow> 0 \<le> x"
  shows "0 \<le> calculate_stress_level f ps"
proof -
  have "0 \<le> prob_get ps angry" "0 \<le> prob_get ps fear" "0 \<le> prob_get ps sad"
    using assms by (auto intro!: prob_get_nonneg)
  then show ?thesis by (simp add: calculate_stress_level_def)
qed

lemma anxiety_lower:
  assumes "\<And>x. x \<in> snd ` set ps \<Longrightarrow> 0 \<le> x"
  shows "0 \<le> calculate_anxiety_level f ps"
proof -
  have "0 \<le> prob_get ps surprise" "0 \<le> prob_get ps fear" "0 \<le> prob_get ps sad"
    using assms by (auto intro!: prob_get_nonneg)
  then show ?thesis by (simp add: calculate_anxiety_level_def)
qed

lemma risk_upper: "calculate_emotional_risk_score p \<le> 1"
  by (simp add: calculate_emotional_risk_score_def)

lemma risk_lower:
  assumes "\<And>x. x \<in> snd ` set (ep_probabilities p) \<Longrightarrow> 0 \<le> x"
    "0 \<le> ep_stress_level p" "0 \<le> ep_anxiety_level p"
  shows "0 \<le> calculate_emotional_risk_score p"
proof -
  have "0 \<le> prob_get (ep_probabilities p) angry" "0 \<le> prob_get (ep_probabilities p) fear"
    using assms(1) by (auto intro!: prob_get_nonneg)
  then show ?thesis using assms(2,3) by (simp add: calculate_emotional_risk_score_def)
qed

lemma fallback_prediction_props:
  "ep_stress_level (get_fallback_emotion_prediction f) \<le> 1"
  "ep_anxiety_level (get_fallback_emotion_prediction f) \<le> 1"
  "ep_confidence (get_fallback_emotion_prediction f) = 6 / 10"
  "0 \<le> energy_std f \<Longrightarrow> 0 \<le> ep_stress_level (get_fallback_emotion_prediction f)"
  "0 \<le> jitter f \<Longrightarrow> 0 \<le> ep_anxiety_level (get_fallback_emotion_prediction f)"
  "x \<in> snd ` set (ep_probabilities (get_fallback_emotion_prediction f)) \<Longrightarrow> 0 \<le> x"
  by (auto simp: get_fallback_emotion_prediction_def Let_def emotions_def)

lemma argmax_from_bound: "best_i < i \<Longrightarrow> argmax_from i best_i best xs < i + length xs"
proof (induction xs arbitrary: i best_i best)
  case Nil
  then show ?case by simp
next
  case (Cons a xs)
  have 1: "argmax_from (Suc i) i a xs < Suc i + length xs"
    using Cons.IH[of i "Suc i" a] by simp
  have 2: "argmax_from (Suc i) best_i best xs < Suc i + length xs"
    using Cons.IH[of best_i "Suc i" best] Cons.prems by simp
  show ?case using 1 2 by simp
qed

lemma argmax_bound: "xs \<noteq> [] \<Longrightarrow> argmax xs < length xs"
  using argmax_from_bound[of 0 1] by (cases xs) (auto simp: argmax_def)

lemma predict_emotion_props:
  assumes m: "\<forall>g feats ps x. emotion_model be = Some g \<longrightarrow> g feats = Some ps
                \<longrightarrow> x \<in> set ps \<longrightarrow> 0 \<le> x \<and> x \<le> 1"
    and f: "0 \<le> energy_std f" "0 \<le> jitter f"
  shows "0 \<le> ep_stress_level (predict_emotion be f) \<and> ep_stress_level (predict_emotion be f) \<le> 1
       \<and> 0 \<le> ep_anxiety_level (predict_emotion be f) \<and> ep_anxiety_level (predict_emotion be f) \<le> 1
       \<and> 0 \<le> ep_confidence (predict_emotion be f) \<and> ep_confidence (predict_emotion be f) \<le> 1
       \<and> (\<forall>x \<in> snd ` set (ep_probabilities (predict_emotion be f)). 0 \<le> x)"
proof -
  have fb: "?thesis" if "predict_emotion be f = get_fallback_emotion_prediction f"
    using that f fallback_prediction_props[where f=f] by auto
  show ?thesis
  proof (cases "emotion_model be")
    case None
    then show ?thesis by (intro fb) (simp add: predict_emotion_def)
  next
    case (Some g)
    show ?thesis
    proof (cases "g f")
      case None
      then show ?thesis using Some by (intro fb) (simp add: predict_emotion_def)
    next
      case (Some ps)
      note gs = \<open>emotion_model be = Some g\<close> Some
      have pos: "\<And>x. x \<in> set ps \<Longrightarrow> 0 \<le> x \<and> x \<le> 1" using m gs by blast
      show ?thesis
      proof (cases "length ps < length emotions \<or> argmax ps \<ge> length emotions")
        case True
        then show ?thesis using gs by (intro fb) (auto simp: predict_emotion_def Let_def)
      next
        case False
        then have ne: "ps \<noteq> []" by (auto simp: emotions_def)
        have zp: "\<And>x. x \<in> snd ` set (zip emotions ps) \<Longrightarrow> 0 \<le> x"
          using pos by (auto dest: set_zip_rightD)
        have idx: "ps ! argmax ps \<in> set ps" using argmax_bound[OF ne] by simp
        have e: "predict_emotion be f =
            \<lparr> ep_emotion = emotions ! argmax ps, ep_confidence = ps ! argmax ps,
              ep_probabilities = zip emotions ps,
              ep_stress_level = calculate_stress_level f (zip emotions ps),
              ep_anxiety_level = calculate_anxiety_level f (zip emotions ps),
              ep_deception_indicators = identify_deception_indicators f (zip emotions ps) \<rparr>"
          using False gs by (simp add: predict_emotion_def Let_def)
        show ?thesis
          unfolding e
          using stress_upper[of f "zip emotions ps"] anxiety_upper[of f "zip emotions ps"]
            stress_lower[of "zip emotions ps" f, OF zp] anxiety_lower[of "zip emotions ps" f, OF zp]
            pos[OF idx] zp
          by auto
      qed
    qed
  qed
qed

lemma emotion_analysis_bounds:
  assumes m: "\<forall>g feats ps x. emotion_model (em_backends em) = Some g \<longrightarrow> g feats = Some ps
                \<longrightarrow> x \<in> set ps \<longrightarrow> 0 \<le> x \<and> x \<le> 1"
  shows "0 \<le> ea_overall_risk_score (fst (analyze_emotion_async em now a sg))
       \<and> ea_overall_risk_score (fst (analyze_emotion_async em now a sg)) \<le> 1
       \<and> 0 \<le> ep_stress_level (ea_predictions (fst (analyze_emotion_async em now a sg)))
       \<and> ep_stress_level (ea_predictions (fst (analyze_emotion_async em now a sg))) \<le> 1
       \<and> 0 \<le> ep_anxiety_level (ea_predictions (fst (analyze_emotion_async em now a sg)))
       \<and> ep_anxiety_level (ea_predictions (fst (analyze_emotion_async em now a sg))) \<le> 1
       \<and> 0 \<le> ep_confidence (ea_predictions (fst (analyze_emotion_async em now a sg)))
       \<and> ep_confidence (ea_predictions (fst (analyze_emotion_async em now a sg))) \<le> 1"
proof (cases "extract_emotional_features (em_backends em) (em_sample_rate em) a sg")
  case (Inl e)
  then show ?thesis by (simp add: analyze_emotion_async_def)
next
  case (Inr f)
  have fn: "0 \<le> energy_std f" "0 \<le> jitter f" using features_nonneg[OF Inr] by auto
  let ?p = "predict_emotion (em_backends em) f"
  have pp: "0 \<le> ep_stress_level ?p \<and> ep_stress_level ?p \<le> 1
       \<and> 0 \<le> ep_anxiety_level ?p \<and> ep_anxiety_level ?p \<le> 1
       \<and> 0 \<le> ep_confidence ?p \<and> ep_confidence ?p \<le> 1
       \<and> (\<forall>x \<in> snd ` set (ep_probabilities ?p). 0 \<le> x)"
    using predict_emotion_props[OF m fn] .
  have rl: "0 \<le> calculate_emotional_risk_score ?p"
    using pp by (intro risk_lower) auto
  show ?thesis
    using Inr pp rl risk_upper[of ?p] by (simp add: analyze_emotion_async_def Let_def)
qed


text \<open>
  C7 (as stated in the specification): every entry of the risk breakdown lies in
  \<open>[0, 1]\<close> for arbitrary field values of the sample. The entries are clamped from
  above only: a sample with a negative pause frequency, or with an audio quality score
  above 1, gets a negative entry, also in the prediction of an untrained classifier.
\<close>

theorem risk_breakdown_negative_entry:
  "behavioral_risk (get_risk_breakdown sample_negative_pause) = - (1 / 2)
   \<and> behavioral_risk (p_risk_breakdown
        (fst (predict_cheating True untrained_classifier [] sample_negative_pause True)))
       < 0
   \<and> quality_risk (get_risk_breakdown sample_quality_above_one) = - 2"
  by (simp add: predict_cheating_breakdown get_risk_breakdown_def sample_negative_pause_def
      sample_quality_above_one_def CheatingSample_default_def float_of_bool_def)

text \<open>
  C7 (amended). For any input: the behavioural risk score and overall confidence, the
  speaker confidence score (0.4 for the fallback analysis), and the risk score,
  probability and confidence of the rule-based prediction lie in \<open>[0, 1]\<close>. When the
  probabilities returned by the trained models lie in \<open>[0, 1]\<close>, so do the risk score,
  probability and confidence of \<^verbatim>\<open>predict_cheating\<close>; when the probabilities returned
  by the emotion model lie in \<open>[0, 1]\<close>, so do the emotional risk, stress level, anxiety
  level and emotion confidence. Every entry of the risk breakdown is at most 1; the
  speaker entry is never negative, and the content, emotion, quality and behavioural
  entries are non-negative when, respectively, the two phrase counts have a
  non-negative sum, stress plus anxiety is non-negative, the audio quality score is at
  most 1, and the pause frequency is non-negative.
\<close>

theorem scores_within_unit_interval:
  "(0 \<le> fst (calculate_overall_risk_score m) \<and> fst (calculate_overall_risk_score m) \<le> 1)
   \<and> (0 \<le> bm_overall_confidence (fst (analyze_behavior ba U librosa py_sum now audio t segs evs))
      \<and> bm_overall_confidence (fst (analyze_behavior ba U librosa py_sum now audio t segs evs)) \<le> 1)
   \<and> (0 \<le> sr_confidence_score (analyze_speaker_patterns now d)
      \<and> sr_confidence_score (analyze_speaker_patterns now d) \<le> 1)
   \<and> (get_fallback_analysis now audio = Inr r \<longrightarrow> sr_confidence_score r = 4 / 10)
   \<and> (0 \<le> p_risk_score (get_rule_based_prediction now s)
      \<and> p_risk_score (get_rule_based_prediction now s) \<le> 1
      \<and> 0 \<le> p_probability (get_rule_based_prediction now s)
      \<and> p_probability (get_rule_based_prediction now s) \<le> 1
      \<and> 0 \<le> p_confidence (get_rule_based_prediction now s)
      \<and> p_confidence (get_rule_based_prediction now s) \<le> 1)
   \<and> ((\<forall>f row x. rf_model c = Some f \<longrightarrow> f row = Some x \<longrightarrow> 0 \<le> x \<and> x \<le> 1)
      \<and> (\<forall>f row x. gb_model c = Some f \<longrightarrow> f row = Some x \<longrightarrow> 0 \<le> x \<and> x \<le> 1)
      \<and> (\<forall>f row x. lr_model c = Some f \<longrightarrow> f row = Some x \<longrightarrow> 0 \<le> x \<and> x \<le> 1)
      \<longrightarrow> 0 \<le> p_probability (fst (predict_cheating sk c now s ue))
        \<and> p_probability (fst (predict_cheating sk c now s ue)) \<le> 1
        \<and> 0 \<le> p_risk_score (fst (predict_cheating sk c now s ue))
        \<and> p_risk_score (fst (predict_cheating sk c now s ue)) \<le> 1
        \<and> 0 \<le> p_confidence (fst (predict_cheating sk c now s ue))
        \<and> p_confidence (fst (predict_cheating sk c now s ue)) \<le> 1)
   \<and> (content_risk (p_risk_breakdown (fst (predict_cheating sk c now s ue))) \<le> 1
      \<and> speaker_risk (p_risk_breakdown (fst (predict_cheating sk c now s ue))) \<le> 1
      \<and> 0 \<le> speaker_risk (p_risk_breakdown (fst (predict_cheating sk c now s ue)))
      \<and> emotion_risk (p_risk_breakdown (fst (predict_cheating sk c now s ue))) \<le> 1
      \<and> quality_risk (p_risk_breakdown (fst (predict_cheating sk c now s ue))) \<le> 1
      \<and> behavioral_risk (p_risk_breakdown (fst (predict_cheating sk c now s ue))) \<le> 1)
   \<and> (0 \<le> help_seeking_phrases s + answer_receiving_phrases s \<longrightarrow>
        0 \<le> content_risk (p_risk_breakdown (fst (predict_cheating sk c now s ue))))
   \<and> (0 \<le> stress_level s + anxiety_level s \<longrightarrow>
        0 \<le> emotion_risk (p_risk_breakdown (fst (predict_cheating sk c now s ue))))
   \<and> (audio_quality_score s \<le> 1 \<longrightarrow>
        0 \<le> quality_risk (p_risk_breakdown (fst (predict_cheating sk c now s ue))))
   \<and> (0 \<le> pause_frequency s \<longrightarrow>
        0 \<le> behavioral_risk (p_risk_breakdown (fst (predict_cheating sk c now s ue))))
   \<and> ((\<forall>g feats ps x. emotion_model (em_backends em) = Some g \<longrightarrow> g feats = Some ps
          \<longrightarrow> x \<in> set ps \<longrightarrow> 0 \<le> x \<and> x \<le> 1)
      \<longrightarrow> 0 \<le> ea_overall_risk_score (fst (analyze_emotion_async em now audio segs))
        \<and> ea_overall_risk_score (fst (analyze_emotion_async em now audio segs)) \<le> 1
        \<and> 0 \<le> ep_stress_level (ea_predictions (fst (analyze_emotion_async em now audio segs)))
        \<and> ep_stress_level (ea_predictions (fst (analyze_emotion_async em now audio segs))) \<le> 1
        \<and> 0 \<le> ep_anxiety_level (ea_predictions (fst (analyze_emotion_async em now audio segs)))
        \<and> ep_anxiety_level (ea_predictions (fst (analyze_emotion_async em now audio segs))) \<le> 1
        \<and> 0 \<le> ep_confidence (ea_predictions (fst (analyze_emotion_async em now audio segs)))
        \<and> ep_confidence (ea_predictions (fst (analyze_emotion_async em now audio segs))) \<le> 1)"
proof (intro conjI impI)
  assume "(\<forall>f row x. rf_model c = Some f \<longrightarrow> f row = Some x \<longrightarrow> 0 \<le> x \<and> x \<le> 1)
      \<and> (\<forall>f row x. gb_model c = Some f \<longrightarrow> f row = Some x \<longrightarrow> 0 \<le> x \<and> x \<le> 1)
      \<and> (\<forall>f row x. lr_model c = Some f \<longrightarrow> f row = Some x \<longrightarrow> 0 \<le> x \<and> x \<le> 1)"
  then have pc: "0 \<le> p_probability (fst (predict_cheating sk c now s ue))
       \<and> p_probability (fst (predict_cheating sk c now s ue)) \<le> 1
       \<and> 0 \<le> p_risk_score (fst (predict_cheating sk c now s ue))
       \<and> p_risk_score (fst (predict_cheating sk c now s ue)) \<le> 1
       \<and> 0 \<le> p_confidence (fst (predict_cheating sk c now s ue))
       \<and> p_confidence (fst (predict_cheating sk c now s ue)) \<le> 1"
    by (intro predict_cheating_bounds) blast+
  show "0 \<le> p_probability (fst (predict_cheating sk c now s ue))"
    "p_probability (fst (predict_cheating sk c now s ue)) \<le> 1"
    "0 \<le> p_risk_score (fst (predict_cheating sk c now s ue))"
    "p_risk_score (fst (predict_cheating sk c now s ue)) \<le> 1"
    "0 \<le> p_confidence (fst (predict_cheating sk c now s ue))"
    "p_confidence (fst (predict_cheating sk c now s ue)) \<le> 1"
    using pc by simp_all
next
  assume m: "\<forall>g feats ps x. emotion_model (em_backends em) = Some g \<longrightarrow> g feats = Some ps
          \<longrightarrow> x \<in> set ps \<longrightarrow> 0 \<le> x \<and> x \<le> 1"
  note eb = emotion_analysis_bounds[OF m, of now audio segs]
  show "0 \<le> ea_overall_risk_score (fst (analyze_emotion_async em now audio segs))"
    "ea_overall_risk_score (fst (analyze_emotion_async em now audio segs)) \<le> 1"
    "0 \<le> ep_stress_level (ea_predictions (fst (analyze_emotion_async em now audio segs)))"
    "ep_stress_level (ea_predictions (fst (analyze_emotion_async em now audio segs))) \<le> 1"
    "0 \<le> ep_anxiety_level (ea_predictions (fst (analyze_emotion_async em now audio segs)))"
    "ep_anxiety_level (ea_predictions (fst (analyze_emotion_async em now audio segs))) \<le> 1"
    "0 \<le> ep_confidence (ea_predictions (fst (analyze_emotion_async em now audio segs)))"
    "ep_confidence (ea_predictions (fst (analyze_emotion_async em now audio segs))) \<le> 1"
    using eb by simp_all
qed (simp_all add: overall_risk_bounds behavior_confidence_bounds speaker_confidence_bounds
      fallback_confidence rule_based_bounds predict_cheating_breakdown breakdown_upper
      breakdown_lower)

theorem scores_within_unit_interval_witness:
  "0 \<le> fst (calculate_overall_risk_score (empty_metrics0 []))
   \<and> fst (calculate_overall_risk_score (empty_metrics0 [])) \<le> 1
   \<and> 0 \<le> p_probability (fst (predict_cheating True mismatched_classifier []
            sample_help_answer_two_speakers True))
   \<and> p_probability (fst (predict_cheating True mismatched_classifier []
            sample_help_answer_two_speakers True)) \<le> 1
   \<and> p_risk_score (fst (predict_cheating True mismatched_classifier []
            sample_help_answer_two_speakers True)) \<le> 1
   \<and> 0 \<le> help_seeking_phrases sample_help_answer_two_speakers
          + answer_receiving_phrases sample_help_answer_two_speakers
   \<and> 0 \<le> content_risk (p_risk_breakdown (fst (predict_cheating True mismatched_classifier []
            sample_help_answer_two_speakers True)))
   \<and> audio_quality_score sample_help_answer_two_speakers \<le> 1
   \<and> 0 \<le> quality_risk (p_risk_breakdown (fst (predict_cheating True mismatched_classifier []
            sample_help_answer_two_speakers True)))
   \<and> 0 \<le> ea_overall_risk_score
            (fst (analyze_emotion_async emotion_analyzer_with_model [] constant_audio []))
   \<and> ea_overall_risk_score
            (fst (analyze_emotion_async emotion_analyzer_with_model [] constant_audio [])) \<le> 1"
proof -
  have rf: "\<forall>f row x. rf_model mismatched_classifier = Some f \<longrightarrow> f row = Some x
      \<longrightarrow> 0 \<le> x \<and> x \<le> 1"
    and gb: "\<forall>f row x. gb_model mismatched_classifier = Some f \<longrightarrow> f row = Some x
      \<longrightarrow> 0 \<le> x \<and> x \<le> 1"
    and lr: "\<forall>f row x. lr_model mismatched_classifier = Some f \<longrightarrow> f row = Some x
      \<longrightarrow> 0 \<le> x \<and> x \<le> 1"
    by (auto simp: mismatched_classifier_def mismatched_blob_def)
  have em: "\<forall>g feats ps x.
      emotion_model (em_backends emotion_analyzer_with_model) = Some g
        \<longrightarrow> g feats = Some ps \<longrightarrow> x \<in> set ps \<longrightarrow> 0 \<le> x \<and> x \<le> 1"
    by (auto simp: emotion_analyzer_with_model_def)
  have s: "0 \<le> help_seeking_phrases sample_help_answer_two_speakers
          + answer_receiving_phrases sample_help_answer_two_speakers"
    "audio_quality_score sample_help_answer_two_speakers \<le> 1"
    by (simp_all add: sample_help_answer_two_speakers_def CheatingSample_default_def)
  show ?thesis
    using rf gb lr em s
      scores_within_unit_interval[where m = "empty_metrics0 []"
        and c = mismatched_classifier and s = sample_help_answer_two_speakers
        and sk = True and ue = True and now = "[]" and em = emotion_analyzer_with_model
        and audio = constant_audio and segs = "[]"]
    by simp
qed

subsection \<open>Counts of the content analysis when text is appended\<close>

text \<open>
  A match of a well-formed sequence is not empty, starts at a code point that is not
  white space, and is decided by the code points it covers.
\<close>

lemma takeWhile_append_short:
  "length (takeWhile P xs) < length xs \<Longrightarrow> takeWhile P (xs @ ys) = takeWhile P xs"
proof -
  assume a: "length (takeWhile P xs) < length xs"
  have "\<exists>x \<in> set xs. \<not> P x"
  proof (rule ccontr)
    assume "\<not> (\<exists>x \<in> set xs. \<not> P x)"
    then have "takeWhile P xs = xs" by (simp add: takeWhile_eq_all_conv)
    with a show False by simp
  qed
  then obtain x where "x \<in> set xs" "\<not> P x" by auto
  then show ?thesis by (rule takeWhile_append1)
qed

lemma takeWhile_append_short2:
  "length (takeWhile P (xs @ ys)) < length xs \<Longrightarrow> takeWhile P (xs @ ys) = takeWhile P xs"
proof -
  assume a: "length (takeWhile P (xs @ ys)) < length xs"
  have "\<exists>x \<in> set xs. \<not> P x"
  proof (rule ccontr)
    assume "\<not> (\<exists>x \<in> set xs. \<not> P x)"
    then have "takeWhile P (xs @ ys) = xs @ takeWhile P ys" by (intro takeWhile_append2) auto
    with a show False by simp
  qed
  then obtain x where "x \<in> set xs" "\<not> P x" by auto
  then show ?thesis by (rule takeWhile_append1)
qed

lemma wf_word_hd: "wf_word w \<Longrightarrow> prefix w u \<Longrightarrow> u \<noteq> [] \<and> \<not> is_space (hd u)"
  by (cases w) (auto simp: wf_word_def prefix_def)

lemma match_pos:
  "wf_toks a \<Longrightarrow> match_toks a u = Some n
     \<Longrightarrow> 0 < n \<and> n \<le> length u \<and> u \<noteq> [] \<and> \<not> is_space (hd u)"
proof (induction a arbitrary: u n rule: wf_toks.induct)
  case (1 w)
  then show ?case
    using wf_word_hd[of w u] by (auto simp: wf_word_def prefix_length_le split: if_splits)
next
  case (2 cs)
  then show ?case by (auto simp: list_all_iff split: list.splits if_splits)
next
  case (3 w ts)
  from 3(3) have pw: "prefix w u" by (auto split: if_splits)
  let ?x = "drop (length w) u"
  let ?k = "length (takeWhile is_space ?x)"
  from 3(3) pw obtain n2 where k: "?k \<noteq> 0" and m: "match_toks ts (drop ?k ?x) = Some n2"
    and n: "n = length w + (?k + n2)"
    by (auto simp: Let_def split: if_splits)
  have ih: "0 < n2 \<and> n2 \<le> length (drop ?k ?x)" using 3(1)[OF _ m] 3(2) by auto
  have lw: "length w \<le> length u" using pw by (rule prefix_length_le)
  show ?case
    using wf_word_hd[of w u] 3(2) pw ih n lw by auto
next
  case (4 cs ts)
  from 4(3) obtain c u' where u: "u = c # u'" and c: "c \<in> set cs" by (auto split: list.splits if_splits)
  let ?k = "length (takeWhile is_space u')"
  from 4(3) u c obtain n2 where k: "?k \<noteq> 0" and m: "match_toks ts (drop ?k u') = Some n2"
    and n: "n = Suc (?k + n2)"
    by (auto simp: Let_def split: if_splits)
  have ih: "0 < n2 \<and> n2 \<le> length (drop ?k u')" using 4(1)[OF _ m] 4(2) by auto
  show ?case using u c 4(2) ih n by (auto simp: list_all_iff)
qed auto

lemma match_stable:
  "wf_toks a \<Longrightarrow> match_toks a u = Some n \<Longrightarrow> match_toks a (u @ s) = Some n"
proof (induction a arbitrary: u n rule: wf_toks.induct)
  case (1 w)
  then show ?case by (auto split: if_splits)
next
  case (2 cs)
  then show ?case by (auto split: list.splits if_splits)
next
  case (3 w ts)
  from 3(3) have pw: "prefix w u" by (auto split: if_splits)
  let ?x = "drop (length w) u"
  let ?k = "length (takeWhile is_space ?x)"
  from 3(3) pw obtain n2 where k: "?k \<noteq> 0" and m: "match_toks ts (drop ?k ?x) = Some n2"
    and n: "n = length w + (?k + n2)"
    by (auto simp: Let_def split: if_splits)
  have wt: "wf_toks ts" using 3(2) by simp
  have pos: "0 < n2 \<and> n2 \<le> length (drop ?k ?x)" using match_pos[OF wt m] by simp
  then have short: "?k < length ?x" by auto
  have lw: "length w \<le> length u" using pw by (rule prefix_length_le)
  have dx: "drop (length w) (u @ s) = ?x @ s" using lw by simp
  have tw: "takeWhile is_space (?x @ s) = takeWhile is_space ?x"
    using short by (rule takeWhile_append_short)
  have dk: "drop ?k (?x @ s) = drop ?k ?x @ s" using short by simp
  have ih: "match_toks ts (drop ?k ?x @ s) = Some n2" using 3(1)[OF wt m] .
  show ?case
    using pw k n ih dx tw dk by (simp add: Let_def)
next
  case (4 cs ts)
  from 4(3) obtain c u' where u: "u = c # u'" and c: "c \<in> set cs"
    by (auto split: list.splits if_splits)
  let ?k = "length (takeWhile is_space u')"
  from 4(3) u c obtain n2 where k: "?k \<noteq> 0" and m: "match_toks ts (drop ?k u') = Some n2"
    and n: "n = Suc (?k + n2)"
    by (auto simp: Let_def split: if_splits)
  have wt: "wf_toks ts" using 4(2) by simp
  have pos: "0 < n2 \<and> n2 \<le> length (drop ?k u')" using match_pos[OF wt m] by simp
  then have short: "?k < length u'" by auto
  have tw: "takeWhile is_space (u' @ s) = takeWhile is_space u'"
    using short by (rule takeWhile_append_short)
  have dk: "drop ?k (u' @ s) = drop ?k u' @ s" using short by simp
  have ih: "match_toks ts (drop ?k u' @ s) = Some n2" using 4(1)[OF wt m] .
  show ?case
    using u c k n ih tw dk by (simp add: Let_def)
qed auto

lemma match_local:
  "wf_toks a \<Longrightarrow> match_toks a (u @ s) = Some n \<Longrightarrow> n \<le> length u
     \<Longrightarrow> match_toks a u = Some n"
proof (induction a arbitrary: u n rule: wf_toks.induct)
  case (1 w)
  then show ?case by (auto simp: prefix_def append_eq_append_conv2 split: if_splits)
next
  case (2 cs)
  then show ?case by (cases u) (auto split: list.splits if_splits)
next
  case (3 w ts)
  from 3(3) have pw: "prefix w (u @ s)" by (auto split: if_splits)
  let ?x = "drop (length w) u"
  let ?k = "length (takeWhile is_space (?x @ s))"
  have wt: "wf_toks ts" using 3(2) by simp
  have lw: "length w \<le> length u" using 3(3,4) pw by (auto simp: Let_def split: if_splits)
  have dx: "drop (length w) (u @ s) = ?x @ s" using lw by simp
  from 3(3) pw dx obtain n2 where k: "?k \<noteq> 0"
    and m: "match_toks ts (drop ?k (?x @ s)) = Some n2"
    and n: "n = length w + (?k + n2)"
    by (auto simp: Let_def split: if_splits)
  have pos: "0 < n2" using match_pos[OF wt m] by simp
  have short: "?k < length ?x" using n pos 3(4) lw by simp
  have tw: "takeWhile is_space (?x @ s) = takeWhile is_space ?x"
    using short by (rule takeWhile_append_short2)
  have dk: "drop ?k (?x @ s) = drop ?k ?x @ s" using short by simp
  have le: "n2 \<le> length (drop ?k ?x)" using n 3(4) lw short by simp
  have ih: "match_toks ts (drop ?k ?x) = Some n2" using 3(1)[OF wt m[unfolded dk] le] .
  have pwu: "prefix w u" using pw lw by (auto simp: prefix_def append_eq_append_conv2)
  show ?case
    using pwu k n ih tw by (simp add: Let_def)
next
  case (4 cs ts)
  have "u \<noteq> []" using 4(3,4) match_pos[OF 4(2) 4(3)] by auto
  then obtain c u' where u: "u = c # u'" by (cases u) auto
  from 4(3) u have c: "c \<in> set cs" by (auto split: if_splits)
  let ?k = "length (takeWhile is_space (u' @ s))"
  have wt: "wf_toks ts" using 4(2) by simp
  from 4(3) u c obtain n2 where k: "?k \<noteq> 0"
    and m: "match_toks ts (drop ?k (u' @ s)) = Some n2"
    and n: "n = Suc (?k + n2)"
    by (auto simp: Let_def split: if_splits)
  have pos: "0 < n2" using match_pos[OF wt m] by simp
  have short: "?k < length u'" using n pos 4(4) u by simp
  have tw: "takeWhile is_space (u' @ s) = takeWhile is_space u'"
    using short by (rule takeWhile_append_short2)
  have dk: "drop ?k (u' @ s) = drop ?k u' @ s" using short by simp
  have le: "n2 \<le> length (drop ?k u')" using n 4(4) u short by simp
  have ih: "match_toks ts (drop ?k u') = Some n2" using 4(1)[OF wt m[unfolded dk] le] .
  show ?case
    using u c k n ih tw by (simp add: Let_def)
qed auto

text \<open>The static check \<open>may_nest\<close> is sound for matches that start at the same position.\<close>

lemma takeWhile_hd: "takeWhile P xs \<noteq> [] \<Longrightarrow> xs \<noteq> [] \<and> P (hd xs)"
  by (cases xs) (auto split: if_splits)

lemma lit_spaces_space:
  assumes "match_toks (Lit w # Spaces # ts) v = Some n"
  shows "prefix w v \<and> length w < length v \<and> is_space (v ! length w)"
proof -
  from assms have pw: "prefix w v" by (auto split: if_splits)
  from assms pw have "takeWhile is_space (drop (length w) v) \<noteq> []"
    by (auto simp: Let_def split: if_splits)
  then have d: "drop (length w) v \<noteq> []" "is_space (hd (drop (length w) v))"
    using takeWhile_hd[of is_space "drop (length w) v"] by auto
  then have "length w < length v" by auto
  then show ?thesis using pw d by (simp add: hd_drop_conv_nth)
qed

lemma oneof_spaces_space:
  assumes "match_toks (OneOf cs # Spaces # ts) v = Some n"
  shows "1 < length v \<and> is_space (v ! 1)"
proof -
  from assms obtain c v' where v: "v = c # v'" by (cases v) auto
  from assms v have "takeWhile is_space v' \<noteq> []"
    by (auto simp: Let_def split: if_splits)
  then have "v' \<noteq> []" "is_space (hd v')" using takeWhile_hd[of is_space v'] by auto
  then show ?thesis using v by (cases v') auto
qed

lemma wf_word_nth:
  "wf_word x \<Longrightarrow> prefix x v \<Longrightarrow> i < length x \<Longrightarrow> \<not> is_space (v ! i)"
  by (auto simp: wf_word_def prefix_def list_all_iff nth_append)

lemma lit_match_prefix: "match_toks (Lit w # ts) v = Some n \<Longrightarrow> prefix w v \<and> length w \<le> n"
  by (auto split: if_splits)

lemma prefix_same_length: "prefix x v \<Longrightarrow> prefix w v \<Longrightarrow> length x = length w \<Longrightarrow> x = w"
  by (auto simp: prefix_def append_eq_append_conv)

lemma nest_sound:
  "wf_toks b \<Longrightarrow> wf_toks r \<Longrightarrow> match_toks r v = Some m \<Longrightarrow> match_toks b v = Some n'
     \<Longrightarrow> n' \<le> m \<Longrightarrow> may_nest b r"
proof (induction b arbitrary: r v m n' rule: wf_toks.induct)
  case (1 x)
  have wx: "wf_word x" using 1(1) by simp
  have px: "prefix x v" and nx: "n' = length x" using 1(4) by (auto split: if_splits)
  show ?case
  proof (cases r rule: wf_toks.cases)
    case (1 w)
    then have "prefix w v" "m = length w" using \<open>match_toks r v = Some m\<close> by (auto split: if_splits)
    then have "prefix x w" using px nx \<open>n' \<le> m\<close> by (auto intro: prefix_length_prefix)
    then show ?thesis using 1 by simp
  next
    case (2 cs)
    then have "m = 1" using \<open>match_toks r v = Some m\<close> by (auto split: list.splits if_splits)
    then have "length x = 1" using nx \<open>n' \<le> m\<close> wx by (cases x) (auto simp: wf_word_def)
    then show ?thesis using 2 by simp
  next
    case (3 w ts)
    then have sp: "prefix w v \<and> length w < length v \<and> is_space (v ! length w)"
      using lit_spaces_space \<open>match_toks r v = Some m\<close> by blast
    have "length x \<le> length w"
    proof (rule ccontr)
      assume "\<not> length x \<le> length w"
      then have "\<not> is_space (v ! length w)" using wf_word_nth[OF wx px] by simp
      then show False using sp by simp
    qed
    then have "prefix x w" using px sp by (auto intro: prefix_length_prefix)
    then show ?thesis using 3 by simp
  next
    case (4 cs ts)
    then have sp: "1 < length v \<and> is_space (v ! 1)"
      using oneof_spaces_space \<open>match_toks r v = Some m\<close> by blast
    have "length x \<le> 1"
    proof (rule ccontr)
      assume "\<not> length x \<le> 1"
      then have "\<not> is_space (v ! 1)" using wf_word_nth[OF wx px] by simp
      then show False using sp by simp
    qed
    then have "length x = 1" using wx by (cases x) (auto simp: wf_word_def)
    then show ?thesis using 4 by simp
  qed (use \<open>wf_toks r\<close> in auto)
next
  case (2 cs)
  then show ?case by simp
next
  case (3 x b)
  have wx: "wf_word x" and wb: "wf_toks b" using 3(2) by simp_all
  have bs: "prefix x v \<and> length x < length v \<and> is_space (v ! length x)"
    using lit_spaces_space 3(5) by blast
  then have px: "prefix x v" by simp
  let ?y = "drop (length x) v"
  let ?k = "length (takeWhile is_space ?y)"
  from 3(5) px obtain n2 where k: "?k \<noteq> 0" and mb: "match_toks b (drop ?k ?y) = Some n2"
    and n: "n' = length x + (?k + n2)"
    by (auto simp: Let_def split: if_splits)
  have kpos: "0 < ?k" using k by simp
  show ?case
  proof (cases r rule: wf_toks.cases)
    case (1 w)
    then have pw: "prefix w v" and m: "m = length w"
      using \<open>match_toks r v = Some m\<close> by (auto split: if_splits)
    have ww: "wf_word w" using 1 \<open>wf_toks r\<close> by simp
    have "length x < length w" using n m \<open>n' \<le> m\<close> kpos by linarith
    then have "\<not> is_space (v ! length x)" using wf_word_nth[OF ww pw] by simp
    then show ?thesis using bs by simp
  next
    case (2 cs)
    then have "m = 1" using \<open>match_toks r v = Some m\<close> by (auto split: list.splits if_splits)
    moreover have "0 < length x" using wx by (simp add: wf_word_def)
    ultimately have False using n kpos \<open>n' \<le> m\<close> by linarith
    then show ?thesis by simp
  next
    case (3 w ts)
    have ww: "wf_word w" and wt: "wf_toks ts" using 3 \<open>wf_toks r\<close> by simp_all
    have rs: "prefix w v \<and> length w < length v \<and> is_space (v ! length w)"
      using lit_spaces_space \<open>match_toks r v = Some m\<close> 3 by blast
    then have pw: "prefix w v" by simp
    have "\<not> length x < length w"
    proof
      assume "length x < length w"
      then have "\<not> is_space (v ! length x)" using wf_word_nth[OF ww pw] by simp
      then show False using bs by simp
    qed
    moreover have "\<not> length w < length x"
    proof
      assume "length w < length x"
      then have "\<not> is_space (v ! length w)" using wf_word_nth[OF wx px] by simp
      then show False using rs by simp
    qed
    ultimately have len: "length x = length w" by simp
    then have xw: "x = w" using px pw by (rule prefix_same_length[rotated 2])
    from \<open>match_toks r v = Some m\<close> 3 pw xw obtain m2 where
      mr: "match_toks ts (drop ?k ?y) = Some m2" and m: "m = length x + (?k + m2)"
      by (auto simp: Let_def split: if_splits)
    have "n2 \<le> m2" using n m \<open>n' \<le> m\<close> by simp
    then have "may_nest b ts" using "3.IH"[OF wb wt mr mb] by simp
    then show ?thesis using 3 xw by simp
  next
    case (4 cs ts)
    then have sp: "1 < length v \<and> is_space (v ! 1)"
      using oneof_spaces_space \<open>match_toks r v = Some m\<close> by blast
    have "length x \<le> 1"
    proof (rule ccontr)
      assume "\<not> length x \<le> 1"
      then have "\<not> is_space (v ! 1)" using wf_word_nth[OF wx px] by simp
      then show False using sp by simp
    qed
    then have "length x = 1" using wx by (cases x) (auto simp: wf_word_def)
    then show ?thesis using 4 by simp
  qed (use \<open>wf_toks r\<close> in auto)
next
  case (4 cs ts)
  then show ?case by simp
qed auto

text \<open>
  From every position inside a match that is not white space the rest of the match is
  a match of a residual. Hence the matches that \<open>finditer\<close> finds in a text are
  not fewer when text is appended.
\<close>

lemma prefix_drop: "prefix w v \<Longrightarrow> j \<le> length w \<Longrightarrow> prefix (drop j w) (drop j v)"
  by (auto simp: prefix_def)

lemma wf_word_drop: "wf_word w \<Longrightarrow> j < length w \<Longrightarrow> wf_word (drop j w)"
  by (auto simp: wf_word_def list_all_iff dest: in_set_dropD)

lemma takeWhile_nth_sat: "i < length (takeWhile P xs) \<Longrightarrow> P (xs ! i)"
  using nth_mem[of i "takeWhile P xs"] set_takeWhileD[of "takeWhile P xs ! i" P xs]
  by (simp add: takeWhile_nth)

lemma inner_residuals_lit:
  "w \<noteq> [] \<Longrightarrow> inner_residuals (Lit w # ts)
     = map (\<lambda>k. Lit (drop k w) # ts) [1 ..< length w] @ residuals ts"
  by (simp add: inner_residuals_def upt_conv_Cons)

lemma residual_match:
  "wf_toks a \<Longrightarrow> match_toks a v = Some n \<Longrightarrow> j < n \<Longrightarrow> \<not> is_space (v ! j)
     \<Longrightarrow> \<exists>r \<in> set (residuals a). wf_toks r \<and> match_toks r (drop j v) = Some (n - j)
           \<and> (0 < j \<longrightarrow> starts_with_lit a \<longrightarrow> r \<in> set (inner_residuals a))"
proof (induction a arbitrary: v n j rule: wf_toks.induct)
  case (1 w)
  then have pw: "prefix w v" and n: "n = length w" by (auto split: if_splits)
  have "wf_toks [Lit (drop j w)]" using 1 n by (simp add: wf_word_drop)
  moreover have "match_toks [Lit (drop j w)] (drop j v) = Some (n - j)"
    using pw n 1(3) by (simp add: prefix_drop)
  moreover have "[Lit (drop j w)] \<in> set (residuals [Lit w])" using 1(3) n by auto
  moreover have "0 < j \<longrightarrow> [Lit (drop j w)] \<in> set (inner_residuals [Lit w])"
    using 1(1,3) n by (auto simp: inner_residuals_lit wf_word_def)
  ultimately show ?case by blast
next
  case (2 cs)
  then have "n = 1" by (auto split: list.splits if_splits)
  then have "j = 0" using 2 by simp
  then show ?case using 2 by simp
next
  case (3 w ts)
  have ww: "wf_word w" and wt: "wf_toks ts" using 3(2) by simp_all
  from 3(3) have pw: "prefix w v" by (auto split: if_splits)
  let ?x = "drop (length w) v"
  let ?k = "length (takeWhile is_space ?x)"
  from 3(3) pw obtain n2 where k: "?k \<noteq> 0" and m: "match_toks ts (drop ?k ?x) = Some n2"
    and n: "n = length w + (?k + n2)"
    by (auto simp: Let_def split: if_splits)
  have lw: "length w \<le> length v" using pw by (rule prefix_length_le)
  show ?case
  proof (cases "j < length w")
    case True
    let ?r = "Lit (drop j w) # Spaces # ts"
    have "wf_toks ?r" using ww wt True by (simp add: wf_word_drop)
    moreover have "match_toks ?r (drop j v) = Some (n - j)"
      using pw True k m n by (simp add: prefix_drop Let_def)
    moreover have "?r \<in> set (residuals (Lit w # Spaces # ts))" using True by auto
    moreover have "0 < j \<longrightarrow> ?r \<in> set (inner_residuals (Lit w # Spaces # ts))"
      using True ww by (auto simp: inner_residuals_lit wf_word_def)
    ultimately show ?thesis by blast
  next
    case False
    have "\<not> j - length w < ?k"
    proof
      assume a: "j - length w < ?k"
      then have "is_space (?x ! (j - length w))" by (rule takeWhile_nth_sat)
      moreover have "?x ! (j - length w) = v ! j"
        using False lw a length_takeWhile_le[of is_space ?x] by simp
      ultimately show False using 3(5) by simp
    qed
    then have jk: "length w + ?k \<le> j" using False by simp
    let ?j = "j - length w - ?k"
    have j2: "?j < n2" using jk n 3(4) by simp
    have kx: "?k \<le> length ?x" by (rule length_takeWhile_le)
    have nth: "drop ?k ?x ! ?j = v ! j"
    proof -
      have "n2 \<le> length (drop ?k ?x)" using match_pos[OF wt m] by simp
      then have "?k + ?j < length ?x" using j2 by simp
      then show ?thesis using jk lw by (simp add: add.commute)
    qed
    obtain r where r: "r \<in> set (residuals ts)" "wf_toks r"
      "match_toks r (drop ?j (drop ?k ?x)) = Some (n2 - ?j)"
      using "3.IH"[OF wt m j2] nth 3(5) by auto
    have "drop ?j (drop ?k ?x) = drop j v" using jk by (simp add: add.commute)
    moreover have "n2 - ?j = n - j" using jk n by simp
    ultimately have "match_toks r (drop j v) = Some (n - j)" using r(3) by simp
    moreover have "r \<in> set (inner_residuals (Lit w # Spaces # ts))"
      using r(1) ww by (auto simp: inner_residuals_lit wf_word_def)
    ultimately show ?thesis using r by auto
  qed
next
  case (4 cs ts)
  have wt: "wf_toks ts" using 4(2) by simp
  from 4(3) obtain c v' where v: "v = c # v'" and c: "c \<in> set cs"
    by (auto split: list.splits if_splits)
  let ?k = "length (takeWhile is_space v')"
  from 4(3) v c obtain n2 where k: "?k \<noteq> 0" and m: "match_toks ts (drop ?k v') = Some n2"
    and n: "n = Suc (?k + n2)"
    by (auto simp: Let_def split: if_splits)
  show ?case
  proof (cases "j = 0")
    case True
    then show ?thesis using 4(2,3) by simp
  next
    case False
    have "\<not> j - 1 < ?k"
    proof
      assume a: "j - 1 < ?k"
      then have "is_space (v' ! (j - 1))" by (rule takeWhile_nth_sat)
      moreover have "v' ! (j - 1) = v ! j" using False v by (cases j) auto
      ultimately show False using 4(5) by simp
    qed
    then have jk: "Suc ?k \<le> j" using False by simp
    let ?j = "j - 1 - ?k"
    have j2: "?j < n2" using jk n 4(4) by simp
    have nth: "drop ?k v' ! ?j = v ! j"
    proof -
      have "n2 \<le> length (drop ?k v')" using match_pos[OF wt m] by simp
      then have "?k + ?j < length v'" using j2 by simp
      then show ?thesis using jk v by (cases j) (auto simp: add.commute)
    qed
    obtain r where r: "r \<in> set (residuals ts)" "wf_toks r"
      "match_toks r (drop ?j (drop ?k v')) = Some (n2 - ?j)"
      using "4.IH"[OF wt m j2] nth 4(5) by auto
    have "drop ?j (drop ?k v') = drop j v" using jk v by (cases j) (auto simp: add.commute)
    moreover have "n2 - ?j = n - j" using jk n by simp
    ultimately have "match_toks r (drop j v) = Some (n - j)" using r(3) by simp
    then show ?thesis using r by auto
  qed
qed auto

lemma first_match_SomeD:
  "first_match alts u = Some n \<Longrightarrow>
     \<exists>pre a post. alts = pre @ a # post \<and> match_toks a u = Some n
        \<and> (\<forall>a' \<in> set pre. match_toks a' u = None)"
proof (induction alts)
  case Nil
  then show ?case by simp
next
  case (Cons a alts)
  show ?case
  proof (cases "match_toks a u")
    case None
    then obtain pre b post where "alts = pre @ b # post" "match_toks b u = Some n"
      "\<forall>a' \<in> set pre. match_toks a' u = None"
      using Cons by auto
    then have "a # alts = (a # pre) @ b # post \<and> match_toks b u = Some n
        \<and> (\<forall>a' \<in> set (a # pre). match_toks a' u = None)"
      using None by simp
    then show ?thesis by blast
  next
    case (Some k)
    then have "a # alts = [] @ a # alts \<and> match_toks a u = Some n
        \<and> (\<forall>a' \<in> set []. match_toks a' u = None)"
      using Cons.prems by simp
    then show ?thesis by blast
  qed
qed

lemma first_match_intro:
  "match_toks a u = Some n \<Longrightarrow> (\<forall>a' \<in> set pre. match_toks a' u = None)
     \<Longrightarrow> first_match (pre @ a # post) u = Some n"
  by (induction pre) auto

lemma first_match_NoneD:
  "first_match alts u = None \<Longrightarrow> a \<in> set alts \<Longrightarrow> match_toks a u = None"
  by (induction alts) (auto split: option.splits)

lemma ordered_ok_split:
  "ordered_ok (pre @ a # post) \<Longrightarrow> a' \<in> set pre \<Longrightarrow> \<not> may_nest a a'"
  by (induction pre) (auto simp: list_all_iff)

lemma good_wf: "good_pattern alts \<Longrightarrow> a \<in> set alts \<Longrightarrow> wf_toks a \<and> starts_with_lit a"
  by (auto simp: good_pattern_def list_all_iff)

lemma good_inner:
  "good_pattern alts \<Longrightarrow> a \<in> set alts \<Longrightarrow> b \<in> set alts \<Longrightarrow> r \<in> set (inner_residuals a)
     \<Longrightarrow> \<not> may_nest b r"
  by (auto simp: good_pattern_def list_all_iff)

lemma good_ordered: "good_pattern alts \<Longrightarrow> ordered_ok alts"
  by (simp add: good_pattern_def)

lemma first_match_pos:
  assumes g: "good_pattern alts" and m: "first_match alts u = Some n"
  shows "0 < n \<and> n \<le> length u \<and> u \<noteq> [] \<and> \<not> is_space (hd u)"
proof -
  obtain pre a post where "alts = pre @ a # post" "match_toks a u = Some n"
    using first_match_SomeD[OF m] by blast
  then show ?thesis using match_pos[of a u n] good_wf[OF g, of a] by simp
qed

lemma first_match_stable:
  assumes g: "good_pattern alts" and m: "first_match alts u = Some n"
  shows "first_match alts (u @ s) = Some n"
proof -
  obtain pre a post where sp: "alts = pre @ a # post" and ma: "match_toks a u = Some n"
    and none: "\<forall>a' \<in> set pre. match_toks a' u = None"
    using first_match_SomeD[OF m] by blast
  have wa: "wf_toks a" using good_wf[OF g, of a] sp by simp
  have mas: "match_toks a (u @ s) = Some n" using match_stable[OF wa ma] .
  have nle: "n \<le> length u" using match_pos[OF wa ma] by simp
  have "\<forall>a' \<in> set pre. match_toks a' (u @ s) = None"
  proof
    fix a' assume a': "a' \<in> set pre"
    have wa': "wf_toks a'" using good_wf[OF g, of a'] sp a' by simp
    show "match_toks a' (u @ s) = None"
    proof (rule ccontr)
      assume "match_toks a' (u @ s) \<noteq> None"
      then obtain k where k: "match_toks a' (u @ s) = Some k" by auto
      show False
      proof (cases "k \<le> length u")
        case True
        then have "match_toks a' u = Some k" using match_local[OF wa' k] by simp
        then show False using none a' by simp
      next
        case False
        then have "n \<le> k" using nle by simp
        then have "may_nest a a'" using nest_sound[OF wa wa' k mas] by simp
        then show False using ordered_ok_split[of pre a post a'] good_ordered[OF g] sp a' by simp
      qed
    qed
  qed
  then show ?thesis using first_match_intro[OF mas] sp by simp
qed

lemma first_match_local:
  assumes g: "good_pattern alts" and m: "first_match alts (u @ s) = Some n"
    and le: "n \<le> length u"
  shows "first_match alts u = Some n"
proof -
  obtain pre a post where sp: "alts = pre @ a # post" and ma: "match_toks a (u @ s) = Some n"
    and none: "\<forall>a' \<in> set pre. match_toks a' (u @ s) = None"
    using first_match_SomeD[OF m] by blast
  have wa: "wf_toks a" using good_wf[OF g, of a] sp by simp
  have mau: "match_toks a u = Some n" using match_local[OF wa ma le] .
  have "\<forall>a' \<in> set pre. match_toks a' u = None"
  proof
    fix a' assume a': "a' \<in> set pre"
    have wa': "wf_toks a'" using good_wf[OF g, of a'] sp a' by simp
    show "match_toks a' u = None"
    proof (rule ccontr)
      assume "match_toks a' u \<noteq> None"
      then obtain k where "match_toks a' u = Some k" by auto
      then have "match_toks a' (u @ s) = Some k" using match_stable[OF wa'] by simp
      then show False using none a' by simp
    qed
  qed
  then show ?thesis using first_match_intro[OF mau] sp by simp
qed

lemma first_match_no_inner:
  assumes g: "good_pattern alts" and m: "first_match alts (u @ s) = Some n"
    and long: "length u < n" and j: "0 < j" "j < length u"
  shows "first_match alts (drop j u) = None"
proof (rule ccontr)
  assume "first_match alts (drop j u) \<noteq> None"
  then obtain k where k: "first_match alts (drop j u) = Some k" by auto
  obtain pre a post where sp: "alts = pre @ a # post" and ma: "match_toks a (u @ s) = Some n"
    using first_match_SomeD[OF m] by blast
  obtain pre' b post' where sp': "alts = pre' @ b # post'"
    and mb: "match_toks b (drop j u) = Some k"
    using first_match_SomeD[OF k] by blast
  have ain: "a \<in> set alts" using sp by simp
  have bin: "b \<in> set alts" using sp' by simp
  have wa: "wf_toks a" "starts_with_lit a" using good_wf[OF g ain] by simp_all
  have wb: "wf_toks b" using good_wf[OF g bin] by simp
  have pb: "0 < k \<and> k \<le> length (drop j u) \<and> drop j u \<noteq> [] \<and> \<not> is_space (hd (drop j u))"
    using match_pos[OF wb mb] .
  have mbs: "match_toks b (drop j (u @ s)) = Some k"
    using match_stable[OF wb mb, of s] j by simp
  have ns: "\<not> is_space ((u @ s) ! j)"
    using pb j by (simp add: hd_drop_conv_nth nth_append)
  obtain r where r: "r \<in> set (inner_residuals a)" "wf_toks r"
    "match_toks r (drop j (u @ s)) = Some (n - j)"
    using residual_match[OF wa(1) ma _ ns] j long wa(2) by force
  have "k \<le> length u - j" using pb by simp
  then have "k \<le> n - j" using long j by linarith
  then have "may_nest b r" using nest_sound[OF wb r(2) r(3) mbs] by simp
  then show False using good_inner[OF g ain bin r(1)] by simp
qed

lemma finditer_nil:
  "(\<And>j. j < length u \<Longrightarrow> first_match alts (drop j u) = None)
     \<Longrightarrow> finditer U alts pos before u = []"
proof (induction u arbitrary: pos before)
  case Nil
  then show ?case by simp
next
  case (Cons c u)
  have 0: "first_match alts (c # u) = None" using Cons.prems[of 0] by simp
  have "\<And>j. j < length u \<Longrightarrow> first_match alts (drop j u) = None"
    using Cons.prems[of "Suc j" for j] by simp
  then have "finditer U alts (Suc pos) (Some c) u = []" by (rule Cons.IH)
  then show ?case using 0 by simp
qed

theorem finditer_mono:
  assumes g: "good_pattern alts"
  shows "length (finditer U alts pos before u) \<le> length (finditer U alts pos before (u @ s))"
proof (induction "length u" arbitrary: u pos before rule: less_induct)
  case less
  show ?case
  proof (cases u)
    case Nil
    then show ?thesis by simp
  next
    case (Cons c u')
    let ?wb = "word_boundary U before (Some c)"
    let ?M = "if ?wb then first_match alts (c # u') else None"
    let ?M' = "if ?wb then first_match alts (c # u' @ s) else None"
    have rec: "length (finditer U alts (Suc pos) (Some c) u')
        \<le> length (finditer U alts (Suc pos) (Some c) (u' @ s))"
      using less[of u'] Cons by simp
    show ?thesis
    proof (cases ?M)
      case None
      note MN = None
      show ?thesis
      proof (cases ?M')
        case None
        then show ?thesis using MN rec Cons by simp
      next
        case (Some k)
        then have wb: "?wb" and fk: "first_match alts ((c # u') @ s) = Some k"
          by (auto split: if_splits)
        have fn: "first_match alts (c # u') = None" using MN wb by simp
        have "\<not> k \<le> length (c # u')"
          using first_match_local[OF g fk] fn by auto
        then have long: "length (c # u') < k" by simp
        have "\<And>j. j < length u' \<Longrightarrow> first_match alts (drop j u') = None"
          using first_match_no_inner[OF g fk long, of "Suc j" for j] by simp
        then have "finditer U alts (Suc pos) (Some c) u' = []" by (rule finditer_nil)
        then show ?thesis using MN Cons by simp
      qed
    next
      case (Some k)
      then have wb: "?wb" and fk: "first_match alts (c # u') = Some k"
        by (auto split: if_splits)
      have kp: "0 < k \<and> k \<le> length (c # u')" using first_match_pos[OF g fk] by simp
      then obtain n where n: "k = Suc n" by (cases k) auto
      have fks: "first_match alts (c # u' @ s) = Some (Suc n)"
        using first_match_stable[OF g fk, of s] n by simp
      have nl: "n \<le> length u'" using kp n by simp
      have l: "finditer U alts pos before (c # u')
          = (pos, take (Suc n) (c # u'))
              # finditer U alts (pos + Suc n) (Some ((c # u') ! n)) (drop n u')"
        using wb fk n by simp
      have r: "finditer U alts pos before (c # u' @ s)
          = (pos, take (Suc n) (c # u' @ s))
              # finditer U alts (pos + Suc n) (Some ((c # u' @ s) ! n)) (drop n u' @ s)"
        using wb fks nl by simp
      have same: "(c # u' @ s) ! n = (c # u') ! n"
        using nl by (cases n) (auto simp: nth_append)
      have "length (finditer U alts (pos + Suc n) (Some ((c # u') ! n)) (drop n u'))
          \<le> length (finditer U alts (pos + Suc n) (Some ((c # u') ! n)) (drop n u' @ s))"
        using less[of "drop n u'"] Cons by simp
      then show ?thesis using l r same Cons by simp
    qed
  qed
qed

text \<open>
  Appending text changes the lower-cased text before it only by turning final sigmas
  into small sigmas, which no pattern mentions.
\<close>

lemma final_sigma_append:
  "final_sigma U rb (t @ s) \<Longrightarrow> final_sigma U rb t"
proof -
  assume a: "final_sigma U rb (t @ s)"
  show ?thesis
  proof (cases "dropWhile (u_case_ignorable U) t")
    case Nil
    have "case dropWhile (u_case_ignorable U) rb of [] \<Rightarrow> False | c # rest \<Rightarrow> u_cased U c"
      using a by (simp add: final_sigma_def)
    then show ?thesis unfolding final_sigma_def Nil by simp
  next
    case (Cons c rest)
    then have "\<exists>x \<in> set t. \<not> u_case_ignorable U x"
      by (metis dropWhile_eq_Nil_conv list.distinct(1))
    then have "dropWhile (u_case_ignorable U) (t @ s) = dropWhile (u_case_ignorable U) t @ s"
      by (auto simp: dropWhile_append1)
    then show ?thesis using a Cons by (simp add: final_sigma_def)
  qed
qed

lemma sig_le_refl: "list_all2 sig_le x x"
  by (simp add: list_all2_refl sig_le_def)

lemma lower_from_append:
  "\<exists>x'. lower_from U rb (t @ s) = x' @ lower_from U (rev t @ rb) s
        \<and> list_all2 sig_le (lower_from U rb t) x'"
proof (induction t arbitrary: rb)
  case Nil
  then show ?case by simp
next
  case (Cons c t)
  obtain x' where x': "lower_from U (c # rb) (t @ s) = x' @ lower_from U (rev t @ c # rb) s"
    "list_all2 sig_le (lower_from U (c # rb) t) x'"
    using Cons[of "c # rb"] by blast
  let ?h = "if c = 931 then [if final_sigma U rb t then 962 else 963] else u_lower U c"
  let ?h' = "if c = 931 then [if final_sigma U rb (t @ s) then 962 else 963] else u_lower U c"
  have h: "list_all2 sig_le ?h ?h'"
    using final_sigma_append[of U rb t s] by (auto simp: sig_le_def sig_le_refl)
  have "lower_from U rb ((c # t) @ s) = (?h' @ x') @ lower_from U (rev (c # t) @ rb) s"
    using x'(1) by simp
  moreover have "list_all2 sig_le (lower_from U rb (c # t)) (?h' @ x')"
    using h x'(2) by (simp add: list_all2_appendI)
  ultimately show ?case by blast
qed

lemma py_lower_append:
  "\<exists>x' y. py_lower U (t @ s) = x' @ y \<and> list_all2 sig_le (py_lower U t) x'"
  using lower_from_append[of U "[]" t s] unfolding py_lower_def by blast

lemma sig_le_space: "sig_le c c' \<Longrightarrow> is_space c = is_space c'"
  by (auto simp: sig_le_def is_space_def)

lemma sig_le_free: "sig_le c c' \<Longrightarrow> sigma_free w \<Longrightarrow> c \<in> set w \<longleftrightarrow> c' \<in> set w"
  by (auto simp: sig_le_def sigma_free_def list_all_iff)

lemma prefix_rel:
  "sigma_free w \<Longrightarrow> list_all2 sig_le u u' \<Longrightarrow> prefix w u \<longleftrightarrow> prefix w u'"
proof (induction w arbitrary: u u')
  case Nil
  then show ?case by simp
next
  case (Cons x w)
  show ?case
  proof (cases u)
    case Nil
    then show ?thesis using Cons.prems by simp
  next
    case (Cons c v)
    then obtain c' v' where u': "u' = c' # v'" "sig_le c c'" "list_all2 sig_le v v'"
      using Cons.prems by (auto simp: list_all2_Cons1)
    have w: "sigma_free w" and x: "x \<noteq> 962" "x \<noteq> 963"
      using Cons.prems(1) by (simp_all add: sigma_free_def)
    have "x = c \<longleftrightarrow> x = c'" using u'(2) x by (auto simp: sig_le_def)
    then show ?thesis using Cons.IH[OF w u'(3)] Cons u'(1) by simp
  qed
qed

lemma takeWhile_rel:
  "list_all2 sig_le u u' \<Longrightarrow>
     length (takeWhile is_space u) = length (takeWhile is_space u')"
  by (induction rule: list_all2_induct) (auto simp: sig_le_space)

lemma match_toks_rel:
  "list_all sigma_free_tok a \<Longrightarrow> list_all2 sig_le u u' \<Longrightarrow> match_toks a u = match_toks a u'"
proof (induction a u arbitrary: u' rule: match_toks.induct)
  case (1 u)
  then show ?case by simp
next
  case (2 w ts u)
  have p: "prefix w u \<longleftrightarrow> prefix w u'" using prefix_rel[of w u u'] 2(2,3) by simp
  show ?case
  proof (cases "prefix w u")
    case True
    have "list_all2 sig_le (drop (length w) u) (drop (length w) u')"
      using 2(3) by (rule list_all2_dropI)
    then have "match_toks ts (drop (length w) u) = match_toks ts (drop (length w) u')"
      using 2(1)[of "drop (length w) u'"] True 2(2) by simp
    then show ?thesis using True p by simp
  next
    case False
    then show ?thesis using p by simp
  qed
next
  case (3 ts u)
  let ?k = "length (takeWhile is_space u)"
  have k: "length (takeWhile is_space u') = ?k" using takeWhile_rel[OF 3(3)] by simp
  show ?case
  proof (cases "?k = 0")
    case True
    then show ?thesis using k by (simp add: Let_def)
  next
    case False
    have "list_all2 sig_le (drop ?k u) (drop ?k u')"
      using 3(3) by (rule list_all2_dropI)
    then have "match_toks ts (drop ?k u) = match_toks ts (drop ?k u')"
      using 3(1)[of ?k "drop ?k u'"] False 3(2) by simp
    then show ?thesis using False k by (simp add: Let_def)
  qed
next
  case (4 cs ts u)
  show ?case
  proof (cases u)
    case Nil
    then show ?thesis using 4(3) by simp
  next
    case (Cons c v)
    then obtain c' v' where u': "u' = c' # v'" "sig_le c c'" "list_all2 sig_le v v'"
      using 4(3) by (auto simp: list_all2_Cons1)
    have m: "c \<in> set cs \<longleftrightarrow> c' \<in> set cs" using sig_le_free[OF u'(2)] 4(2) by simp
    show ?thesis
    proof (cases "c \<in> set cs")
      case True
      then have "match_toks ts v = match_toks ts v'"
        using 4(1)[of c v v'] Cons True u'(3) 4(2) by simp
      then show ?thesis using True m Cons u'(1) by simp
    next
      case False
      then show ?thesis using m Cons u'(1) by simp
    qed
  qed
qed

lemma first_match_rel:
  "sigma_free_pattern alts \<Longrightarrow> list_all2 sig_le u u'
     \<Longrightarrow> first_match alts u = first_match alts u'"
proof (induction alts)
  case Nil
  then show ?case by simp
next
  case (Cons a alts)
  have "match_toks a u = match_toks a u'"
    using match_toks_rel[of a u u'] Cons.prems by (simp add: sigma_free_pattern_def)
  moreover have "first_match alts u = first_match alts u'"
    using Cons by (simp add: sigma_free_pattern_def)
  ultimately show ?case by (simp split: option.splits)
qed

lemma is_word_rel:
  "u_alnum U 962 = u_alnum U 963 \<Longrightarrow> rel_option sig_le b b' \<Longrightarrow> is_word U b = is_word U b'"
  by (cases b; cases b') (auto simp: is_word_def sig_le_def)

lemma finditer_rel:
  assumes sf: "sigma_free_pattern alts" and al: "u_alnum U 962 = u_alnum U 963"
  shows "list_all2 sig_le u u' \<Longrightarrow> rel_option sig_le before before'
     \<Longrightarrow> length (finditer U alts pos before u) = length (finditer U alts pos before' u')"
proof (induction "length u" arbitrary: u u' pos before before' rule: less_induct)
  case less
  show ?case
  proof (cases u)
    case Nil
    then show ?thesis using less.prems by simp
  next
    case (Cons c v)
    then obtain c' v' where u': "u' = c' # v'" "sig_le c c'" "list_all2 sig_le v v'"
      using less.prems(1) by (auto simp: list_all2_Cons1)
    have wb: "word_boundary U before (Some c) = word_boundary U before' (Some c')"
      using is_word_rel[OF al less.prems(2)] is_word_rel[OF al, of "Some c" "Some c'"] u'(2)
      by (simp add: word_boundary_def)
    have fm: "first_match alts (c # v) = first_match alts (c' # v')"
      using first_match_rel[OF sf, of "c # v" "c' # v'"] u'(2,3) by simp
    let ?M = "if word_boundary U before (Some c) then first_match alts (c # v) else None"
    have M': "(if word_boundary U before' (Some c') then first_match alts (c' # v') else None) = ?M"
      using wb fm by simp
    have step: "length (finditer U alts (Suc pos) (Some c) v)
        = length (finditer U alts (Suc pos) (Some c') v')"
      using less.hyps[of v v' "Some c" "Some c'" "Suc pos"] Cons u'(2,3) by simp
    show ?thesis
    proof (cases ?M)
      case None
      then show ?thesis using M' step Cons u'(1) by simp
    next
      case (Some k)
      show ?thesis
      proof (cases k)
        case 0
        then show ?thesis using Some M' step Cons u'(1) by simp
      next
        case (Suc n)
        have len: "length u = length u'" using less.prems(1) by (rule list_all2_lengthD)
        have d: "list_all2 sig_le (drop n v) (drop n v')" using u'(3) by (rule list_all2_dropI)
        show ?thesis
        proof (cases "n < length (c # v)")
          case True
          have nth: "sig_le ((c # v) ! n) ((c' # v') ! n)"
            using list_all2_nthD[OF less.prems(1), of n] True Cons u'(1) by simp
          have "length (finditer U alts (pos + Suc n) (Some ((c # v) ! n)) (drop n v))
              = length (finditer U alts (pos + Suc n) (Some ((c' # v') ! n)) (drop n v'))"
            using less.hyps[of "drop n v" "drop n v'" "Some ((c # v) ! n)"
                "Some ((c' # v') ! n)" "pos + Suc n"] Cons d nth by simp
          then show ?thesis using Some Suc M' Cons u'(1) by simp
        next
          case False
          then have e: "drop n v = []" "drop n v' = []" using len Cons u'(1) by simp_all
          then show ?thesis using Some Suc M' Cons u'(1) by simp
        qed
      qed
    qed
  qed
qed

lemma prefix_rel_le:
  "prefix p x \<Longrightarrow> list_all (\<lambda>c. c \<noteq> 962) p \<Longrightarrow> list_all2 sig_le x x' \<Longrightarrow> prefix p x'"
proof (induction p arbitrary: x x')
  case Nil
  then show ?case by simp
next
  case (Cons a p)
  obtain y where x: "x = a # y" "prefix p y"
    using Cons.prems(1) by (cases x) simp_all
  obtain a' y' where x': "x' = a' # y'" "sig_le a a'" "list_all2 sig_le y y'"
    using Cons.prems(3) x(1) by (auto simp: list_all2_Cons1)
  have "a = a'" using x'(2) Cons.prems(2) by (auto simp: sig_le_def)
  moreover have "prefix p y'" using Cons.IH[OF x(2) _ x'(3)] Cons.prems(2) by simp
  ultimately show ?case using x' by simp
qed

lemma contains_rel:
  "list_all (\<lambda>c. c \<noteq> 962) p \<Longrightarrow> list_all2 sig_le u u' \<Longrightarrow> contains u p \<Longrightarrow> contains u' p"
proof (induction u arbitrary: u')
  case Nil
  then show ?case by simp
next
  case (Cons c v)
  then obtain c' v' where u': "u' = c' # v'" "sig_le c c'" "list_all2 sig_le v v'"
    by (auto simp: list_all2_Cons1)
  show ?case
  proof (cases "prefix p (c # v)")
    case True
    then have "prefix p (c' # v')" using prefix_rel_le[of p "c # v" "c' # v'"] Cons.prems(1) u'(2,3) by simp
    then show ?thesis using u'(1) by simp
  next
    case False
    then have "contains v p" using Cons.prems(3) by simp
    then have "contains v' p" using Cons.IH[OF Cons.prems(1) u'(3)] by simp
    then show ?thesis using u'(1) by simp
  qed
qed

text \<open>The ten patterns of the analyzer pass the static check.\<close>

lemma cps_simps: "cps [] = []" "cps (c # s) = of_char c # cps s"
  by (simp_all add: cps_def)

lemmas pattern_eval = cps_simps words_def wf_word_def is_space_def good_pattern_def
  inner_residuals_def upt_conv_Cons apostrophe_def two_groups_def

lemma good_answer_patterns: "list_all good_pattern answer_patterns"
  by (simp add: answer_patterns_def pattern_eval)

lemma good_help_patterns_tl: "list_all good_pattern (tl help_seeking_patterns)"
  by (simp add: help_seeking_patterns_def pattern_eval)

lemma good_help_patterns_hd: "good_pattern (hd help_seeking_patterns)"
  by (simp add: help_seeking_patterns_def pattern_eval)

lemma good_help_patterns: "list_all good_pattern help_seeking_patterns"
proof -
  have "help_seeking_patterns = hd help_seeking_patterns # tl help_seeking_patterns"
    by (simp add: help_seeking_patterns_def)
  then show ?thesis
    using good_help_patterns_hd good_help_patterns_tl by (metis list.pred_inject(2))
qed

lemma sigma_free_patterns:
  "list_all sigma_free_pattern help_seeking_patterns"
  "list_all sigma_free_pattern answer_patterns"
  by (simp_all add: help_seeking_patterns_def answer_patterns_def sigma_free_pattern_def
      sigma_free_def cps_simps words_def apostrophe_def two_groups_def)

lemma contains_nil: "contains u []"
  by (cases u) simp_all

lemma contains_append: "contains u p \<Longrightarrow> contains (u @ s) p"
proof (induction u)
  case Nil
  then show ?case by (simp add: contains_nil)
next
  case (Cons c u)
  have "prefix p (c # u) \<Longrightarrow> prefix p (c # u @ s)"
    using prefix_prefix[of p "c # u" s] by simp
  then show ?case using Cons by auto
qed

lemma filter_length_mono:
  "(\<And>x. x \<in> set xs \<Longrightarrow> P x \<Longrightarrow> Q x) \<Longrightarrow> length (filter P xs) \<le> length (filter Q xs)"
proof (induction xs)
  case Nil
  then show ?case by simp
next
  case (Cons x xs)
  then have "length (filter P xs) \<le> length (filter Q xs)" by simp
  then show ?case using Cons.prems[of x] by auto
qed

lemma phrase_details_mono:
  assumes ph: "list_all (\<lambda>phrase. list_all (\<lambda>c. c \<noteq> 962) (py_lower U phrase)) suspicious_phrases"
    and rel: "list_all2 sig_le x x'"
  shows "length (phrase_details U x) \<le> length (phrase_details U (x' @ y))"
  unfolding phrase_details_def length_map
proof (rule filter_length_mono)
  fix phrase
  assume "phrase \<in> set suspicious_phrases" and c: "contains x (py_lower U phrase)"
  then have "list_all (\<lambda>c. c \<noteq> 962) (py_lower U phrase)"
    using ph by (simp add: list_all_iff)
  then have "contains x' (py_lower U phrase)" using rel c by (rule contains_rel)
  then show "contains (x' @ y) (py_lower U phrase)" by (rule contains_append)
qed

lemma pattern_details_length:
  "length (pattern_details U ty patterns u)
     = sum_list (map (\<lambda>pattern. length (finditer U pattern 0 None u)) patterns)"
  by (simp add: pattern_details_def length_concat comp_def)

lemma pattern_details_mono:
  assumes al: "u_alnum U 962 = u_alnum U 963" and rel: "list_all2 sig_le x x'"
  shows "list_all good_pattern patterns \<Longrightarrow> list_all sigma_free_pattern patterns
     \<Longrightarrow> length (pattern_details U ty patterns x)
           \<le> length (pattern_details U ty patterns (x' @ y))"
  unfolding pattern_details_length
proof (induction patterns)
  case Nil
  then show ?case by simp
next
  case (Cons p ps)
  have "length (finditer U p 0 None x) = length (finditer U p 0 None x')"
    using finditer_rel[of p U x x' None None 0] Cons.prems al rel by simp
  moreover have "length (finditer U p 0 None x') \<le> length (finditer U p 0 None (x' @ y))"
    using finditer_mono[of p U 0 None x' y] Cons.prems by simp
  ultimately show ?case using Cons by simp
qed

lemma content_counts_append:
  assumes al: "u_alnum U 962 = u_alnum U 963"
    and ph: "list_all (\<lambda>phrase. list_all (\<lambda>c. c \<noteq> 962) (py_lower U phrase)) suspicious_phrases"
  shows "ca_help_seeking_phrases (analyze_content U t)
      \<le> ca_help_seeking_phrases (analyze_content U (t @ s))
   \<and> ca_answer_receiving_phrases (analyze_content U t)
      \<le> ca_answer_receiving_phrases (analyze_content U (t @ s))"
proof (cases "t = []")
  case True
  then show ?thesis by (simp add: analyze_content_def Let_def)
next
  case False
  obtain x' y where l: "py_lower U (t @ s) = x' @ y" and rel: "list_all2 sig_le (py_lower U t) x'"
    using py_lower_append[of U t s] by blast
  have 1: "length (phrase_details U (py_lower U t))
      \<le> length (phrase_details U (py_lower U (t @ s)))"
    unfolding l using ph rel by (rule phrase_details_mono)
  have 2: "length (pattern_details U help_pattern help_seeking_patterns (py_lower U t))
      \<le> length (pattern_details U help_pattern help_seeking_patterns (py_lower U (t @ s)))"
    unfolding l
    using al rel good_help_patterns sigma_free_patterns(1) by (rule pattern_details_mono)
  have 3: "length (pattern_details U answer_receiving answer_patterns (py_lower U t))
      \<le> length (pattern_details U answer_receiving answer_patterns (py_lower U (t @ s)))"
    unfolding l
    using al rel good_answer_patterns sigma_free_patterns(2) by (rule pattern_details_mono)
  show ?thesis using False 1 2 3 by (simp add: analyze_content_def Let_def)
qed

lemma analyze_behavior_counts:
  "bm_help_seeking_phrases (fst (analyze_behavior ba U librosa py_sum now audio_data t segs voice_events))
     = ca_help_seeking_phrases (analyze_content U t)
   \<and> bm_answer_receiving_phrases
       (fst (analyze_behavior ba U librosa py_sum now audio_data t segs voice_events))
     = ca_answer_receiving_phrases (analyze_content U t)"
  by (simp add: analyze_behavior_def Let_def)

text \<open>
  Claim C8. The counts \<^verbatim>\<open>help_seeking_phrases\<close> and
  \<^verbatim>\<open>answer_receiving_phrases\<close> of \<^verbatim>\<open>analyze_content\<close> for a transcription
  \<open>t\<close> followed by any text \<open>s\<close> are at least the counts for \<open>t\<close> alone, and the
  detection is repeatable: a second call of \<^verbatim>\<open>analyze_behavior\<close> on the same
  transcription, on the analyzer as the first call left it and with any other audio,
  segments, events and time, reports the same two counts as the first. The two
  assumptions are facts of the Unicode tables: the final and the small sigma are both
  alphanumeric or both not, and no lower-cased phrase of the analyzer contains a final
  sigma.
\<close>

theorem content_counts_monotone:
  assumes "u_alnum U 962 = u_alnum U 963"
    and "list_all (\<lambda>phrase. list_all (\<lambda>c. c \<noteq> 962) (py_lower U phrase)) suspicious_phrases"
  shows "ca_help_seeking_phrases (analyze_content U t)
      \<le> ca_help_seeking_phrases (analyze_content U (t @ s))
   \<and> ca_answer_receiving_phrases (analyze_content U t)
      \<le> ca_answer_receiving_phrases (analyze_content U (t @ s))
   \<and> bm_help_seeking_phrases
       (fst (analyze_behavior (snd (analyze_behavior ba U librosa py_sum now audio_data t segs events))
               U librosa py_sum now' audio_data' t segs' events'))
     = bm_help_seeking_phrases (fst (analyze_behavior ba U librosa py_sum now audio_data t segs events))
   \<and> bm_answer_receiving_phrases
       (fst (analyze_behavior (snd (analyze_behavior ba U librosa py_sum now audio_data t segs events))
               U librosa py_sum now' audio_data' t segs' events'))
     = bm_answer_receiving_phrases
         (fst (analyze_behavior ba U librosa py_sum now audio_data t segs events))"
  using content_counts_append[OF assms, of t s] by (simp add: analyze_behavior_counts)

theorem content_counts_monotone_witness:
  "u_alnum ascii_db 962 = u_alnum ascii_db 963
   \<and> list_all (\<lambda>phrase. list_all (\<lambda>c. c \<noteq> 962) (py_lower ascii_db phrase)) suspicious_phrases
   \<and> ca_help_seeking_phrases (analyze_content ascii_db (cps ''Can you''))
      \<le> ca_help_seeking_phrases (analyze_content ascii_db (cps ''Can you'' @ cps '' tell me''))
   \<and> ca_answer_receiving_phrases (analyze_content ascii_db (cps ''Can you''))
      \<le> ca_answer_receiving_phrases
           (analyze_content ascii_db (cps ''Can you'' @ cps '' tell me''))"
proof -
  have 1: "u_alnum ascii_db 962 = u_alnum ascii_db 963"
    by (simp add: ascii_db_def)
  have 2: "list_all (\<lambda>phrase. list_all (\<lambda>c. c \<noteq> 962) (py_lower ascii_db phrase))
      suspicious_phrases"
    by (simp add: suspicious_phrases_def py_lower_def ascii_db_def cps_simps apostrophe_def)
  show ?thesis
    using 1 2 content_counts_monotone[OF 1 2, of "cps ''Can you''" "cps '' tell me''"
        new_behavioral_analyzer None sum_left "''t0''" "[]" "[]" "[]" "''t1''" "[]" "[]" "[]"]
    by simp
qed

subsection \<open>Speech rate\<close>

text \<open>
  Rounding a real between \<open>2 ^ - 1022\<close> and \<open>2 ^ 1023\<close> gives a finite float
  with a relative error of at most \<open>2 ^ - 53\<close>.
\<close>

lemma pow2_pos: "0 < pow2 e"
  by (simp add: pow2_def)

lemma pow2_powi: "pow2 e = 2 powi e"
  by (simp add: pow2_def power_int_def field_simps)

lemma pow2_succ: "pow2 (e + 1) = 2 * pow2 e"
  by (simp add: pow2_powi power_int_add)

lemma pow2_pred: "pow2 (e - 1) = pow2 e / 2"
  using pow2_succ[of "e - 1"] by simp

lemma round_half_even_error: "\<bar>of_int (round_half_even y) - y\<bar> \<le> 1 / 2"
proof -
  have "of_int \<lfloor>y\<rfloor> \<le> y" "y < of_int \<lfloor>y\<rfloor> + 1" by linarith+
  then show ?thesis by (auto simp: round_half_even_def Let_def)
qed

lemma scale_down_props:
  "scale_down x e = (y, e') \<Longrightarrow>
     y * pow2 e' = x * pow2 e \<and> y < 2 ^ 53 \<and> (2 ^ 53 \<le> x \<longrightarrow> 2 ^ 52 \<le> y)
       \<and> (x < 2 ^ 53 \<longrightarrow> y = x \<and> e' = e)"
proof (induction x e rule: scale_down.induct)
  case (1 x e)
  show ?case
  proof (cases "2 ^ 53 \<le> x")
    case True
    then have s: "scale_down (x / 2) (e + 1) = (y, e')"
      using 1(2) by (simp add: scale_down.simps[of x e])
    have ih: "y * pow2 e' = x / 2 * pow2 (e + 1) \<and> y < 2 ^ 53
        \<and> (2 ^ 53 \<le> x / 2 \<longrightarrow> 2 ^ 52 \<le> y) \<and> (x / 2 < 2 ^ 53 \<longrightarrow> y = x / 2 \<and> e' = e + 1)"
      using 1(1)[OF True s] .
    have "2 ^ 52 \<le> y"
    proof (cases "2 ^ 53 \<le> x / 2")
      case True
      then show ?thesis using ih by simp
    next
      case False
      then have "y = x / 2" using ih by simp
      then show ?thesis using True by simp
    qed
    then show ?thesis using ih True by (simp add: pow2_succ)
  next
    case False
    then have "y = x \<and> e' = e" using 1(2) by (simp add: scale_down.simps[of x e])
    then show ?thesis using False by simp
  qed
qed

lemma scale_up_props:
  "scale_up x e = (y, e') \<Longrightarrow> x < 2 ^ 53 \<Longrightarrow> - 1074 \<le> e \<Longrightarrow>
     y * pow2 e' = x * pow2 e \<and> y < 2 ^ 53 \<and> (2 ^ 52 \<le> y \<or> e' = - 1074)"
proof (induction x e rule: scale_up.induct)
  case (1 x e)
  show ?case
  proof (cases "x < 2 ^ 52 \<and> - 1074 < e")
    case True
    then have s: "scale_up (x * 2) (e - 1) = (y, e')"
      using 1(2) by (simp add: scale_up.simps[of x e])
    have "y * pow2 e' = x * 2 * pow2 (e - 1) \<and> y < 2 ^ 53 \<and> (2 ^ 52 \<le> y \<or> e' = - 1074)"
      using 1(1)[OF True s] True by simp
    then show ?thesis by (simp add: pow2_pred)
  next
    case False
    then have "scale_up x e = (x, e)" by (subst scale_up.simps) auto
    then have "y = x \<and> e' = e" using 1(2) by simp
    then show ?thesis using False 1(3,4) by auto
  qed
qed

lemma round_pos_error:
  assumes lo: "1 / 2 ^ 1022 \<le> x" and hi: "x \<le> 2 ^ 1023"
  shows "\<exists>r. round_pos x = Fin r \<and> \<bar>r - x\<bar> \<le> x / 2 ^ 53"
proof -
  have xpos: "0 < x"
  proof -
    have "(0::real) < 1 / 2 ^ 1022" by simp
    then show ?thesis using lo by linarith
  qed
  obtain y1 e1 where d: "scale_down x 0 = (y1, e1)" by (cases "scale_down x 0")
  obtain y e where u: "scale_up y1 e1 = (y, e)" by (cases "scale_up y1 e1")
  have dp: "y1 * pow2 e1 = x \<and> y1 < 2 ^ 53 \<and> (2 ^ 53 \<le> x \<longrightarrow> 2 ^ 52 \<le> y1)
      \<and> (x < 2 ^ 53 \<longrightarrow> y1 = x \<and> e1 = 0)"
    using scale_down_props[OF d] by (simp add: pow2_def)
  have e1: "- 1074 \<le> e1"
  proof (cases "2 ^ 53 \<le> x")
    case True
    then have "2 ^ 52 \<le> y1" using dp by simp
    then have "scale_up y1 e1 = (y1, e1)" by (simp add: scale_up.simps[of y1 e1])
    have "\<not> e1 < 0"
    proof
      assume neg: "e1 < 0"
      then have "pow2 e1 \<le> 1" by (simp add: pow2_def)
      then have "y1 * pow2 e1 \<le> y1 * 1"
        using \<open>2 ^ 52 \<le> y1\<close> by (intro mult_left_mono) simp_all
      then show False using dp True by simp
    qed
    then show ?thesis by simp
  next
    case False
    then show ?thesis using dp by simp
  qed
  have up: "y * pow2 e = x \<and> y < 2 ^ 53 \<and> (2 ^ 52 \<le> y \<or> e = - 1074)"
    using scale_up_props[OF u _ e1] dp by simp
  have ylo: "2 ^ 52 \<le> y"
  proof (rule ccontr)
    assume n: "\<not> 2 ^ 52 \<le> y"
    then have e: "e = - 1074" using up by simp
    have "y * pow2 e < 2 ^ 52 * pow2 e"
      using n pow2_pos[of e] by (intro mult_strict_right_mono) simp_all
    then have "x < 2 ^ 52 * pow2 (- 1074)" using up e by simp
    also have "2 ^ 52 * pow2 (- 1074) = 1 / 2 ^ 1022" by (simp add: pow2_def)
    finally show False using lo by simp
  qed
  let ?m = "round_half_even y"
  let ?r = "of_int ?m * pow2 e"
  have pe: "pow2 e = x / y" using up ylo by (simp add: field_simps)
  have "pow2 e \<le> x / 2 ^ 52"
    unfolding pe using xpos ylo by (intro divide_left_mono) simp_all
  then have half: "pow2 e / 2 \<le> x / 2 ^ 53" by simp
  have "\<bar>?r - x\<bar> = \<bar>of_int ?m - y\<bar> * pow2 e"
  proof -
    have "?r - x = (of_int ?m - y) * pow2 e" using up by (simp add: algebra_simps)
    then show ?thesis using pow2_pos[of e] by (simp add: abs_mult)
  qed
  also have "\<dots> \<le> 1 / 2 * pow2 e"
    using round_half_even_error[of y] pow2_pos[of e] by (intro mult_right_mono) simp_all
  finally have err: "\<bar>?r - x\<bar> \<le> x / 2 ^ 53" using half by simp
  have "?r \<le> x + x / 2 ^ 53" using err by linarith
  also have "\<dots> \<le> 2 ^ 1023 + 2 ^ 1023 / 2 ^ 53"
    using hi by (intro add_mono divide_right_mono) simp_all
  also have "\<dots> < 2 ^ 1024" by simp
  finally have "\<not> 2 ^ 1024 \<le> ?r" by simp
  then have "round_pos x = Fin ?r" by (simp add: round_pos_def d u Let_def)
  then show ?thesis using err by blast
qed

lemma fl_error:
  assumes "1 / 2 ^ 1022 \<le> x" and "x \<le> 2 ^ 1023"
  shows "\<exists>r. fl x = Fin r \<and> \<bar>r - x\<bar> \<le> x / 2 ^ 53"
proof -
  have "(0::real) < 1 / 2 ^ 1022" by simp
  then have "0 < x" using assms(1) by linarith
  then show ?thesis using round_pos_error[OF assms] by (simp add: fl_def)
qed


lemma rate_near_150:
  assumes lo: "1 / 10 ^ 300 \<le> x" and hi: "x \<le> 10 ^ 300"
  shows "\<exists>c. fmul (fdiv (fmul (Fin x) (Fin (25 / 10))) (Fin x)) (Fin 60) = Fin c
           \<and> \<bar>c - 150\<bar> \<le> 1 / 10 ^ 13"
proof -
  have xpos: "0 < x"
  proof -
    have "(0::real) < 1 / 10 ^ 300" by simp
    then show ?thesis using lo by linarith
  qed
  have "(1::real) / 2 ^ 1022 \<le> 1 / 10 ^ 300 * (25 / 10)" by simp
  also have "\<dots> \<le> x * (25 / 10)" using lo by (intro mult_right_mono) simp_all
  finally have lo1: "1 / 2 ^ 1022 \<le> x * (25 / 10)" .
  have "x * (25 / 10) \<le> 10 ^ 300 * (25 / 10)" using hi by (intro mult_right_mono) simp_all
  also have "\<dots> \<le> (2::real) ^ 1023" by simp
  finally have hi1: "x * (25 / 10) \<le> 2 ^ 1023" .
  obtain a where a: "fl (x * (25 / 10)) = Fin a"
    and ea: "\<bar>a - x * (25 / 10)\<bar> \<le> x * (25 / 10) / 2 ^ 53"
    using fl_error[OF lo1 hi1] by blast
  let ?q = "a / x"
  have "\<bar>?q - 25 / 10\<bar> = \<bar>a - x * (25 / 10)\<bar> / x"
  proof -
    have "?q - 25 / 10 = (a - x * (25 / 10)) / x" using xpos by (simp add: field_simps)
    then show ?thesis using xpos by (simp add: abs_divide del: times_divide_eq_right)
  qed
  also have "\<dots> \<le> (x * (25 / 10) / 2 ^ 53) / x"
    using ea xpos by (intro divide_right_mono) simp_all
  also have "\<dots> = 25 / 10 / 2 ^ 53" using xpos by simp
  finally have eq: "\<bar>?q - 25 / 10\<bar> \<le> 25 / 10 / 2 ^ 53" .
  have q2: "2 \<le> ?q" "?q \<le> 3"
  proof -
    have "(25::real) / 10 / 2 ^ 53 \<le> 1 / 2" by simp
    then show "2 \<le> ?q" "?q \<le> 3" using eq by linarith+
  qed
  have lo2: "1 / 2 ^ 1022 \<le> ?q"
  proof -
    have "(1::real) / 2 ^ 1022 \<le> 2" by simp
    then show ?thesis using q2 by linarith
  qed
  have hi2: "?q \<le> 2 ^ 1023"
  proof -
    have "(3::real) \<le> 2 ^ 1023" by simp
    then show ?thesis using q2 by linarith
  qed
  obtain b where b: "fl ?q = Fin b" and eb: "\<bar>b - ?q\<bar> \<le> ?q / 2 ^ 53"
    using fl_error[OF lo2 hi2] by blast
  have "?q / 2 ^ 53 \<le> 3 / 2 ^ 53" using q2 by (intro divide_right_mono) simp_all
  then have eb': "\<bar>b - 25 / 10\<bar> \<le> 55 / 10 / 2 ^ 53" using eb eq by linarith
  have b2: "2 \<le> b" "b \<le> 3"
  proof -
    have "(55::real) / 10 / 2 ^ 53 \<le> 1 / 2" by simp
    then show "2 \<le> b" "b \<le> 3" using eb' by linarith+
  qed
  have lo3: "1 / 2 ^ 1022 \<le> b * 60"
  proof -
    have "(1::real) / 2 ^ 1022 \<le> 120" by simp
    then show ?thesis using b2 by linarith
  qed
  have hi3: "b * 60 \<le> 2 ^ 1023"
  proof -
    have "(180::real) \<le> 2 ^ 1023" by simp
    then show ?thesis using b2 by linarith
  qed
  obtain c where c: "fl (b * 60) = Fin c" and ec: "\<bar>c - b * 60\<bar> \<le> b * 60 / 2 ^ 53"
    using fl_error[OF lo3 hi3] by blast
  have "b * 60 / 2 ^ 53 \<le> 180 / 2 ^ 53" using b2 by (intro divide_right_mono) simp_all
  then have "\<bar>c - 150\<bar> \<le> 180 / 2 ^ 53 + 60 * (55 / 10 / 2 ^ 53)" using ec eb' by linarith
  also have "\<dots> \<le> 1 / 10 ^ 13" by simp
  finally have "\<bar>c - 150\<bar> \<le> 1 / 10 ^ 13" .
  moreover have "fmul (fdiv (fmul (Fin x) (Fin (25 / 10))) (Fin x)) (Fin 60) = Fin c"
    using a b c xpos by simp
  ultimately show ?thesis by blast
qed

lemma scale_down_shift:
  "2 ^ 53 \<le> x \<Longrightarrow> scale_down (x * 2 ^ n) e = scale_down x (e + int n)"
proof (induction n arbitrary: e)
  case 0
  then show ?case by simp
next
  case (Suc n)
  have "(1::real) \<le> 2 ^ Suc n" by (rule one_le_power) simp
  then have "(2::real) ^ 53 * 1 \<le> x * 2 ^ Suc n"
    using Suc.prems by (intro mult_mono) simp_all
  then have "scale_down (x * 2 ^ Suc n) e = scale_down (x * 2 ^ Suc n / 2) (e + 1)"
    by (subst scale_down.simps) simp
  also have "\<dots> = scale_down (x * 2 ^ n) (e + 1)" by simp
  also have "\<dots> = scale_down x (e + 1 + int n)" using Suc by simp
  finally show ?case by (simp add: add.commute add.left_commute)
qed


lemma rule_snd_mem:
  "x \<in> set (snd (rule c w f acc)) \<longleftrightarrow> (c \<and> x = f) \<or> x \<in> set (snd acc)"
  by (auto simp: rule_def)

lemma unusual_rate_mem:
  "UnusualSpeechRate r \<in> set (snd (behavioral_score m))
     \<longleftrightarrow> (r = bm_speech_rate m
          \<and> (fgt (bm_speech_rate m) (Fin 200) \<or> flt (bm_speech_rate m) (Fin 50)))"
  by (auto simp: behavioral_score_def rule_snd_mem)

lemma speech_rate_value:
  "spt_speech_rate (analyze_speech_patterns py_sum segs)
     = (if segs \<noteq> [] \<and> fgt (summed_durations py_sum segs) (Fin 0)
        then fmul (fdiv (fmul (summed_durations py_sum segs) (Fin (25 / 10)))
                     (summed_durations py_sum segs)) (Fin 60)
        else Fin 0)"
  by (simp add: analyze_speech_patterns_def Let_def)

lemma analyze_behavior_factors:
  "ar_risk_factors (last (ba_analysis_history
       (snd (analyze_behavior ba U librosa py_sum now audio t segs evs))))
     = snd (behavioral_score
         ((fst (analyze_behavior ba U librosa py_sum now audio t segs evs))
            \<lparr> bm_overall_confidence := 0 \<rparr>))"
  by (simp add: analyze_behavior_def Let_def deque_append_last calculate_overall_risk_score_def)

lemma analyze_behavior_speech_rate:
  "bm_speech_rate (fst (analyze_behavior ba U librosa py_sum now audio t segs evs))
     = spt_speech_rate (analyze_speech_patterns py_sum segs)"
  by (simp add: analyze_behavior_def Let_def)

lemma unusual_rate_fires:
  "UnusualSpeechRate r \<in> set (ar_risk_factors (last (ba_analysis_history
       (snd (analyze_behavior ba U librosa py_sum now audio t segs evs)))))
     \<longleftrightarrow> (r = spt_speech_rate (analyze_speech_patterns py_sum segs)
          \<and> (fgt (spt_speech_rate (analyze_speech_patterns py_sum segs)) (Fin 200)
               \<or> flt (spt_speech_rate (analyze_speech_patterns py_sum segs)) (Fin 50)))"
  by (simp add: analyze_behavior_factors unusual_rate_mem analyze_behavior_speech_rate)

lemmas float_eval = fl_def round_pos_def scale_down.simps scale_up.simps round_half_even_def
  pow2_def Let_def

lemma total_segment_0_47:
  "summed_durations sum_left segment_0_47 = Fin (2116691824864133 / 4503599627370496)"
  by (simp add: summed_durations_def sum_left_def segment_0_47_def get0_def float_eval)

lemma rate_segment_0_47:
  "spt_speech_rate (analyze_speech_patterns sum_left segment_0_47)
     = Fin (5277655813324799 / 35184372088832)"
proof -
  have n: "segment_0_47 \<noteq> []" by (simp add: segment_0_47_def)
  show ?thesis
    unfolding speech_rate_value total_segment_0_47 using n by (simp add: float_eval)
qed

lemma fl_2_pow_1023: "fl (2 ^ 1023) = Fin (2 ^ 1023)"
proof -
  have "scale_down (2 ^ 53 * 2 ^ 970) 0 = scale_down (2 ^ 53) (0 + int 970)"
    by (rule scale_down_shift) simp
  moreover have "(2::real) ^ 1023 = 2 ^ 53 * 2 ^ 970" by simp
  ultimately have "scale_down (2 ^ 1023) 0 = scale_down (2 ^ 53) 970" by simp
  also have "\<dots> = (4503599627370496, 971)" by (simp add: scale_down.simps)
  finally have d: "scale_down (2 ^ 1023) 0 = (4503599627370496, 971)" .
  have u: "scale_up 4503599627370496 971 = (4503599627370496, 971)"
    by (simp add: scale_up.simps)
  have r: "round_half_even 4503599627370496 = 4503599627370496"
    by (simp add: round_half_even_def)
  have p: "pow2 971 = 2 ^ 971" by (simp add: pow2_def)
  have "round_pos (2 ^ 1023) = Fin (2 ^ 1023)"
    unfolding round_pos_def d by (simp add: u r p)
  then show ?thesis by (simp add: fl_def)
qed

lemma fl_overflow: "fl (2 ^ 1023 * (25 / 10)) = PInf"
proof -
  have "scale_down (5 * 2 ^ 51 * 2 ^ 971) 0 = scale_down (5 * 2 ^ 51) (0 + int 971)"
    by (rule scale_down_shift) simp
  moreover have "(2::real) ^ 1023 * (25 / 10) = 5 * 2 ^ 51 * 2 ^ 971" by simp
  ultimately have "scale_down (2 ^ 1023 * (25 / 10)) 0 = scale_down (5 * 2 ^ 51) 971" by simp
  also have "\<dots> = (5629499534213120, 972)" by (simp add: scale_down.simps)
  finally have d: "scale_down (2 ^ 1023 * (25 / 10)) 0 = (5629499534213120, 972)" .
  have u: "scale_up 5629499534213120 972 = (5629499534213120, 972)"
    by (simp add: scale_up.simps)
  have r: "round_half_even 5629499534213120 = 5629499534213120"
    by (simp add: round_half_even_def)
  have p: "pow2 972 = 2 ^ 972" by (simp add: pow2_def)
  have "round_pos (2 ^ 1023 * (25 / 10)) = PInf"
    unfolding round_pos_def d by (simp add: u r p)
  then show ?thesis by (simp add: fl_def)
qed

lemma total_segment_2_pow_1023:
  "summed_durations sum_left segment_2_pow_1023 = Fin (2 ^ 1023)"
  using fl_2_pow_1023
  by (simp add: summed_durations_def sum_left_def segment_2_pow_1023_def get0_def)

lemma rate_segment_2_pow_1023:
  "spt_speech_rate (analyze_speech_patterns sum_left segment_2_pow_1023) = PInf"
proof -
  have n: "segment_2_pow_1023 \<noteq> []" by (simp add: segment_2_pow_1023_def)
  show ?thesis
    unfolding speech_rate_value total_segment_2_pow_1023 using n fl_overflow
    by (simp add: inf_signed_def)
qed

text \<open>
  C10, as stated, fails on the code. For one segment of duration 0.47 (the float
  \<open>2116691824864133 / 2 ^ 52\<close>) the three rounded operations give the speech rate
  \<open>150 - 2 ^ - 45\<close> (149.99999999999997), not 150. For one segment of duration
  \<open>2 ^ 1023\<close> the product with 2.5 overflows, the speech rate is the infinity, and
  \<^verbatim>\<open>analyze_behavior\<close> records the unusual speech rate although the total duration
  is positive.
\<close>

theorem speech_rate_not_exactly_150:
  "summed_durations sum_left segment_0_47 = Fin (2116691824864133 / 4503599627370496)
   \<and> spt_speech_rate (analyze_speech_patterns sum_left segment_0_47)
       = Fin (5277655813324799 / 35184372088832)
   \<and> (5277655813324799 / 35184372088832 :: real) < 150
   \<and> summed_durations sum_left segment_2_pow_1023 = Fin (2 ^ 1023)
   \<and> fgt (summed_durations sum_left segment_2_pow_1023) (Fin 0)
   \<and> spt_speech_rate (analyze_speech_patterns sum_left segment_2_pow_1023) = PInf
   \<and> UnusualSpeechRate PInf \<in> set (ar_risk_factors (last (ba_analysis_history
        (snd (analyze_behavior new_behavioral_analyzer ascii_db None sum_left [] [] []
                segment_2_pow_1023 [])))))"
  by (simp add: total_segment_0_47 rate_segment_0_47 total_segment_2_pow_1023
      rate_segment_2_pow_1023 unusual_rate_fires)

text \<open>
  C10, amended. The speech rate returned by \<^verbatim>\<open>analyze_speech_patterns\<close> is 0.0 when
  the list is empty or the summed durations do not compare greater than zero, and the
  unusual speech rate is then recorded by \<^verbatim>\<open>analyze_behavior\<close>, with the rate 0.0.
  When the summed duration is a float between \<open>10 ^ - 300\<close> and \<open>10 ^ 300\<close> the
  speech rate is a finite float within \<open>10 ^ - 13\<close> of 150, and no unusual speech
  rate is recorded. The speech rate in the metrics of \<^verbatim>\<open>analyze_behavior\<close> is the
  one that \<^verbatim>\<open>analyze_speech_patterns\<close> returns.
\<close>

theorem speech_rate_zero_or_near_150:
  "((segs = [] \<or> \<not> fgt (summed_durations py_sum segs) (Fin 0)) \<longrightarrow>
      spt_speech_rate (analyze_speech_patterns py_sum segs) = Fin 0
      \<and> UnusualSpeechRate (Fin 0) \<in> set (ar_risk_factors (last (ba_analysis_history
            (snd (analyze_behavior ba U librosa py_sum now audio t segs evs))))))
   \<and> ((segs \<noteq> [] \<and> summed_durations py_sum segs = Fin x \<and> 1 / 10 ^ 300 \<le> x \<and> x \<le> 10 ^ 300)
        \<longrightarrow>
      (\<exists>c. spt_speech_rate (analyze_speech_patterns py_sum segs) = Fin c
           \<and> \<bar>c - 150\<bar> \<le> 1 / 10 ^ 13)
      \<and> \<not> (\<exists>r. UnusualSpeechRate r \<in> set (ar_risk_factors (last (ba_analysis_history
            (snd (analyze_behavior ba U librosa py_sum now audio t segs evs)))))))
   \<and> bm_speech_rate (fst (analyze_behavior ba U librosa py_sum now audio t segs evs))
       = spt_speech_rate (analyze_speech_patterns py_sum segs)"
proof (intro conjI impI)
  assume "segs = [] \<or> \<not> fgt (summed_durations py_sum segs) (Fin 0)"
  then have r: "spt_speech_rate (analyze_speech_patterns py_sum segs) = Fin 0"
    by (auto simp: speech_rate_value)
  then show "spt_speech_rate (analyze_speech_patterns py_sum segs) = Fin 0" .
  show "UnusualSpeechRate (Fin 0) \<in> set (ar_risk_factors (last (ba_analysis_history
          (snd (analyze_behavior ba U librosa py_sum now audio t segs evs)))))"
    by (simp add: unusual_rate_fires r flt_def)
next
  assume a: "segs \<noteq> [] \<and> summed_durations py_sum segs = Fin x \<and> 1 / 10 ^ 300 \<le> x
      \<and> x \<le> 10 ^ 300"
  have "(0::real) < 1 / 10 ^ 300" by simp
  then have xpos: "0 < x" using a by linarith
  obtain c where c: "fmul (fdiv (fmul (Fin x) (Fin (25 / 10))) (Fin x)) (Fin 60) = Fin c"
    and e: "\<bar>c - 150\<bar> \<le> 1 / 10 ^ 13"
    using rate_near_150[of x] a by blast
  have r: "spt_speech_rate (analyze_speech_patterns py_sum segs) = Fin c"
    using a xpos c by (simp add: speech_rate_value)
  show "\<exists>c. spt_speech_rate (analyze_speech_patterns py_sum segs) = Fin c
      \<and> \<bar>c - 150\<bar> \<le> 1 / 10 ^ 13"
    using r e by blast
  have "(1::real) / 10 ^ 13 \<le> 1" by simp
  then have "50 \<le> c \<and> c \<le> 200" using e by linarith
  then show "\<not> (\<exists>r. UnusualSpeechRate r \<in> set (ar_risk_factors (last (ba_analysis_history
          (snd (analyze_behavior ba U librosa py_sum now audio t segs evs))))))"
    by (simp add: unusual_rate_fires r flt_def)
next
  show "bm_speech_rate (fst (analyze_behavior ba U librosa py_sum now audio t segs evs))
      = spt_speech_rate (analyze_speech_patterns py_sum segs)"
    by (rule analyze_behavior_speech_rate)
qed

theorem speech_rate_zero_or_near_150_witness:
  "\<not> fgt (summed_durations sum_left zero_length_segment) (Fin 0)
   \<and> spt_speech_rate (analyze_speech_patterns sum_left zero_length_segment) = Fin 0
   \<and> UnusualSpeechRate (Fin 0) \<in> set (ar_risk_factors (last (ba_analysis_history
        (snd (analyze_behavior new_behavioral_analyzer ascii_db None sum_left [] [] []
                zero_length_segment [])))))
   \<and> segment_0_47 \<noteq> []
   \<and> summed_durations sum_left segment_0_47 = Fin (2116691824864133 / 4503599627370496)
   \<and> (1 / 10 ^ 300 :: real) \<le> 2116691824864133 / 4503599627370496
   \<and> (2116691824864133 / 4503599627370496 :: real) \<le> 10 ^ 300
   \<and> (\<exists>c. spt_speech_rate (analyze_speech_patterns sum_left segment_0_47) = Fin c
          \<and> \<bar>c - 150\<bar> \<le> 1 / 10 ^ 13)
   \<and> \<not> (\<exists>r. UnusualSpeechRate r \<in> set (ar_risk_factors (last (ba_analysis_history
        (snd (analyze_behavior new_behavioral_analyzer ascii_db None sum_left [] [] []
                segment_0_47 []))))))"
proof -
  have z: "\<not> fgt (summed_durations sum_left zero_length_segment) (Fin 0)"
    by (simp add: summed_durations_def sum_left_def zero_length_segment_def get0_def fl_def)
  have n: "segment_0_47 \<noteq> []" by (simp add: segment_0_47_def)
  have b: "(1 / 10 ^ 300 :: real) \<le> 2116691824864133 / 4503599627370496"
    "(2116691824864133 / 4503599627370496 :: real) \<le> 10 ^ 300"
    by simp_all
  show ?thesis
    using z n b total_segment_0_47
      speech_rate_zero_or_near_150[of zero_length_segment sum_left new_behavioral_analyzer
        ascii_db None "[]" "[]" "[]" "[]" 0]
      speech_rate_zero_or_near_150[of segment_0_47 sum_left new_behavioral_analyzer
        ascii_db None "[]" "[]" "[]" "[]" "2116691824864133 / 4503599627370496"]
    by simp
qed

end
